(* ===== verification/Prelude.thy ===== *)
theory Prelude
  imports "HOL-Library.Char_ord" "HOL-Library.List_Lexorder" "HOL-Library.Product_Lexorder"
    "HOL-Library.Sublist"
begin

text \<open>
  The prelude of the AlertLoop development: the names of the shared types, the collections
  that the component proofs put their rewrite rules into, and the generic facts on lists that
  the SQL tables (lists of rows) need.

  An instant is the number of nanoseconds since Go's zero time, so \<^verbatim>\<open>t.IsZero()\<close> is
  \<open>t = 0\<close>. The store writes every instant as fixed-width UTC text and compares the texts; the
  model compares the instants.
\<close>

type_synonym time = int
type_synonym duration = int

abbreviation Second :: duration where "Second \<equiv> 1000000000"
abbreviation Minute :: duration where "Minute \<equiv> 60 * Second"
abbreviation Hour :: duration where "Hour \<equiv> 60 * Minute"

named_theorems row_simps \<open>rewrite rules for rows and tables\<close>
named_theorems inv_intros \<open>preservation of the store invariant\<close>

subsection \<open>Checks in sequence\<close>

text \<open>
  \<^verbatim>\<open>if err := a; err != nil { return err }\<close> followed by the rest of the function, and the loop that
  returns at the first element with an error.
\<close>

definition or_err :: "'e option \<Rightarrow> 'e option \<Rightarrow> 'e option" where
  "or_err a b = (case a of Some e \<Rightarrow> Some e | None \<Rightarrow> b)"

fun first_error :: "('a \<Rightarrow> 'e option) \<Rightarrow> 'a list \<Rightarrow> 'e option" where
  "first_error f [] = None"
| "first_error f (x # xs) = or_err (f x) (first_error f xs)"

definition check :: "bool \<Rightarrow> 'e \<Rightarrow> 'e option" where
  "check ok e = (if ok then None else Some e)"

lemma or_err_None_iff [simp]: "or_err a b = None \<longleftrightarrow> a = None \<and> b = None"
  by (simp add: or_err_def split: option.split)

lemma or_err_simps [simp]: "or_err None b = b" "or_err (Some e) b = Some e"
  by (simp_all add: or_err_def)

lemma check_None_iff [simp]: "check ok e = None \<longleftrightarrow> ok"
  by (simp add: check_def)

lemma check_simps [simp]: "check True e = None" "check False e = Some e"
  by (simp_all add: check_def)

lemma check_Some_iff [simp]: "check ok e = Some e' \<longleftrightarrow> \<not> ok \<and> e' = e"
  by (auto simp: check_def)

lemma or_err_Some_iff: "or_err a b = Some e \<longleftrightarrow> a = Some e \<or> a = None \<and> b = Some e"
  by (cases a) auto

lemma first_error_None_iff [simp]: "first_error f xs = None \<longleftrightarrow> (\<forall>x \<in> set xs. f x = None)"
  by (induction xs) auto

lemma first_error_SomeD: "first_error f xs = Some e \<Longrightarrow> \<exists>x \<in> set xs. f x = Some e"
  by (induction xs) (auto simp: or_err_Some_iff)

lemma map_sum_Inr_iff [simp]: "map_sum id f x = Inr y \<longleftrightarrow> (\<exists>z. x = Inr z \<and> y = f z)"
  by (cases x) auto

subsection \<open>Tables\<close>

text \<open>\<open>UPDATE t SET f WHERE P\<close> and \<open>DELETE FROM t WHERE P\<close> on a table kept as a list of rows.\<close>

definition update_where :: "('r \<Rightarrow> bool) \<Rightarrow> ('r \<Rightarrow> 'r) \<Rightarrow> 'r list \<Rightarrow> 'r list" where
  "update_where P f rows = map (\<lambda>r. if P r then f r else r) rows"

definition delete_where :: "('r \<Rightarrow> bool) \<Rightarrow> 'r list \<Rightarrow> 'r list" where
  "delete_where P rows = filter (\<lambda>r. \<not> P r) rows"

lemma update_where_Nil [simp]: "update_where P f [] = []"
  by (simp add: update_where_def)

lemma update_where_Cons [simp]:
  "update_where P f (r # rs) = (if P r then f r else r) # update_where P f rs"
  by (simp add: update_where_def)

lemma update_where_append [simp]:
  "update_where P f (xs @ ys) = update_where P f xs @ update_where P f ys"
  by (simp add: update_where_def)

lemma length_update_where [simp]: "length (update_where P f rows) = length rows"
  by (simp add: update_where_def)

lemma set_update_where:
  "set (update_where P f rows) = (\<lambda>r. if P r then f r else r) ` set rows"
  by (simp add: update_where_def)

lemma map_update_where:
  "(\<And>r. k (f r) = k r) \<Longrightarrow> map k (update_where P f rows) = map k rows"
  by (induction rows) auto

lemma filter_update_where:
  "(\<And>r. Q (f r) = Q r) \<Longrightarrow> filter Q (update_where P f rows) = update_where P f (filter Q rows)"
  by (induction rows) auto

lemma update_where_id: "(\<And>r. r \<in> set rows \<Longrightarrow> \<not> P r) \<Longrightarrow> update_where P f rows = rows"
  by (induction rows) auto

lemma update_where_cong:
  "(\<And>r. r \<in> set rows \<Longrightarrow> P r = Q r) \<Longrightarrow> (\<And>r. r \<in> set rows \<Longrightarrow> Q r \<Longrightarrow> f r = g r) \<Longrightarrow>
   update_where P f rows = update_where Q g rows"
  by (auto simp: update_where_def)

lemma in_update_whereE:
  assumes "x \<in> set (update_where P f rows)"
  obtains r where "r \<in> set rows" "P r" "x = f r" | "x \<in> set rows" "\<not> P x"
  using assms by (auto simp: set_update_where split: if_splits)

lemma set_delete_where [simp]: "set (delete_where P rows) = {r \<in> set rows. \<not> P r}"
  by (auto simp: delete_where_def)

lemma distinct_map_delete_where:
  "distinct (map k rows) \<Longrightarrow> distinct (map k (delete_where P rows))"
  by (simp add: delete_where_def distinct_map_filter)

subsection \<open>Rows with a key\<close>

text \<open>A table with a primary key holds at most one row per key.\<close>

lemma distinct_key_eq:
  "distinct (map k rows) \<Longrightarrow> a \<in> set rows \<Longrightarrow> b \<in> set rows \<Longrightarrow> k a = k b \<Longrightarrow> a = b"
  by (meson distinct_map inj_onD)

lemma find_SomeD: "find P xs = Some x \<Longrightarrow> x \<in> set xs \<and> P x"
  by (auto simp: find_Some_iff)

lemma find_NoneD: "find P xs = None \<Longrightarrow> y \<in> set xs \<Longrightarrow> \<not> P y"
  by (simp add: find_None_iff)

lemma find_unique:
  assumes "x \<in> set xs" "P x" "\<And>y. y \<in> set xs \<Longrightarrow> P y \<Longrightarrow> y = x"
  shows "find P xs = Some x"
proof (cases "find P xs")
  case None
  with assms(1,2) show ?thesis by (simp add: find_None_iff)
next
  case (Some y)
  with assms(3) show ?thesis by (auto dest: find_SomeD)
qed

lemma find_by_key:
  assumes "distinct (map k rows)" "r \<in> set rows"
  shows "find (\<lambda>x. k x = k r) rows = Some r"
  by (rule find_unique) (use assms in \<open>auto dest: distinct_key_eq\<close>)

lemma find_update_where:
  "(\<And>r. Q (f r) = Q r) \<Longrightarrow>
   find Q (update_where P f rows) = map_option (\<lambda>r. if P r then f r else r) (find Q rows)"
  by (induction rows) auto

lemma sort_key_set [simp]: "set (sort_key f xs) = set xs"
  by simp

lemma set_take_sort_subset: "x \<in> set (take n (sort_key f xs)) \<Longrightarrow> x \<in> set xs"
  by (metis in_set_takeD set_sort)

end
