(* ===== verification/Go_Text.thy ===== *)
theory Go_Text
  imports Prelude
begin

text \<open>
  The part of Go's \<^verbatim>\<open>strings\<close>, \<^verbatim>\<open>unicode\<close> and \<^verbatim>\<open>unicode/utf8\<close> packages that AlertLoop uses, on
  byte strings. A Go string is a sequence of bytes, here a \<^typ>\<open>string\<close>; the functions that
  look at characters decode UTF-8 as Go does, an invalid byte counting as one character.

  \<^verbatim>\<open>strings.ToLower\<close> lower-cases an ASCII string byte by byte and hands every other string to
  the Unicode case tables. The tables are a parameter \<open>ul\<close> of the functions that use them.
\<close>

subsection \<open>White space\<close>

text \<open>The UTF-8 encodings of the characters \<^verbatim>\<open>unicode.IsSpace\<close> accepts.\<close>

definition ascii_spaces :: "string list" where
  "ascii_spaces = [[CHR 0x09], [CHR 0x0A], [CHR 0x0B], [CHR 0x0C], [CHR 0x0D], [CHR 0x20]]"

definition unicode_spaces :: "string list" where
  "unicode_spaces =
     [[CHR 0xC2, CHR 0x85], [CHR 0xC2, CHR 0xA0], [CHR 0xE1, CHR 0x9A, CHR 0x80],
      [CHR 0xE2, CHR 0x80, CHR 0x80], [CHR 0xE2, CHR 0x80, CHR 0x81], [CHR 0xE2, CHR 0x80, CHR 0x82],
      [CHR 0xE2, CHR 0x80, CHR 0x83], [CHR 0xE2, CHR 0x80, CHR 0x84], [CHR 0xE2, CHR 0x80, CHR 0x85],
      [CHR 0xE2, CHR 0x80, CHR 0x86], [CHR 0xE2, CHR 0x80, CHR 0x87], [CHR 0xE2, CHR 0x80, CHR 0x88],
      [CHR 0xE2, CHR 0x80, CHR 0x89], [CHR 0xE2, CHR 0x80, CHR 0x8A], [CHR 0xE2, CHR 0x80, CHR 0xA8],
      [CHR 0xE2, CHR 0x80, CHR 0xA9], [CHR 0xE2, CHR 0x80, CHR 0xAF], [CHR 0xE2, CHR 0x81, CHR 0x9F],
      [CHR 0xE3, CHR 0x80, CHR 0x80]]"

definition spaces :: "string list" where
  "spaces = ascii_spaces @ unicode_spaces"

text \<open>Removes the first of the given patterns that the string starts with.\<close>

primrec strip_any :: "string list \<Rightarrow> string \<Rightarrow> string option" where
  "strip_any [] s = None"
| "strip_any (p # ps) s =
     (if p \<noteq> [] \<and> take (length p) s = p then Some (drop (length p) s) else strip_any ps s)"

lemma strip_any_shorter: "strip_any ps s = Some t \<Longrightarrow> length t < length s"
proof (induction ps)
  case (Cons p ps)
  then show ?case
  proof (cases "p \<noteq> [] \<and> take (length p) s = p")
    case True
    then have "s \<noteq> []" by auto
    with True Cons.prems show ?thesis by (auto simp: diff_less)
  qed auto
qed simp

function trim_left_with :: "string list \<Rightarrow> string \<Rightarrow> string" where
  "trim_left_with ps s = (case strip_any ps s of None \<Rightarrow> s | Some t \<Rightarrow> trim_left_with ps t)"
  by pat_completeness auto
termination
  by (relation "measure (\<lambda>(ps, s). length s)") (auto dest: strip_any_shorter)

declare trim_left_with.simps [simp del]

definition trim_left :: "string \<Rightarrow> string" where
  "trim_left s = trim_left_with spaces s"

definition trim_right :: "string \<Rightarrow> string" where
  "trim_right s = rev (trim_left_with (map rev spaces) (rev s))"

definition TrimSpace :: "string \<Rightarrow> string" where
  "TrimSpace s = trim_right (trim_left s)"

lemma strip_any_NoneD: "strip_any ps s = None \<Longrightarrow> p \<in> set ps \<Longrightarrow> p \<noteq> [] \<Longrightarrow> take (length p) s \<noteq> p"
  by (induction ps) (auto split: if_splits)

lemma strip_any_NoneI:
  "(\<And>p. p \<in> set ps \<Longrightarrow> p \<noteq> [] \<Longrightarrow> take (length p) s \<noteq> p) \<Longrightarrow> strip_any ps s = None"
  by (induction ps) auto

lemma strip_any_Some_suffix: "strip_any ps s = Some t \<Longrightarrow> suffix t s"
  by (induction ps) (auto simp: suffix_drop split: if_splits)

lemma strip_any_prefix:
  assumes "strip_any ps s = None" and "prefix t s"
  shows "strip_any ps t = None"
proof (rule strip_any_NoneI)
  fix p assume p: "p \<in> set ps" "p \<noteq> []"
  show "take (length p) t \<noteq> p"
  proof
    assume eq: "take (length p) t = p"
    from assms(2) obtain u where u: "s = t @ u" by (auto elim: prefixE)
    from eq have "length p \<le> length t" by (metis length_take min.cobounded1)
    then have "take (length p) s = p" using eq u by simp
    with assms(1) p show False by (auto dest: strip_any_NoneD)
  qed
qed

lemma trim_left_with_stop: "strip_any ps (trim_left_with ps s) = None"
proof (induction ps s rule: trim_left_with.induct)
  case (1 ps s)
  then show ?case
    by (cases "strip_any ps s") (simp_all add: trim_left_with.simps [of ps s])
qed

lemma trim_left_with_fixed: "strip_any ps s = None \<Longrightarrow> trim_left_with ps s = s"
  by (simp add: trim_left_with.simps)

lemma trim_left_with_suffix: "suffix (trim_left_with ps s) s"
proof (induction ps s rule: trim_left_with.induct)
  case (1 ps s)
  show ?case
  proof (cases "strip_any ps s")
    case (Some t)
    with "1" have "suffix (trim_left_with ps t) t" by simp
    moreover from Some have "suffix t s" by (rule strip_any_Some_suffix)
    ultimately show ?thesis
      by (simp add: trim_left_with.simps [of ps s] Some suffix_order.trans)
  qed (simp add: trim_left_with.simps [of ps s])
qed

lemma trim_right_prefix: "prefix (trim_right s) s"
  using trim_left_with_suffix [of "map rev spaces" "rev s"]
  by (simp add: trim_right_def suffix_to_prefix)

lemma TrimSpace_idem [simp]: "TrimSpace (TrimSpace s) = TrimSpace s"
proof -
  let ?r = "TrimSpace s"
  have "strip_any spaces (trim_left s) = None"
    by (simp add: trim_left_def trim_left_with_stop)
  then have "strip_any spaces ?r = None"
    unfolding TrimSpace_def using trim_right_prefix by (rule strip_any_prefix)
  then have l: "trim_left ?r = ?r"
    by (simp add: trim_left_def trim_left_with_fixed)
  have "trim_right ?r = ?r"
    by (simp add: TrimSpace_def trim_right_def trim_left_with_fixed trim_left_with_stop)
  with l show ?thesis by (simp add: TrimSpace_def [of ?r])
qed

lemma TrimSpace_Nil [simp]: "TrimSpace [] = []"
  using trim_left_with_suffix [of spaces "[]"] trim_right_prefix [of "[]"]
  by (simp add: TrimSpace_def trim_left_def)

subsection \<open>UTF-8\<close>

text \<open>
  The decoder of \<^verbatim>\<open>unicode/utf8\<close>: how many bytes a leading byte announces (0 for a byte that
  cannot start a character), which second bytes it accepts (overlong forms, surrogates and
  values above U+10FFFF are excluded there), and the width of the first character of a string,
  1 for an invalid byte.
\<close>

definition lead_size :: "nat \<Rightarrow> nat" where
  "lead_size x =
     (if x < 0x80 then 1 else if x < 0xC2 then 0 else if x < 0xE0 then 2
      else if x < 0xF0 then 3 else if x < 0xF5 then 4 else 0)"

definition cont_byte :: "char \<Rightarrow> bool" where
  "cont_byte c = (let y = (of_char c :: nat) in 0x80 \<le> y \<and> y \<le> 0xBF)"

definition second_byte :: "nat \<Rightarrow> char \<Rightarrow> bool" where
  "second_byte x c =
     (let y = (of_char c :: nat);
          lo = (if x = 0xE0 then 0xA0 else if x = 0xF0 then 0x90 else 0x80);
          hi = (if x = 0xED then 0x9F else if x = 0xF4 then 0x8F else 0xBF)
      in lo \<le> y \<and> y \<le> hi)"

definition rune_valid :: "string \<Rightarrow> bool" where
  "rune_valid s =
     (case s of [] \<Rightarrow> False
      | c # _ \<Rightarrow>
         (let n = lead_size (of_char c)
          in n \<noteq> 0 \<and> n \<le> length s \<and>
             (2 \<le> n \<longrightarrow> second_byte (of_char c) (s ! 1)) \<and>
             (3 \<le> n \<longrightarrow> cont_byte (s ! 2)) \<and>
             (4 \<le> n \<longrightarrow> cont_byte (s ! 3))))"

definition rune_width :: "string \<Rightarrow> nat" where
  "rune_width s =
     (case s of [] \<Rightarrow> 0 | c # _ \<Rightarrow> if rune_valid s then lead_size (of_char c) else 1)"

lemma rune_width_pos: "s \<noteq> [] \<Longrightarrow> 0 < rune_width s"
  by (auto simp: rune_width_def rune_valid_def Let_def split: list.splits)

lemma rune_width_le: "rune_width s \<le> length s"
  by (auto simp: rune_width_def rune_valid_def Let_def split: list.splits)

lemma rune_width_shorter: "s \<noteq> [] \<Longrightarrow> length s - rune_width s < length s"
  using rune_width_pos [of s] by simp

text \<open>The characters of a string, each as its bytes: what \<^verbatim>\<open>for i := range s\<close> visits.\<close>

function runes :: "string \<Rightarrow> string list" where
  "runes s = (if s = [] then [] else take (rune_width s) s # runes (drop (rune_width s) s))"
  by pat_completeness auto
termination
  by (relation "measure length") (auto intro: rune_width_shorter)

declare runes.simps [simp del]

definition RuneCountInString :: "string \<Rightarrow> nat" where
  "RuneCountInString s = length (runes s)"

function ValidString :: "string \<Rightarrow> bool" where
  "ValidString s = (if s = [] then True else rune_valid s \<and> ValidString (drop (rune_width s) s))"
  by pat_completeness auto
termination
  by (relation "measure length") (auto intro: rune_width_shorter)

declare ValidString.simps [simp del]

lemma runes_Nil [simp]: "runes [] = []"
  by (simp add: runes.simps)

lemma ValidString_Nil [simp]: "ValidString []"
  by (simp add: ValidString.simps)

lemma concat_runes [simp]: "concat (runes s) = s"
proof (induction s rule: runes.induct)
  case (1 s)
  then show ?case by (cases "s = []") (simp_all add: runes.simps [of s])
qed

lemma runes_nonempty: "r \<in> set (runes s) \<Longrightarrow> r \<noteq> []"
proof (induction s rule: runes.induct)
  case (1 s)
  then show ?case
    using rune_width_pos [of s] by (cases "s = []") (auto simp: runes.simps [of s])
qed

text \<open>Decoding looks no further than the character it decodes.\<close>

lemma rune_valid_iff:
  "rune_valid s \<longleftrightarrow>
     s \<noteq> [] \<and> 0 < lead_size (of_char (s ! 0)) \<and> lead_size (of_char (s ! 0)) \<le> length s \<and>
     (2 \<le> lead_size (of_char (s ! 0)) \<longrightarrow> second_byte (of_char (s ! 0)) (s ! 1)) \<and>
     (3 \<le> lead_size (of_char (s ! 0)) \<longrightarrow> cont_byte (s ! 2)) \<and>
     (4 \<le> lead_size (of_char (s ! 0)) \<longrightarrow> cont_byte (s ! 3))"
  by (cases s) (auto simp: rune_valid_def Let_def)

lemma rune_valid_local:
  assumes "rune_width s \<le> length t" and "prefix t s" and "t \<noteq> []"
  shows "rune_valid t = rune_valid s"
proof -
  from assms(2) obtain u where s: "s = t @ u" by (auto elim: prefixE)
  have nth: "s ! i = t ! i" if "i < length t" for i
    using that s by (simp add: nth_append)
  have zero: "s ! 0 = t ! 0" using assms(3) nth by simp
  have le: "lead_size (of_char (s ! 0)) \<le> length t" if "rune_valid s"
    using that assms(1) by (cases s) (simp_all add: rune_width_def rune_valid_def)
  show ?thesis
  proof
    assume "rune_valid t"
    moreover have "length t \<le> length s" and "s \<noteq> []" using s assms(3) by simp_all
    ultimately show "rune_valid s"
      using zero by (simp add: rune_valid_iff nth)
  next
    assume "rune_valid s"
    moreover from this have "lead_size (of_char (t ! 0)) \<le> length t" using le zero by simp
    ultimately show "rune_valid t"
      using zero assms(3) by (simp add: rune_valid_iff nth)
  qed
qed

lemma rune_width_local:
  assumes "rune_width s \<le> length t" and "prefix t s"
  shows "rune_width t = rune_width s"
proof (cases "t = []")
  case True
  with assms(1) have "s = []" using rune_width_pos [of s] by fastforce
  with True show ?thesis by simp
next
  case False
  with assms have "rune_valid t = rune_valid s" by (intro rune_valid_local)
  moreover from False assms(2) obtain c cs u where "t = c # cs" "s = c # cs @ u"
    by (cases t) (auto elim: prefixE)
  ultimately show ?thesis by (simp add: rune_width_def)
qed

text \<open>The first \<open>n\<close> characters of a string, on their own, are still those characters.\<close>

lemma runes_take: "runes (concat (take n (runes s))) = take n (runes s)"
proof (induction s arbitrary: n rule: runes.induct)
  case (1 s)
  show ?case
  proof (cases "s = [] \<or> n = 0")
    case False
    then obtain m where m: "n = Suc m" by (cases n) auto
    let ?w = "rune_width s"
    let ?r = "concat (take m (runes (drop ?w s)))"
    let ?t = "take ?w s @ ?r"
    from False have s: "s \<noteq> []" by simp
    have split: "take ?w s @ drop ?w s = s" by simp
    have "prefix ?r (concat (runes (drop ?w s)))"
      by (metis append_take_drop_id concat_append prefixI)
    then have p: "prefix ?t s"
      using split by (metis concat_runes same_prefix_prefix)
    have l: "?w \<le> length ?t" using rune_width_le [of s] by simp
    then have w: "rune_width ?t = ?w" using p by (rule rune_width_local)
    have "?t \<noteq> []" using s rune_width_pos [of s] by auto
    then have "runes ?t = take ?w s # runes ?r"
      using w rune_width_le [of s] by (simp add: runes.simps [of ?t] min_absorb2)
    then show ?thesis
      using "1.IH" [of m] s m by (simp add: runes.simps [of s])
  qed auto
qed

lemma ValidString_take: "ValidString s \<Longrightarrow> ValidString (concat (take n (runes s)))"
proof (induction s arbitrary: n rule: runes.induct)
  case (1 s)
  show ?case
  proof (cases "s = [] \<or> n = 0")
    case False
    then obtain m where m: "n = Suc m" by (cases n) auto
    let ?w = "rune_width s"
    let ?r = "concat (take m (runes (drop ?w s)))"
    let ?t = "take ?w s @ ?r"
    from False have s: "s \<noteq> []" by simp
    with "1.prems" have v: "rune_valid s" "ValidString (drop ?w s)"
      by (simp_all add: ValidString.simps [of s])
    have split: "take ?w s @ drop ?w s = s" by simp
    have "prefix ?r (concat (runes (drop ?w s)))"
      by (metis append_take_drop_id concat_append prefixI)
    then have p: "prefix ?t s"
      using split by (metis concat_runes same_prefix_prefix)
    have l: "?w \<le> length ?t" using rune_width_le [of s] by simp
    have t: "?t \<noteq> []" using s rune_width_pos [of s] by auto
    have "rune_valid ?t" using rune_valid_local [OF l p t] v(1) by simp
    moreover have "rune_width ?t = ?w" using l p by (rule rune_width_local)
    moreover have "ValidString ?r" using "1.IH" [OF s v(2)] .
    ultimately have "ValidString ?t"
      using rune_width_le [of s] by (simp add: ValidString.simps [of ?t] min_absorb2)
    then show ?thesis using s m by (simp add: runes.simps [of s])
  qed auto
qed

subsection \<open>Lower case\<close>

definition ascii_lower :: "char \<Rightarrow> char" where
  "ascii_lower c = (let n = (of_char c :: nat) in if 65 \<le> n \<and> n \<le> 90 then char_of (n + 32) else c)"

definition is_ascii :: "string \<Rightarrow> bool" where
  "is_ascii s = list_all (\<lambda>c. (of_char c :: nat) < 128) s"

text \<open>The Unicode case table, on the UTF-8 encoding of one character above U+007F.\<close>

type_synonym unicode_lower = "string \<Rightarrow> string"

definition lower_rune :: "unicode_lower \<Rightarrow> string \<Rightarrow> string" where
  "lower_rune ul r =
     (case r of
        [c] \<Rightarrow> if (of_char c :: nat) < 128 then [ascii_lower c] else [CHR 0xEF, CHR 0xBF, CHR 0xBD]
      | _ \<Rightarrow> ul r)"

definition ToLower :: "unicode_lower \<Rightarrow> string \<Rightarrow> string" where
  "ToLower ul s = (if is_ascii s then map ascii_lower s else concat (map (lower_rune ul) (runes s)))"

lemma ToLower_Nil [simp]: "ToLower ul [] = []"
  by (simp add: ToLower_def is_ascii_def)

text \<open>
  Lower-casing moves no asterisk: the case tables have no entry that produces one, and the
  asterisk itself has no lower-case form.
\<close>

definition star_free :: "unicode_lower \<Rightarrow> bool" where
  "star_free ul = (\<forall>r. CHR ''*'' \<notin> set (ul r))"

lemma ascii_lower_star: "ascii_lower c = CHR ''*'' \<longleftrightarrow> c = CHR ''*''"
proof
  assume a: "ascii_lower c = CHR ''*''"
  show "c = CHR ''*''"
  proof (cases "65 \<le> (of_char c :: nat) \<and> (of_char c :: nat) \<le> 90")
    case True
    then have "char_of ((of_char c :: nat) + 32) = CHR ''*''"
      using a by (simp add: ascii_lower_def Let_def)
    then have "(of_char (char_of ((of_char c :: nat) + 32) :: char) :: nat) = 42" by simp
    with True show ?thesis by (simp add: of_char_of)
  next
    case False
    with a show ?thesis by (auto simp: ascii_lower_def Let_def)
  qed
qed (simp add: ascii_lower_def)

lemma ascii_lower_star_sym: "CHR ''*'' = ascii_lower c \<longleftrightarrow> c = CHR ''*''"
  using ascii_lower_star by (metis eq_commute)

lemma lower_rune_star:
  assumes "star_free ul" and "CHR ''*'' \<in> set (lower_rune ul r)"
  shows "r = ''*'' \<and> lower_rune ul r = ''*''"
proof -
  have "r = [c] \<and> lower_rune ul r = [ascii_lower c]" if "r = [c]" for c
    using assms that by (auto simp: lower_rune_def split: if_splits)
  moreover have "\<exists>c. r = [c]"
    using assms by (auto simp: lower_rune_def star_free_def split: list.splits)
  ultimately obtain c where "r = [c]" and l: "lower_rune ul r = [ascii_lower c]" by blast
  with assms(2) have "c = CHR ''*''" by (simp add: ascii_lower_star_sym)
  with \<open>r = [c]\<close> l show ?thesis by (simp add: ascii_lower_star)
qed

lemma butlast_concat_star:
  assumes "star_free ul" and "\<And>r. r \<in> set rs \<Longrightarrow> r \<noteq> []" and "CHR ''*'' \<notin> set (butlast (concat rs))"
  shows "CHR ''*'' \<notin> set (butlast (concat (map (lower_rune ul) rs)))"
proof (cases rs rule: rev_cases)
  case (snoc ys y)
  let ?f = "lower_rune ul"
  from assms(2) snoc have "y \<noteq> []" by simp
  then have "butlast (concat rs) = concat ys @ butlast y"
    by (simp add: snoc butlast_append)
  with assms(3) have early: "CHR ''*'' \<notin> set r" if "r \<in> set ys" for r
    using that by auto
  have "CHR ''*'' \<notin> set (concat (map ?f ys))"
    using early lower_rune_star [OF assms(1)] by fastforce
  moreover have "CHR ''*'' \<notin> set (butlast (?f y))"
    using lower_rune_star [OF assms(1), of y] by (metis butlast.simps(2) empty_iff empty_set in_set_butlastD)
  ultimately show ?thesis
    by (auto simp: snoc butlast_append dest: in_set_butlastD)
qed simp

lemma ToLower_star:
  assumes "star_free ul" and "CHR ''*'' \<notin> set (butlast s)"
  shows "CHR ''*'' \<notin> set (butlast (ToLower ul s))"
proof (cases "is_ascii s")
  case True
  then show ?thesis
    using assms(2) by (simp add: ToLower_def map_butlast [symmetric] image_iff ascii_lower_star_sym)
next
  case False
  have "CHR ''*'' \<notin> set (butlast (concat (map (lower_rune ul) (runes s))))"
    using assms by (intro butlast_concat_star) (auto dest: runes_nonempty)
  with False show ?thesis by (simp add: ToLower_def)
qed

text \<open>An ASCII byte is a character of its own wherever it stands, so strings can be lower-cased around it.\<close>

lemma runes_ascii: "is_ascii s \<Longrightarrow> runes s = map (\<lambda>c. [c]) s"
proof (induction s)
  case (Cons c s)
  then have c: "(of_char c :: nat) < 128" "is_ascii s" by (simp_all add: is_ascii_def)
  then have "rune_width (c # s) = 1" by (simp add: rune_width_def rune_valid_def lead_size_def Let_def)
  with Cons c show ?case by (subst runes.simps) simp
qed (simp add: runes.simps)

lemma ToLower_runes: "ToLower ul s = concat (map (lower_rune ul) (runes s))"
proof (cases "is_ascii s")
  case True
  then have "map (lower_rune ul) (runes s) = map (\<lambda>c. [ascii_lower c]) s"
    by (auto simp: runes_ascii lower_rune_def is_ascii_def list_all_iff)
  with True show ?thesis by (simp add: ToLower_def)
qed (simp add: ToLower_def)

lemma rune_valid_boundary:
  assumes "(of_char c :: nat) < 128" "s \<noteq> []"
  shows "rune_valid (s @ c # t) = rune_valid s"
proof
  assume "rune_valid s"
  then show "rune_valid (s @ c # t)" by (auto simp: rune_valid_iff nth_append)
next
  let ?n = "lead_size (of_char (s ! 0))"
  assume v: "rune_valid (s @ c # t)"
  have no: "\<not> cont_byte c" "\<not> second_byte x c" for x using assms(1) by (auto simp: cont_byte_def second_byte_def Let_def split: if_splits)
  have l: "?n \<le> length s"
  proof (rule ccontr)
    assume "\<not> ?n \<le> length s"
    moreover have "?n \<le> 4" by (simp add: lead_size_def)
    moreover have "0 < length s" using assms(2) by simp
    ultimately have "length s = 1 \<and> 2 \<le> ?n \<or> length s = 2 \<and> 3 \<le> ?n \<or> length s = 3 \<and> 4 \<le> ?n" by linarith
    then show False using v no assms(2) by (auto simp: rune_valid_iff nth_append)
  qed
  then show "rune_valid s" using v assms(2) by (auto simp: rune_valid_iff nth_append)
qed

lemma rune_width_boundary: "(of_char c :: nat) < 128 \<Longrightarrow> s \<noteq> [] \<Longrightarrow> rune_width (s @ c # t) = rune_width s"
  using rune_valid_boundary [of c s t] by (cases s) (auto simp: rune_width_def)

lemma runes_ascii_Cons: "(of_char c :: nat) < 128 \<Longrightarrow> runes (c # t) = [c] # runes t"
  by (subst runes.simps) (simp add: rune_width_def rune_valid_def lead_size_def Let_def)

lemma runes_boundary: "(of_char c :: nat) < 128 \<Longrightarrow> runes (s @ c # t) = runes s @ [c] # runes t"
proof (induction s rule: runes.induct)
  case (1 s)
  show ?case
  proof (cases "s = []")
    case False
    then show ?thesis
      using 1 rune_width_boundary [OF 1(2) False, of t] rune_width_le [of s]
      by (subst runes.simps, subst (2) runes.simps) auto
  qed (simp add: runes_ascii_Cons 1)
qed

lemma ToLower_boundary: "(of_char c :: nat) < 128 \<Longrightarrow> ToLower ul (s @ c # t) = ToLower ul s @ ascii_lower c # ToLower ul t"
  by (simp add: ToLower_runes runes_boundary lower_rune_def)

lemma ToLower_ascii_Cons: "(of_char c :: nat) < 128 \<Longrightarrow> ToLower ul (c # t) = ascii_lower c # ToLower ul t"
  using ToLower_boundary [of c ul "[]" t] by simp

lemma runes_bytes: "r \<in> set (runes s) \<Longrightarrow> set r \<subseteq> set s"
  by (metis UN_upper concat_runes set_concat)

subsection \<open>Searching\<close>

fun IndexByte :: "string \<Rightarrow> char \<Rightarrow> nat option" where
  "IndexByte [] c = None"
| "IndexByte (x # xs) c = (if x = c then Some 0 else map_option Suc (IndexByte xs c))"

definition HasPrefix :: "string \<Rightarrow> string \<Rightarrow> bool" where
  "HasPrefix s p = (take (length p) s = p)"

lemma HasPrefix_Nil [simp]: "HasPrefix s []"
  by (simp add: HasPrefix_def)

lemma HasPrefix_iff_prefix: "HasPrefix s p \<longleftrightarrow> prefix p s"
  by (metis HasPrefix_def append_eq_conv_conj append_take_drop_id prefixE prefixI)

lemma IndexByte_None_iff: "IndexByte s c = None \<longleftrightarrow> c \<notin> set s"
  by (induction s) auto

lemma IndexByte_SomeD: "IndexByte s c = Some i \<Longrightarrow> i < length s \<and> s ! i = c \<and> c \<notin> set (take i s)"
proof (induction s arbitrary: i)
  case (Cons x s)
  then show ?case by (cases i) (auto split: if_splits)
qed simp

lemma IndexByte_last_iff:
  "(case IndexByte s c of None \<Rightarrow> True | Some i \<Rightarrow> i = length s - 1) \<longleftrightarrow> c \<notin> set (butlast s)"
proof (induction s)
  case (Cons x s)
  show ?case
  proof (cases "IndexByte s c")
    case None
    moreover from this have "c \<notin> set (butlast s)" by (auto simp: IndexByte_None_iff dest: in_set_butlastD)
    ultimately show ?thesis by simp
  next
    case (Some i)
    then have "s \<noteq> []" and "i < length s" by (auto dest: IndexByte_SomeD)
    with Cons.IH Some show ?thesis by auto
  qed
qed simp

subsection \<open>Escaping a path segment\<close>

definition unreserved :: "char \<Rightarrow> bool" where
  "unreserved c =
     (let n = (of_char c :: nat) in
      (97 \<le> n \<and> n \<le> 122) \<or> (65 \<le> n \<and> n \<le> 90) \<or> (48 \<le> n \<and> n \<le> 57) \<or> c \<in> set ''-_.~'')"

definition segment_safe :: "char \<Rightarrow> bool" where
  "segment_safe c = (unreserved c \<or> c \<in> set ''$&+:=@'')"

definition upperhex :: "nat \<Rightarrow> char" where
  "upperhex n = ''0123456789ABCDEF'' ! (n mod 16)"

definition PathEscape :: "string \<Rightarrow> string" where
  "PathEscape s =
     concat (map (\<lambda>c. if segment_safe c then [c]
                      else let n = (of_char c :: nat) in [CHR ''%'', upperhex (n div 16), upperhex n]) s)"

lemma PathEscape_safe: "\<forall>c \<in> set s. segment_safe c \<Longrightarrow> PathEscape s = s"
  by (induction s) (auto simp: PathEscape_def)

end
