(* ===== verification/Go_JSON.thy ===== *)
theory Go_JSON
  imports Go_Text
begin

text \<open>
  \<^verbatim>\<open>json.Valid\<close>, which event ingestion calls on the payload: the byte-by-byte scanner of Go's
  \<^verbatim>\<open>encoding/json\<close> with its stack of open objects and arrays and its nesting limit of 10000.
\<close>

datatype parse_state = ParseObjectKey | ParseObjectValue | ParseArrayValue

datatype scan_step =
    BeginValue | BeginValueOrEmpty | BeginString | BeginStringOrEmpty | EndValue | EndTop
  | InString | InStringEsc | InStringEscU | InStringEscU1 | InStringEscU12 | InStringEscU123
  | SNeg | S1 | S0 | SDot | SDot0 | SE | SESign | SE0
  | ST | STr | STru | SF | SFa | SFal | SFals | SN | SNu | SNul

record scanner =
  sc_step :: scan_step
  sc_stack :: "parse_state list"
  sc_end_top :: bool

definition maxNestingDepth :: nat where "maxNestingDepth = 10000"

definition json_space :: "char \<Rightarrow> bool" where
  "json_space c = (c = CHR 0x20 \<or> c = CHR 0x09 \<or> c = CHR 0x0D \<or> c = CHR 0x0A)"

definition digit :: "char \<Rightarrow> bool" where
  "digit c = (let n = (of_char c :: nat) in 48 \<le> n \<and> n \<le> 57)"

definition hex_digit :: "char \<Rightarrow> bool" where
  "hex_digit c = (let n = (of_char c :: nat)
     in (48 \<le> n \<and> n \<le> 57) \<or> (97 \<le> n \<and> n \<le> 102) \<or> (65 \<le> n \<and> n \<le> 70))"

definition goto_step :: "scanner \<Rightarrow> scan_step \<Rightarrow> scanner option" where
  "goto_step s st = Some (s\<lparr>sc_step := st\<rparr>)"

definition push_state :: "scanner \<Rightarrow> parse_state \<Rightarrow> scan_step \<Rightarrow> scanner option" where
  "push_state s p st =
     (if Suc (length (sc_stack s)) \<le> maxNestingDepth
      then Some (s\<lparr>sc_stack := p # sc_stack s, sc_step := st\<rparr>) else None)"

definition pop_state :: "scanner \<Rightarrow> scanner option" where
  "pop_state s =
     (let rest = tl (sc_stack s)
      in if rest = [] then Some (s\<lparr>sc_stack := rest, sc_step := EndTop, sc_end_top := True\<rparr>)
         else Some (s\<lparr>sc_stack := rest, sc_step := EndValue\<rparr>))"

definition end_top :: "scanner \<Rightarrow> char \<Rightarrow> scanner option" where
  "end_top s c = (if json_space c then Some s else None)"

definition end_value :: "scanner \<Rightarrow> char \<Rightarrow> scanner option" where
  "end_value s c =
     (case sc_stack s of
        [] \<Rightarrow> end_top (s\<lparr>sc_step := EndTop, sc_end_top := True\<rparr>) c
      | p # rest \<Rightarrow>
          if json_space c then goto_step s EndValue
          else (case p of
             ParseObjectKey \<Rightarrow>
               if c = CHR '':'' then Some (s\<lparr>sc_stack := ParseObjectValue # rest, sc_step := BeginValue\<rparr>)
               else None
           | ParseObjectValue \<Rightarrow>
               if c = CHR '','' then Some (s\<lparr>sc_stack := ParseObjectKey # rest, sc_step := BeginString\<rparr>)
               else if c = CHR ''}'' then pop_state s else None
           | ParseArrayValue \<Rightarrow>
               if c = CHR '','' then goto_step s BeginValue
               else if c = CHR '']'' then pop_state s else None))"

definition begin_value :: "scanner \<Rightarrow> char \<Rightarrow> scanner option" where
  "begin_value s c =
     (if json_space c then Some s
      else if c = CHR ''{'' then push_state s ParseObjectKey BeginStringOrEmpty
      else if c = CHR ''['' then push_state s ParseArrayValue BeginValueOrEmpty
      else if c = CHR 0x22 then goto_step s InString
      else if c = CHR ''-'' then goto_step s SNeg
      else if c = CHR ''0'' then goto_step s S0
      else if c = CHR ''t'' then goto_step s ST
      else if c = CHR ''f'' then goto_step s SF
      else if c = CHR ''n'' then goto_step s SN
      else if digit c then goto_step s S1
      else None)"

definition begin_string :: "scanner \<Rightarrow> char \<Rightarrow> scanner option" where
  "begin_string s c =
     (if json_space c then Some s else if c = CHR 0x22 then goto_step s InString else None)"

definition expect :: "scanner \<Rightarrow> bool \<Rightarrow> scan_step \<Rightarrow> scanner option" where
  "expect s ok st = (if ok then goto_step s st else None)"

definition after_int :: "scanner \<Rightarrow> char \<Rightarrow> scanner option" where
  "after_int s c =
     (if c = CHR ''.'' then goto_step s SDot
      else if c = CHR ''e'' \<or> c = CHR ''E'' then goto_step s SE else end_value s c)"

definition json_step :: "scanner \<Rightarrow> char \<Rightarrow> scanner option" where
  "json_step s c =
     (case sc_step s of
        BeginValue \<Rightarrow> begin_value s c
      | BeginValueOrEmpty \<Rightarrow>
          if json_space c then Some s else if c = CHR '']'' then end_value s c else begin_value s c
      | BeginString \<Rightarrow> begin_string s c
      | BeginStringOrEmpty \<Rightarrow>
          if json_space c then Some s
          else if c = CHR ''}'' then end_value (s\<lparr>sc_stack := ParseObjectValue # tl (sc_stack s)\<rparr>) c
          else begin_string s c
      | EndValue \<Rightarrow> end_value s c
      | EndTop \<Rightarrow> end_top s c
      | InString \<Rightarrow>
          if c = CHR 0x22 then goto_step s EndValue
          else if c = CHR 0x5C then goto_step s InStringEsc
          else if (of_char c :: nat) < 32 then None else Some s
      | InStringEsc \<Rightarrow>
          if c \<in> set [CHR ''b'', CHR ''f'', CHR ''n'', CHR ''r'', CHR ''t'', CHR 0x5C, CHR ''/'', CHR 0x22]
          then goto_step s InString
          else if c = CHR ''u'' then goto_step s InStringEscU else None
      | InStringEscU \<Rightarrow> expect s (hex_digit c) InStringEscU1
      | InStringEscU1 \<Rightarrow> expect s (hex_digit c) InStringEscU12
      | InStringEscU12 \<Rightarrow> expect s (hex_digit c) InStringEscU123
      | InStringEscU123 \<Rightarrow> expect s (hex_digit c) InString
      | SNeg \<Rightarrow> if c = CHR ''0'' then goto_step s S0 else expect s (digit c) S1
      | S1 \<Rightarrow> if digit c then Some s else after_int s c
      | S0 \<Rightarrow> after_int s c
      | SDot \<Rightarrow> expect s (digit c) SDot0
      | SDot0 \<Rightarrow>
          if digit c then Some s
          else if c = CHR ''e'' \<or> c = CHR ''E'' then goto_step s SE else end_value s c
      | SE \<Rightarrow> if c = CHR ''+'' \<or> c = CHR ''-'' then goto_step s SESign else expect s (digit c) SE0
      | SESign \<Rightarrow> expect s (digit c) SE0
      | SE0 \<Rightarrow> if digit c then Some s else end_value s c
      | ST \<Rightarrow> expect s (c = CHR ''r'') STr
      | STr \<Rightarrow> expect s (c = CHR ''u'') STru
      | STru \<Rightarrow> expect s (c = CHR ''e'') EndValue
      | SF \<Rightarrow> expect s (c = CHR ''a'') SFa
      | SFa \<Rightarrow> expect s (c = CHR ''l'') SFal
      | SFal \<Rightarrow> expect s (c = CHR ''s'') SFals
      | SFals \<Rightarrow> expect s (c = CHR ''e'') EndValue
      | SN \<Rightarrow> expect s (c = CHR ''u'') SNu
      | SNu \<Rightarrow> expect s (c = CHR ''l'') SNul
      | SNul \<Rightarrow> expect s (c = CHR ''l'') EndValue)"

fun json_scan :: "scanner \<Rightarrow> string \<Rightarrow> scanner option" where
  "json_scan s [] = Some s"
| "json_scan s (c # cs) = (case json_step s c of None \<Rightarrow> None | Some s' \<Rightarrow> json_scan s' cs)"

definition json_eof :: "scanner \<Rightarrow> bool" where
  "json_eof s = (sc_end_top s \<or>
     (case json_step s (CHR 0x20) of None \<Rightarrow> False | Some s' \<Rightarrow> sc_end_top s'))"

definition json_Valid :: "string \<Rightarrow> bool" where
  "json_Valid data =
     (case json_scan \<lparr>sc_step = BeginValue, sc_stack = [], sc_end_top = False\<rparr> data of
        None \<Rightarrow> False | Some s \<Rightarrow> json_eof s)"

lemma json_Valid_empty_object: "json_Valid ''{}''"
  by code_simp

lemma json_Valid_not_empty: "\<not> json_Valid []"
  by code_simp

lemma json_Valid_nested: "json_Valid ''{\"a\": [1, -2.5e3, true, null, \"x\"]}''"
  by code_simp

lemma json_Valid_trailing_comma: "\<not> json_Valid ''[1,]''"
  by code_simp

end
