(* ===== verification/Domain.thy ===== *)
theory Domain
  imports Go_Text
begin

text \<open>
  \<^verbatim>\<open>internal/domain\<close>: the vocabulary of AlertLoop. A Go type such as
  \<^verbatim>\<open>type EventState string\<close> with a block of constants is a datatype with one constructor per
  constant and one for every other string, so that a value the constants do not name stays
  representable and is refused where the code refuses it.

  The theorems: which transitions \<open>ApplyAction\<close> allows (\<open>resolved\<close> is terminal), that the
  conversions between the strings of a request and these values lose nothing, and that
  \<open>TruncateRunes\<close> cuts at a character boundary.
\<close>

subsection \<open>Errors\<close>

text \<open>
  The sentinel errors of \<^verbatim>\<open>errors.go\<close> and the ones the other packages add. A wrapped error
  carries its text; \<^verbatim>\<open>errors.Is\<close> looks at the constructor only. \<open>ErrNoRows\<close>,
  \<open>ErrUniqueViolation\<close> and \<open>ErrForeignKey\<close> are what the database itself answers, \<open>ErrRand\<close> what the random source does.
\<close>

datatype err =
    ErrNotFound
  | ErrInvalidTransition string
  | ErrInvalidAction string
  | ErrValidation string
  | ErrNotReplayable
  | ErrSourceNotAllowed string
  | ErrStateChanged
  | ErrLoginTaken
  | ErrUsersExist
  | ErrInvalid string
  | ErrNoRows
  | ErrUniqueViolation
  | ErrForeignKey
  | ErrRand

type_synonym 'a result = "err + 'a"

subsection \<open>Channels and deliveries\<close>

datatype ChannelType =
    ChannelEmail | ChannelTelegram | ChannelWebhook | ChannelSlack | ChannelTeams
  | ChannelDiscord | ChannelNtfy | ChannelPushover | ChannelTypeOther string

definition ValidChannelType :: "ChannelType \<Rightarrow> bool" where
  "ValidChannelType t =
     (case t of
        ChannelEmail \<Rightarrow> True | ChannelTelegram \<Rightarrow> True | ChannelWebhook \<Rightarrow> True
      | ChannelSlack \<Rightarrow> True | ChannelTeams \<Rightarrow> True | ChannelDiscord \<Rightarrow> True
      | ChannelNtfy \<Rightarrow> True | ChannelPushover \<Rightarrow> True
      | ChannelTypeOther _ \<Rightarrow> False)"

datatype DeliveryState =
    DeliveryPending | DeliverySending | DeliverySent | DeliveryFailed | DeliveryDeadLetter
  | DeliveryCancelled | DeliveryStateOther string

definition ValidDeliveryState :: "DeliveryState \<Rightarrow> bool" where
  "ValidDeliveryState s =
     (case s of
        DeliveryPending \<Rightarrow> True | DeliverySending \<Rightarrow> True | DeliverySent \<Rightarrow> True
      | DeliveryFailed \<Rightarrow> True | DeliveryDeadLetter \<Rightarrow> True | DeliveryCancelled \<Rightarrow> True
      | DeliveryStateOther _ \<Rightarrow> False)"

datatype DeliveryKind = KindAlert | KindRecovery | KindOther string

definition OrAlert :: "DeliveryKind \<Rightarrow> DeliveryKind" where
  "OrAlert k = (if k = KindOther [] then KindAlert else k)"

definition ValidDeliveryKind :: "DeliveryKind \<Rightarrow> bool" where
  "ValidDeliveryKind k =
     (case k of KindAlert \<Rightarrow> True | KindRecovery \<Rightarrow> True | KindOther _ \<Rightarrow> False)"

definition DefaultChannelTimeout :: duration where
  "DefaultChannelTimeout = 10 * Second"

definition DefaultMaxAttempts :: int where
  "DefaultMaxAttempts = 5"

record AttemptLink =
  al_id :: string
  al_channel_name :: string
  al_state :: DeliveryState

record DeliveryAttempt =
  da_id :: string
  da_event_id :: string
  da_channel :: ChannelType
  da_channel_name :: string
  da_kind :: DeliveryKind
  da_state :: DeliveryState
  da_attempts :: int
  da_max_attempts :: int
  da_next_retry_at :: "time option"
  da_last_error :: string
  da_created_at :: time
  da_updated_at :: time
  da_fallback_of :: "AttemptLink option"
  da_fallback_to :: "AttemptLink option"
  da_recovery_for :: "AttemptLink option"

definition IsFallback :: "DeliveryAttempt \<Rightarrow> bool" where
  "IsFallback d = (da_fallback_of d \<noteq> None)"

record ChannelTarget =
  ct_type :: ChannelType
  ct_name :: string

subsection \<open>Events\<close>

datatype EventType = EventIncident | EventBusiness | EventAudit | EventTypeOther string

definition ValidEventType :: "EventType \<Rightarrow> bool" where
  "ValidEventType t =
     (case t of EventIncident \<Rightarrow> True | EventBusiness \<Rightarrow> True | EventAudit \<Rightarrow> True
      | EventTypeOther _ \<Rightarrow> False)"

definition EventType_of :: "string \<Rightarrow> EventType" where
  "EventType_of s =
     (if s = ''incident'' then EventIncident
      else if s = ''business_event'' then EventBusiness
      else if s = ''audit'' then EventAudit else EventTypeOther s)"

fun EventType_str :: "EventType \<Rightarrow> string" where
  "EventType_str EventIncident = ''incident''"
| "EventType_str EventBusiness = ''business_event''"
| "EventType_str EventAudit = ''audit''"
| "EventType_str (EventTypeOther s) = s"

datatype Severity =
    SeverityInfo | SeveritySuccess | SeverityWarning | SeverityError | SeverityCritical
  | SeverityOther string

definition Severity_of :: "string \<Rightarrow> Severity" where
  "Severity_of s =
     (if s = ''info'' then SeverityInfo else if s = ''success'' then SeveritySuccess
      else if s = ''warning'' then SeverityWarning else if s = ''error'' then SeverityError
      else if s = ''critical'' then SeverityCritical else SeverityOther s)"

fun Severity_str :: "Severity \<Rightarrow> string" where
  "Severity_str SeverityInfo = ''info''"
| "Severity_str SeveritySuccess = ''success''"
| "Severity_str SeverityWarning = ''warning''"
| "Severity_str SeverityError = ''error''"
| "Severity_str SeverityCritical = ''critical''"
| "Severity_str (SeverityOther s) = s"

fun severityRanks :: "Severity \<Rightarrow> int option" where
  "severityRanks SeverityInfo = Some 10"
| "severityRanks SeveritySuccess = Some 10"
| "severityRanks SeverityWarning = Some 20"
| "severityRanks SeverityError = Some 30"
| "severityRanks SeverityCritical = Some 40"
| "severityRanks (SeverityOther _) = None"

definition ValidSeverity :: "Severity \<Rightarrow> bool" where
  "ValidSeverity s = (severityRanks s \<noteq> None)"

definition SeverityRank :: "Severity \<Rightarrow> int" where
  "SeverityRank s = (case severityRanks s of None \<Rightarrow> 0 | Some r \<Rightarrow> r)"

datatype IngestStatus = StatusFiring | StatusResolved | StatusOther string

definition ValidIngestStatus :: "IngestStatus \<Rightarrow> bool" where
  "ValidIngestStatus s =
     (case s of StatusFiring \<Rightarrow> True | StatusResolved \<Rightarrow> True | StatusOther _ \<Rightarrow> False)"

datatype EventState =
    StateNew | StateAcknowledged | StateResolved | StateMuted | StateEscalated
  | EventStateOther string

definition ValidEventState :: "EventState \<Rightarrow> bool" where
  "ValidEventState s =
     (case s of StateNew \<Rightarrow> True | StateAcknowledged \<Rightarrow> True | StateResolved \<Rightarrow> True
      | StateMuted \<Rightarrow> True | StateEscalated \<Rightarrow> True | EventStateOther _ \<Rightarrow> False)"

record Event =
  ev_id :: string
  ev_type :: EventType
  ev_severity :: Severity
  ev_state :: EventState
  ev_source :: string
  ev_category :: string
  ev_message :: string
  ev_entity_type :: string
  ev_entity_id :: string
  ev_trace_id :: string
  ev_dedupe_key :: string
  ev_payload :: string
  ev_created_at :: time
  ev_updated_at :: time
  ev_last_seen_at :: time
  ev_resolved_at :: "time option"

definition MaxPayloadBytes :: nat where
  "MaxPayloadBytes = 256 * 1024"

subsection \<open>Manual actions\<close>

datatype EventAction =
    ActionAck | ActionResolve | ActionMute | ActionUnmute | ActionEscalate
  | EventActionOther string

fun ApplyAction :: "EventState \<Rightarrow> EventAction \<Rightarrow> EventState result" where
  "ApplyAction current ActionAck =
     (if current = StateResolved
      then Inl (ErrInvalidTransition ''cannot acknowledge a resolved event'')
      else Inr StateAcknowledged)"
| "ApplyAction current ActionResolve =
     (if current = StateResolved
      then Inl (ErrInvalidTransition ''event is already resolved'')
      else Inr StateResolved)"
| "ApplyAction current ActionMute =
     (if current = StateResolved
      then Inl (ErrInvalidTransition ''cannot mute a resolved event'')
      else Inr StateMuted)"
| "ApplyAction current ActionUnmute =
     (if current \<noteq> StateMuted
      then Inl (ErrInvalidTransition ''event is not muted'')
      else Inr StateNew)"
| "ApplyAction current ActionEscalate =
     (if current = StateResolved
      then Inl (ErrInvalidTransition ''cannot escalate a resolved event'')
      else Inr StateEscalated)"
| "ApplyAction current (EventActionOther a) =
     Inl (ErrInvalidAction (''unknown action '' @ a))"

definition CheckActionAllowed :: "EventType \<Rightarrow> unit result" where
  "CheckActionAllowed t =
     (if t \<noteq> EventIncident
      then Inl (ErrInvalidTransition (''actions apply to incidents only, this event is '' @ EventType_str t))
      else Inr ())"

definition ParseAction :: "string \<Rightarrow> EventAction option" where
  "ParseAction s =
     (if s = ''ack'' then Some ActionAck
      else if s = ''resolve'' then Some ActionResolve
      else if s = ''mute'' then Some ActionMute
      else if s = ''unmute'' then Some ActionUnmute
      else if s = ''escalate'' then Some ActionEscalate
      else None)"

subsection \<open>Notifications\<close>

record FallbackOrigin =
  fo_channel :: string
  fo_error :: string
  fo_attempt :: string

record Notification =
  nt_event :: Event
  nt_kind :: DeliveryKind
  nt_fallback :: "FallbackOrigin option"
  nt_event_url :: string

definition Alert :: "Event \<Rightarrow> Notification" where
  "Alert e = \<lparr>nt_event = e, nt_kind = KindAlert, nt_fallback = None, nt_event_url = []\<rparr>"

definition Recovery :: "Event \<Rightarrow> Notification" where
  "Recovery e = \<lparr>nt_event = e, nt_kind = KindRecovery, nt_fallback = None, nt_event_url = []\<rparr>"

definition IsRecovery :: "Notification \<Rightarrow> bool" where
  "IsRecovery n = (nt_kind n = KindRecovery)"

subsection \<open>Cutting text\<close>

text \<open>
  The loop \<^verbatim>\<open>for i := range s\<close> of \<open>TruncateRunes\<close>: \<open>i\<close> is the byte offset of the character at
  hand and \<open>rest\<close> the string from there on. \<open>None\<close> is falling off the end of the loop.
\<close>

function truncate_loop :: "int \<Rightarrow> int \<Rightarrow> nat \<Rightarrow> string \<Rightarrow> nat option" where
  "truncate_loop n count i rest =
     (if rest = [] then None
      else if count = n then Some i
      else truncate_loop n (count + 1) (i + rune_width rest) (drop (rune_width rest) rest))"
  by pat_completeness auto
termination
  by (relation "measure (\<lambda>(n, count, i, rest). length rest)") (auto intro: rune_width_shorter)

declare truncate_loop.simps [simp del]

definition TruncateRunes :: "string \<Rightarrow> int \<Rightarrow> string" where
  "TruncateRunes s n =
     (if n \<le> 0 then []
      else if int (RuneCountInString s) \<le> n then s
      else (case truncate_loop n 0 0 s of Some i \<Rightarrow> take i s | None \<Rightarrow> s))"

definition MaxLastErrorRunes :: int where
  "MaxLastErrorRunes = 1000"

definition MaxHeaderRunes :: int where
  "MaxHeaderRunes = 200"

subsection \<open>Lemmas\<close>

lemma OrAlert_alert_iff: "OrAlert k = KindAlert \<longleftrightarrow> k = KindAlert \<or> k = KindOther []"
  by (simp add: OrAlert_def)

lemma OrAlert_simps [simp]:
  "OrAlert KindAlert = KindAlert" "OrAlert KindRecovery = KindRecovery"
  "OrAlert (OrAlert k) = OrAlert k"
  by (simp_all add: OrAlert_def)

lemma EventType_str_of [simp]: "EventType_str (EventType_of s) = s"
  by (simp add: EventType_of_def)

lemma Severity_str_of [simp]: "Severity_str (Severity_of s) = s"
  by (simp add: Severity_of_def)

lemma EventType_of_str: "ValidEventType t \<Longrightarrow> EventType_of (EventType_str t) = t"
  by (cases t) (auto simp: ValidEventType_def EventType_of_def)

lemma Severity_of_str: "ValidSeverity s \<Longrightarrow> Severity_of (Severity_str s) = s"
  by (cases s) (auto simp: ValidSeverity_def Severity_of_def)

lemma SeverityRank_pos_iff: "0 < SeverityRank s \<longleftrightarrow> ValidSeverity s"
  by (cases s) (auto simp: SeverityRank_def ValidSeverity_def)

lemma SeverityRank_zero_iff: "SeverityRank s = 0 \<longleftrightarrow> \<not> ValidSeverity s"
  by (cases s) (auto simp: SeverityRank_def ValidSeverity_def)

lemma ApplyAction_from_resolved: "ApplyAction StateResolved a = Inr s \<Longrightarrow> False"
  by (cases a) auto

lemma ApplyAction_to_resolved: "ApplyAction s a = Inr StateResolved \<longleftrightarrow> a = ActionResolve \<and> s \<noteq> StateResolved"
  by (cases a) (auto split: if_splits)

lemma truncate_loop_eq:
  "count \<le> n \<Longrightarrow> n < count + int (length (runes rest)) \<Longrightarrow>
   truncate_loop n count i rest = Some (i + length (concat (take (nat (n - count)) (runes rest))))"
proof (induction n count i rest rule: truncate_loop.induct)
  case (1 n count i rest)
  show ?case
  proof (cases "rest = []")
    case True
    with "1.prems" show ?thesis by simp
  next
    case ne: False
    let ?w = "rune_width rest"
    show ?thesis
    proof (cases "count = n")
      case True
      with ne show ?thesis by (simp add: truncate_loop.simps)
    next
      case False
      have r: "runes rest = take ?w rest # runes (drop ?w rest)"
        using ne by (simp add: runes.simps [of rest])
      have k: "nat (n - count) = Suc (nat (n - (count + 1)))"
        using False "1.prems"(1) by simp
      have "truncate_loop n (count + 1) (i + ?w) (drop ?w rest) =
          Some (i + ?w + length (concat (take (nat (n - (count + 1))) (runes (drop ?w rest)))))"
        using "1.IH" [OF ne False] "1.prems" False r by simp
      then show ?thesis
        using ne False r k rune_width_le [of rest]
        by (simp add: truncate_loop.simps [of n count] min_absorb2)
    qed
  qed
qed

lemma take_concat_take_runes: "take (length (concat (take n (runes s)))) s = concat (take n (runes s))"
  by (metis append_eq_conv_conj append_take_drop_id concat_append concat_runes)

text \<open>What the loop computes: the first \<open>n\<close> characters.\<close>

lemma TruncateRunes_eq: "TruncateRunes s n = concat (take (nat n) (runes s))"
proof (cases "n \<le> 0 \<or> int (RuneCountInString s) \<le> n")
  case True
  then show ?thesis by (auto simp: TruncateRunes_def RuneCountInString_def)
next
  case False
  then have "truncate_loop n 0 0 s = Some (length (concat (take (nat n) (runes s))))"
    using truncate_loop_eq [of 0 n s 0] by (simp add: RuneCountInString_def)
  with False show ?thesis by (simp add: TruncateRunes_def take_concat_take_runes)
qed

lemma RuneCount_TruncateRunes: "RuneCountInString (TruncateRunes s n) = min (RuneCountInString s) (nat n)"
  by (simp add: TruncateRunes_eq RuneCountInString_def runes_take min.commute)

lemma TruncateRunes_idem: "TruncateRunes (TruncateRunes s n) n = TruncateRunes s n"
  by (simp add: TruncateRunes_eq runes_take)

end
