(* ===== verification/Routing_Config.thy ===== *)
theory Routing_Config
  imports Domain
begin

text \<open>
  The routing section of \<^verbatim>\<open>internal/config/config.go\<close>: its types and the checks that run before
  the process starts. \<open>validate_Routing\<close> takes the set of configured channel names and returns the
  first failure in source order; the names of the rules seen so far are the argument \<open>names\<close> of the
  loop. \<^verbatim>\<open>unicode.ToLower\<close> is the parameter \<open>ul\<close> of every definition that lower-cases.
\<close>

record RoutingMatch =
  rm_type :: "string list"
  rm_severity :: "string list"
  rm_min_severity :: string
  rm_source :: "string list"
  rm_category :: "string list"

record RoutingRule =
  rr_name :: string
  rr_match :: RoutingMatch
  rr_channels :: "string list"

record Routing =
  rt_rules :: "RoutingRule list"
  rt_default :: "string list"

datatype routing_error =
    MissingRuleName nat
  | DuplicateRuleName string
  | UnknownEventType string string
  | UnknownSeverity string string
  | UnknownMinSeverity string string
  | BadPattern string string string
  | RuleUnknownChannel string string
  | DefaultUnknownChannel string

definition normalizeMatchValue :: "unicode_lower \<Rightarrow> string \<Rightarrow> string" where
  "normalizeMatchValue ul s = ToLower ul (TrimSpace s)"

definition ValidRoutingType :: "unicode_lower \<Rightarrow> string \<Rightarrow> bool" where
  "ValidRoutingType ul s = ValidEventType (EventType_of (normalizeMatchValue ul s))"

definition ValidRoutingSeverity :: "unicode_lower \<Rightarrow> string \<Rightarrow> bool" where
  "ValidRoutingSeverity ul s = ValidSeverity (Severity_of (normalizeMatchValue ul s))"

definition validPattern :: "string \<Rightarrow> bool" where
  "validPattern v =
     (let s = TrimSpace v in
      case IndexByte s (CHR ''*'') of Some i \<Rightarrow> i = length s - 1 | None \<Rightarrow> True)"

definition validate_RoutingMatch :: "unicode_lower \<Rightarrow> string \<Rightarrow> RoutingMatch \<Rightarrow> routing_error option" where
  "validate_RoutingMatch ul rule m =
     or_err (first_error (\<lambda>t. check (ValidRoutingType ul t) (UnknownEventType rule t)) (rm_type m))
    (or_err (first_error (\<lambda>s. check (ValidRoutingSeverity ul s) (UnknownSeverity rule s)) (rm_severity m))
    (or_err (check (\<not> (TrimSpace (rm_min_severity m) \<noteq> [] \<and> \<not> ValidRoutingSeverity ul (rm_min_severity m)))
                   (UnknownMinSeverity rule (rm_min_severity m)))
            (first_error
               (\<lambda>(field, values). first_error (\<lambda>v. check (validPattern v) (BadPattern rule field v)) values)
               [(''source'', rm_source m), (''category'', rm_category m)])))"

fun validate_rules :: "unicode_lower \<Rightarrow> string set \<Rightarrow> string set \<Rightarrow> nat \<Rightarrow> RoutingRule list \<Rightarrow> routing_error option" where
  "validate_rules ul channels names i [] = None"
| "validate_rules ul channels names i (rule # rules) =
     (let name = TrimSpace (rr_name rule) in
      if name = [] then Some (MissingRuleName (i + 1))
      else if name \<in> names then Some (DuplicateRuleName name)
      else or_err (validate_RoutingMatch ul name (rr_match rule))
          (or_err (first_error (\<lambda>ch. check (TrimSpace ch \<in> channels) (RuleUnknownChannel name ch)) (rr_channels rule))
                  (validate_rules ul channels (insert name names) (i + 1) rules)))"

definition validate_Routing :: "unicode_lower \<Rightarrow> string set \<Rightarrow> Routing \<Rightarrow> routing_error option" where
  "validate_Routing ul channels r =
     or_err (validate_rules ul channels {} 0 (rt_rules r))
            (first_error (\<lambda>ch. check (TrimSpace ch \<in> channels) (DefaultUnknownChannel ch)) (rt_default r))"

subsection \<open>Lemmas\<close>

lemma validPattern_iff: "validPattern v \<longleftrightarrow> CHR ''*'' \<notin> set (butlast (TrimSpace v))"
  using IndexByte_last_iff [of "TrimSpace v" "CHR ''*''"]
  by (simp add: validPattern_def Let_def split: option.splits)

lemma validate_RoutingMatch_None_iff:
  "validate_RoutingMatch ul n m = None \<longleftrightarrow>
     (\<forall>t \<in> set (rm_type m). ValidRoutingType ul t) \<and>
     (\<forall>s \<in> set (rm_severity m). ValidRoutingSeverity ul s) \<and>
     (TrimSpace (rm_min_severity m) = [] \<or> ValidRoutingSeverity ul (rm_min_severity m)) \<and>
     (\<forall>v \<in> set (rm_source m) \<union> set (rm_category m). validPattern v)"
  by (auto simp: validate_RoutingMatch_def)

text \<open>What a routing section that passes the checks satisfies.\<close>

lemma validate_rules_None_iff:
  "validate_rules ul channels names i rules = None \<longleftrightarrow>
     distinct (map (TrimSpace \<circ> rr_name) rules) \<and>
     (\<forall>r \<in> set rules. TrimSpace (rr_name r) \<noteq> [] \<and> TrimSpace (rr_name r) \<notin> names \<and>
        validate_RoutingMatch ul (TrimSpace (rr_name r)) (rr_match r) = None \<and>
        (\<forall>ch \<in> set (rr_channels r). TrimSpace ch \<in> channels))"
proof (induction rules arbitrary: names i)
  case (Cons r rules)
  then show ?case by (auto simp: Let_def image_iff)
qed simp

lemma validate_Routing_None_iff:
  "validate_Routing ul channels r = None \<longleftrightarrow>
     validate_rules ul channels {} 0 (rt_rules r) = None \<and>
     (\<forall>ch \<in> set (rt_default r). TrimSpace ch \<in> channels)"
  by (simp add: validate_Routing_def)

end
