(* ===== verification/Routing.thy ===== *)
theory Routing
  imports Routing_Config
begin

text \<open>
  \<^verbatim>\<open>internal/routing/routing.go\<close>: the router that \<open>New\<close> compiles from a routing section and the
  decision \<open>Route\<close> takes for an event. The specification it refines is \<open>route_spec\<close>, read directly off
  the configuration: the first rule whose conditions hold decides, values inside a field are alternatives,
  fields are conjuncts, and an absent field constrains nothing.
\<close>

subsection \<open>Types\<close>

record Decision =
  dc_rule :: string
  dc_matched :: bool
  dc_channels :: "ChannelTarget list"

record MatchView =
  mv_type :: "string list"
  mv_severity :: "string list"
  mv_min_severity :: string
  mv_source :: "string list"
  mv_category :: "string list"

record RuleView =
  rv_name :: string
  rv_match :: MatchView
  rv_channels :: "string list"
  rv_catch_all :: bool

record eventValues =
  vl_event_type :: string
  vl_severity :: string
  vl_source :: string
  vl_category :: string

record pattern =
  pt_value :: string
  pt_prefix :: bool

record matcher =
  mt_types :: "string list"
  mt_severities :: "string list"
  mt_min_severity :: int
  mt_sources :: "pattern list"
  mt_categories :: "pattern list"

record rule =
  ru_name :: string
  ru_match :: matcher
  ru_channels :: "ChannelTarget list"
  ru_names :: "string list"

record Router =
  ro_configured :: bool
  ro_rules :: "rule list"
  ro_def :: "ChannelTarget list"
  ro_def_names :: "string list"
  ro_views :: "RuleView list"
  ro_known :: "ChannelTarget list"

datatype router_error =
    NewUnknownChannel string string
  | NewUnknownMinSeverity string
  | NewBadPattern string
  | NewRule string router_error

subsection \<open>Comparison form\<close>

definition normalize :: "unicode_lower \<Rightarrow> string \<Rightarrow> string" where
  "normalize ul s = ToLower ul (TrimSpace s)"

definition normalizeAll :: "unicode_lower \<Rightarrow> string list \<Rightarrow> string list" where
  "normalizeAll ul values = map (normalize ul) values"

definition trimAll :: "string list \<Rightarrow> string list" where
  "trimAll values = map TrimSpace values"

definition targetNames :: "ChannelTarget list \<Rightarrow> string list" where
  "targetNames targets = map ct_name targets"

definition matchView :: "RoutingMatch \<Rightarrow> MatchView" where
  "matchView m =
     \<lparr>mv_type = trimAll (rm_type m), mv_severity = trimAll (rm_severity m),
      mv_min_severity = TrimSpace (rm_min_severity m),
      mv_source = trimAll (rm_source m), mv_category = trimAll (rm_category m)\<rparr>"

subsection \<open>Compiling a rule\<close>

fun compilePatterns :: "unicode_lower \<Rightarrow> string list \<Rightarrow> router_error + pattern list" where
  "compilePatterns ul [] = Inr []"
| "compilePatterns ul (v # vs) =
     (let s = normalize ul v in
      case IndexByte s (CHR ''*'') of
        Some i \<Rightarrow>
          if i \<noteq> length s - 1 then Inl (NewBadPattern v)
          else map_sum id (\<lambda>out. \<lparr>pt_value = take (length s - 1) s, pt_prefix = True\<rparr> # out) (compilePatterns ul vs)
      | None \<Rightarrow> map_sum id (\<lambda>out. \<lparr>pt_value = s, pt_prefix = False\<rparr> # out) (compilePatterns ul vs))"

definition compile :: "unicode_lower \<Rightarrow> RoutingMatch \<Rightarrow> router_error + matcher" where
  "compile ul m =
     (let s = normalize ul (rm_min_severity m); rank = SeverityRank (Severity_of s) in
      if s \<noteq> [] \<and> rank = 0 then Inl (NewUnknownMinSeverity (rm_min_severity m))
      else (case compilePatterns ul (rm_source m) of
              Inl e \<Rightarrow> Inl e
            | Inr sources \<Rightarrow>
             (case compilePatterns ul (rm_category m) of
                Inl e \<Rightarrow> Inl e
              | Inr categories \<Rightarrow>
                  Inr \<lparr>mt_types = normalizeAll ul (rm_type m), mt_severities = normalizeAll ul (rm_severity m),
                       mt_min_severity = (if s \<noteq> [] then rank else 0),
                       mt_sources = sources, mt_categories = categories\<rparr>)))"

subsection \<open>Matching\<close>

fun matchesAny :: "pattern list \<Rightarrow> string \<Rightarrow> bool" where
  "matchesAny [] v = False"
| "matchesAny (p # ps) v =
     (if pt_prefix p then (if HasPrefix v (pt_value p) then True else matchesAny ps v)
      else if v = pt_value p then True else matchesAny ps v)"

fun contains :: "string list \<Rightarrow> string \<Rightarrow> bool" where
  "contains [] v = False"
| "contains (s # ss) v = (if s = v then True else contains ss v)"

definition matches :: "matcher \<Rightarrow> eventValues \<Rightarrow> bool" where
  "matches m e =
     (if length (mt_types m) > 0 \<and> \<not> contains (mt_types m) (vl_event_type e) then False
      else if length (mt_severities m) > 0 \<and> \<not> contains (mt_severities m) (vl_severity e) then False
      else if mt_min_severity m > 0 \<and> SeverityRank (Severity_of (vl_severity e)) < mt_min_severity m then False
      else if length (mt_sources m) > 0 \<and> \<not> matchesAny (mt_sources m) (vl_source e) then False
      else if length (mt_categories m) > 0 \<and> \<not> matchesAny (mt_categories m) (vl_category e) then False
      else True)"

definition catchAll :: "matcher \<Rightarrow> bool" where
  "catchAll m =
     (length (mt_types m) = 0 \<and> length (mt_severities m) = 0 \<and> mt_min_severity m = 0 \<and>
      length (mt_sources m) = 0 \<and> length (mt_categories m) = 0)"

subsection \<open>The router\<close>

definition NewAllChannels :: "ChannelTarget list \<Rightarrow> Router" where
  "NewAllChannels targets =
     \<lparr>ro_configured = False, ro_rules = [], ro_def = targets, ro_def_names = targetNames targets,
      ro_views = [], ro_known = targets\<rparr>"

definition byName :: "ChannelTarget list \<Rightarrow> string \<Rightarrow> ChannelTarget option" where
  "byName targets = foldl (\<lambda>m t. m(ct_name t \<mapsto> t)) Map.empty targets"

fun resolve_names :: "(string \<Rightarrow> ChannelTarget option) \<Rightarrow> string \<Rightarrow> string list \<Rightarrow> router_error + (ChannelTarget list \<times> string list)" where
  "resolve_names m whr [] = Inr ([], [])"
| "resolve_names m whr (n # ns) =
     (let name = TrimSpace n in
      case m name of
        None \<Rightarrow> Inl (NewUnknownChannel whr n)
      | Some t \<Rightarrow> map_sum id (\<lambda>(out, clean). (t # out, name # clean)) (resolve_names m whr ns))"

fun new_rules :: "unicode_lower \<Rightarrow> (string \<Rightarrow> ChannelTarget option) \<Rightarrow> RoutingRule list \<Rightarrow> router_error + (rule list \<times> RuleView list)" where
  "new_rules ul m [] = Inr ([], [])"
| "new_rules ul m (rc # rcs) =
     (let name = TrimSpace (rr_name rc) in
      case resolve_names m (''routing rule '' @ name) (rr_channels rc) of
        Inl e \<Rightarrow> Inl e
      | Inr (chans, names) \<Rightarrow>
       (case compile ul (rr_match rc) of
          Inl e \<Rightarrow> Inl (NewRule name e)
        | Inr mt \<Rightarrow>
            map_sum id
              (\<lambda>(rules, views).
                 (\<lparr>ru_name = name, ru_match = mt, ru_channels = chans, ru_names = names\<rparr> # rules,
                  \<lparr>rv_name = name, rv_match = matchView (rr_match rc), rv_channels = names, rv_catch_all = catchAll mt\<rparr> # views))
              (new_rules ul m rcs)))"

definition New :: "unicode_lower \<Rightarrow> Routing \<Rightarrow> ChannelTarget list \<Rightarrow> router_error + Router" where
  "New ul cfg targets =
     (case new_rules ul (byName targets) (rt_rules cfg) of
        Inl e \<Rightarrow> Inl e
      | Inr (rules, views) \<Rightarrow>
       (case resolve_names (byName targets) ''routing default'' (rt_default cfg) of
          Inl e \<Rightarrow> Inl e
        | Inr (def, defNames) \<Rightarrow>
            Inr \<lparr>ro_configured = True, ro_rules = rules, ro_def = def, ro_def_names = defNames,
                 ro_views = views, ro_known = targets\<rparr>))"

definition eventValuesOf :: "unicode_lower \<Rightarrow> Event \<Rightarrow> eventValues" where
  "eventValuesOf ul e =
     \<lparr>vl_event_type = normalize ul (EventType_str (ev_type e)),
      vl_severity = normalize ul (Severity_str (ev_severity e)),
      vl_source = normalize ul (ev_source e), vl_category = normalize ul (ev_category e)\<rparr>"

fun route_rules :: "rule list \<Rightarrow> eventValues \<Rightarrow> ChannelTarget list \<Rightarrow> Decision" where
  "route_rules [] v def = \<lparr>dc_rule = [], dc_matched = False, dc_channels = def\<rparr>"
| "route_rules (r # rs) v def =
     (if matches (ru_match r) v
      then \<lparr>dc_rule = ru_name r, dc_matched = True, dc_channels = ru_channels r\<rparr>
      else route_rules rs v def)"

definition Route :: "unicode_lower \<Rightarrow> Router \<Rightarrow> Event \<Rightarrow> Decision" where
  "Route ul r e = route_rules (ro_rules r) (eventValuesOf ul e) (ro_def r)"

text \<open>The startup diagnostics. The loop skips a catch-all rule that is last.\<close>

fun unreachable_loop :: "rule list \<Rightarrow> string \<times> string list" where
  "unreachable_loop [] = ([], [])"
| "unreachable_loop (rl # later) =
     (if \<not> catchAll (ru_match rl) \<or> later = [] then unreachable_loop later
      else (ru_name rl, map ru_name later))"

definition UnreachableRules :: "Router \<Rightarrow> string \<times> string list" where
  "UnreachableRules r = unreachable_loop (ro_rules r)"

definition UnusedChannels :: "Router \<Rightarrow> string list" where
  "UnusedChannels r =
     (if \<not> ro_configured r then []
      else let used = set (ro_def_names r) \<union> (\<Union>rl \<in> set (ro_rules r). set (ru_names rl)) in
           map ct_name (filter (\<lambda>t. ct_name t \<notin> used) (ro_known r)))"

subsection \<open>The specification\<close>

text \<open>
  One configured value against one value of an event. A value that ends in an asterisk stands for
  every value it is a prefix of.
\<close>

definition pattern_spec :: "unicode_lower \<Rightarrow> string \<Rightarrow> string \<Rightarrow> bool" where
  "pattern_spec ul v x =
     (let s = normalize ul v in
      if s \<noteq> [] \<and> last s = CHR ''*'' then prefix (butlast s) (normalize ul x) else normalize ul x = s)"

definition match_spec :: "unicode_lower \<Rightarrow> RoutingMatch \<Rightarrow> Event \<Rightarrow> bool" where
  "match_spec ul m e =
     ((rm_type m = [] \<or> (\<exists>t \<in> set (rm_type m). normalize ul t = normalize ul (EventType_str (ev_type e)))) \<and>
      (rm_severity m = [] \<or> (\<exists>s \<in> set (rm_severity m). normalize ul s = normalize ul (Severity_str (ev_severity e)))) \<and>
      (normalize ul (rm_min_severity m) = [] \<or>
       SeverityRank (Severity_of (normalize ul (rm_min_severity m)))
         \<le> SeverityRank (Severity_of (normalize ul (Severity_str (ev_severity e))))) \<and>
      (rm_source m = [] \<or> (\<exists>v \<in> set (rm_source m). pattern_spec ul v (ev_source e))) \<and>
      (rm_category m = [] \<or> (\<exists>v \<in> set (rm_category m). pattern_spec ul v (ev_category e))))"

definition route_spec :: "unicode_lower \<Rightarrow> Routing \<Rightarrow> Event \<Rightarrow> string list" where
  "route_spec ul cfg e =
     map TrimSpace
       (case find (\<lambda>r. match_spec ul (rr_match r) e) (rt_rules cfg) of
          Some r \<Rightarrow> rr_channels r
        | None \<Rightarrow> rt_default cfg)"

text \<open>A routing table with a threshold rule, a wildcard rule, a catch-all and a rule below it.\<close>

definition demo_lower :: unicode_lower where
  "demo_lower r = (if CHR ''*'' \<in> set r then [] else r)"

definition demo_match :: RoutingMatch where
  "demo_match = \<lparr>rm_type = [], rm_severity = [], rm_min_severity = [], rm_source = [], rm_category = []\<rparr>"

definition demo_routing :: Routing where
  "demo_routing =
     \<lparr>rt_rules =
        [\<lparr>rr_name = ''crit'', rr_match = demo_match\<lparr>rm_min_severity := '' Error''\<rparr>, rr_channels = ['' ops'']\<rparr>,
         \<lparr>rr_name = ''all'', rr_match = demo_match, rr_channels = [''log'']\<rparr>,
         \<lparr>rr_name = ''late'', rr_match = demo_match\<lparr>rm_source := [''Ord*'']\<rparr>, rr_channels = []\<rparr>],
      rt_default = [''log'']\<rparr>"

definition demo_targets :: "ChannelTarget list" where
  "demo_targets =
     [\<lparr>ct_type = ChannelSlack, ct_name = ''ops''\<rparr>, \<lparr>ct_type = ChannelNtfy, ct_name = ''log''\<rparr>,
      \<lparr>ct_type = ChannelEmail, ct_name = ''mail''\<rparr>]"

definition demo_router :: Router where
  "demo_router = (case New demo_lower demo_routing demo_targets of Inr r \<Rightarrow> r | Inl _ \<Rightarrow> NewAllChannels [])"

definition demo_event :: Event where
  "demo_event =
     \<lparr>ev_id = ''e1'', ev_type = EventIncident, ev_severity = SeverityCritical, ev_state = StateNew,
      ev_source = ''orders'', ev_category = [], ev_message = ''down'', ev_entity_type = [], ev_entity_id = [],
      ev_trace_id = [], ev_dedupe_key = ''k'', ev_payload = [], ev_created_at = 1, ev_updated_at = 1,
      ev_last_seen_at = 1, ev_resolved_at = None\<rparr>"

subsection \<open>Lemmas on matching\<close>

lemma contains_iff [simp]: "contains vs v \<longleftrightarrow> v \<in> set vs"
  by (induction vs) auto

lemma matchesAny_iff:
  "matchesAny ps v \<longleftrightarrow> (\<exists>p \<in> set ps. if pt_prefix p then prefix (pt_value p) v else v = pt_value p)"
  by (induction ps) (auto simp: HasPrefix_iff_prefix)

lemma matches_iff:
  "matches m e \<longleftrightarrow>
     (mt_types m = [] \<or> vl_event_type e \<in> set (mt_types m)) \<and>
     (mt_severities m = [] \<or> vl_severity e \<in> set (mt_severities m)) \<and>
     (mt_min_severity m \<le> 0 \<or> mt_min_severity m \<le> SeverityRank (Severity_of (vl_severity e))) \<and>
     (mt_sources m = [] \<or> matchesAny (mt_sources m) (vl_source e)) \<and>
     (mt_categories m = [] \<or> matchesAny (mt_categories m) (vl_category e))"
  by (auto simp: matches_def)

lemma catchAll_matches: "catchAll m \<Longrightarrow> matches m e"
  by (simp add: catchAll_def matches_iff)

lemma compilePatterns_Cons_InrD:
  assumes "compilePatterns ul (v # vs) = Inr ps"
  obtains p ps' where "ps = p # ps'" "compilePatterns ul vs = Inr ps'"
    "(if pt_prefix p then prefix (pt_value p) (normalize ul x) else normalize ul x = pt_value p) \<longleftrightarrow> pattern_spec ul v x"
proof (cases "IndexByte (normalize ul v) (CHR ''*'')")
  case None
  then have "CHR ''*'' \<notin> set (normalize ul v)" by (simp add: IndexByte_None_iff)
  then have "\<not> (normalize ul v \<noteq> [] \<and> last (normalize ul v) = CHR ''*'')"
    using last_in_set by metis
  with None assms that show ?thesis
    by (cases "compilePatterns ul vs") (auto simp: Let_def pattern_spec_def)
next
  case (Some i)
  from IndexByte_SomeD [OF Some] have i: "i < length (normalize ul v)" "normalize ul v ! i = CHR ''*''" by auto
  from Some assms have "i = length (normalize ul v) - 1" by (auto simp: Let_def split: if_splits)
  with i have "normalize ul v \<noteq> []" and "normalize ul v ! (length (normalize ul v) - 1) = CHR ''*''" by auto
  then have "normalize ul v \<noteq> []" and "last (normalize ul v) = CHR ''*''" by (simp_all add: last_conv_nth)
  with Some assms that show ?thesis
    by (cases "compilePatterns ul vs") (auto simp: Let_def pattern_spec_def butlast_conv_take split: if_splits)
qed

lemma compilePatterns_matches:
  "compilePatterns ul vs = Inr ps \<Longrightarrow>
   (ps = [] \<longleftrightarrow> vs = []) \<and> (matchesAny ps (normalize ul x) \<longleftrightarrow> (\<exists>v \<in> set vs. pattern_spec ul v x))"
proof (induction vs arbitrary: ps)
  case (Cons v vs)
  from Cons.prems obtain p ps' where "ps = p # ps'" "compilePatterns ul vs = Inr ps'"
    "(if pt_prefix p then prefix (pt_value p) (normalize ul x) else normalize ul x = pt_value p) \<longleftrightarrow> pattern_spec ul v x"
    by (rule compilePatterns_Cons_InrD)
  with Cons.IH show ?case by (auto simp: matchesAny_iff)
qed simp

lemma compile_matches:
  assumes "compile ul m = Inr mt"
  shows "matches mt (eventValuesOf ul e) \<longleftrightarrow> match_spec ul m e"
proof -
  from assms obtain sp cp where
      s: "compilePatterns ul (rm_source m) = Inr sp" and c: "compilePatterns ul (rm_category m) = Inr cp"
      and mt: "mt = \<lparr>mt_types = normalizeAll ul (rm_type m), mt_severities = normalizeAll ul (rm_severity m),
                 mt_min_severity = (if normalize ul (rm_min_severity m) \<noteq> []
                                    then SeverityRank (Severity_of (normalize ul (rm_min_severity m))) else 0),
                 mt_sources = sp, mt_categories = cp\<rparr>"
      and rank: "normalize ul (rm_min_severity m) \<noteq> [] \<Longrightarrow>
                 SeverityRank (Severity_of (normalize ul (rm_min_severity m))) \<noteq> 0"
    by (auto simp: compile_def Let_def split: if_splits sum.splits)
  have pos: "0 < SeverityRank (Severity_of (normalize ul (rm_min_severity m)))"
    if "normalize ul (rm_min_severity m) \<noteq> []"
    using rank [OF that] SeverityRank_pos_iff SeverityRank_zero_iff by blast
  have lists: "normalizeAll ul vs = [] \<or> normalize ul x \<in> set (normalizeAll ul vs) \<longleftrightarrow>
      vs = [] \<or> (\<exists>t \<in> set vs. normalize ul t = normalize ul x)" for vs x
    by (auto simp: normalizeAll_def image_iff) metis
  show ?thesis
    using pos compilePatterns_matches [OF s, of "ev_source e"] compilePatterns_matches [OF c, of "ev_category e"]
    by (simp add: matches_iff mt eventValuesOf_def match_spec_def lists) (metis linorder_not_le)
qed

lemma normalize_star:
  "star_free ul \<Longrightarrow> validPattern v \<Longrightarrow> CHR ''*'' \<notin> set (butlast (normalize ul v))"
  by (simp add: normalize_def validPattern_iff ToLower_star)

lemma compilePatterns_total:
  assumes "star_free ul"
  shows "\<forall>v \<in> set vs. validPattern v \<Longrightarrow> \<exists>ps. compilePatterns ul vs = Inr ps"
proof (induction vs)
  case (Cons v vs)
  then obtain ps where "compilePatterns ul vs = Inr ps" by auto
  moreover have "case IndexByte (normalize ul v) (CHR ''*'') of None \<Rightarrow> True | Some i \<Rightarrow> i = length (normalize ul v) - 1"
    using Cons.prems assms by (simp only: IndexByte_last_iff) (simp add: normalize_star)
  ultimately show ?case by (auto simp: Let_def split: option.splits)
qed simp

lemma compile_total:
  assumes "star_free ul" "validate_RoutingMatch ul n m = None"
  shows "\<exists>mt. compile ul m = Inr mt"
proof -
  from assms obtain sp cp where "compilePatterns ul (rm_source m) = Inr sp" "compilePatterns ul (rm_category m) = Inr cp"
    using compilePatterns_total by (metis Un_iff validate_RoutingMatch_None_iff)
  moreover have "normalize ul (rm_min_severity m) = [] \<or>
      SeverityRank (Severity_of (normalize ul (rm_min_severity m))) \<noteq> 0"
    using assms(2) by (auto simp: validate_RoutingMatch_None_iff normalize_def ValidRoutingSeverity_def
        normalizeMatchValue_def SeverityRank_zero_iff)
  ultimately show ?thesis by (auto simp: compile_def Let_def)
qed

subsection \<open>Lemmas on the router\<close>

lemma byName_snoc: "byName (ts @ [t]) = (byName ts)(ct_name t \<mapsto> t)"
  by (simp add: byName_def)

lemma byName_SomeD: "byName ts n = Some t \<Longrightarrow> t \<in> set ts \<and> ct_name t = n"
  by (induction ts rule: rev_induct) (auto simp: byName_snoc byName_def split: if_splits)

lemma byName_total: "n \<in> ct_name ` set ts \<Longrightarrow> \<exists>t. byName ts n = Some t"
  by (induction ts rule: rev_induct) (auto simp: byName_snoc)

lemma resolve_names_InrD:
  "resolve_names (byName ts) w ns = Inr (out, clean) \<Longrightarrow>
   clean = map TrimSpace ns \<and> map ct_name out = clean \<and> set out \<subseteq> set ts"
  by (induction ns arbitrary: out clean)
    (auto simp: Let_def dest!: byName_SomeD split: option.splits)

lemma resolve_names_total:
  "\<forall>n \<in> set ns. TrimSpace n \<in> ct_name ` set ts \<Longrightarrow> \<exists>out clean. resolve_names (byName ts) w ns = Inr (out, clean)"
proof (induction ns)
  case (Cons n ns)
  then obtain out clean t where "resolve_names (byName ts) w ns = Inr (out, clean)" "byName ts (TrimSpace n) = Some t"
    using byName_total [of "TrimSpace n" ts] by auto
  then show ?case by (simp add: Let_def)
qed simp

text \<open>The compiled rules against the configured ones.\<close>

definition compiled :: "unicode_lower \<Rightarrow> ChannelTarget list \<Rightarrow> RoutingRule \<Rightarrow> rule \<Rightarrow> bool" where
  "compiled ul ts rc r =
     (ru_name r = TrimSpace (rr_name rc) \<and> compile ul (rr_match rc) = Inr (ru_match r) \<and>
      ru_names r = map TrimSpace (rr_channels rc) \<and> map ct_name (ru_channels r) = ru_names r \<and>
      set (ru_channels r) \<subseteq> set ts)"

lemma new_rules_InrD: "new_rules ul (byName ts) rcs = Inr (rules, views) \<Longrightarrow> list_all2 (compiled ul ts) rcs rules"
proof (induction rcs arbitrary: rules views)
  case (Cons rc rcs)
  then show ?case
    by (auto simp: Let_def compiled_def subset_iff dest!: resolve_names_InrD split: sum.splits)
qed simp

lemma New_InrD:
  assumes "New ul cfg ts = Inr r"
  shows "list_all2 (compiled ul ts) (rt_rules cfg) (ro_rules r)" "ro_configured r" "ro_known r = ts"
    "ro_def_names r = map TrimSpace (rt_default cfg)" "map ct_name (ro_def r) = ro_def_names r"
    "set (ro_def r) \<subseteq> set ts"
  using assms by (auto simp: New_def subset_iff dest!: new_rules_InrD resolve_names_InrD split: sum.splits)

lemma new_rules_total:
  assumes "star_free ul"
  shows "validate_rules ul (ct_name ` set ts) names i rcs = None \<Longrightarrow> \<exists>rules views. new_rules ul (byName ts) rcs = Inr (rules, views)"
proof (induction rcs arbitrary: names i)
  case (Cons rc rcs)
  from Cons.prems obtain chans ns mt rules views where
    "resolve_names (byName ts) (''routing rule '' @ TrimSpace (rr_name rc)) (rr_channels rc) = Inr (chans, ns)"
    "compile ul (rr_match rc) = Inr mt" "new_rules ul (byName ts) rcs = Inr (rules, views)"
    using compile_total [OF assms] resolve_names_total Cons.IH
    by (auto simp: Let_def split: if_splits) metis
  then show ?case by (simp add: Let_def)
qed simp

lemma route_rules_spec:
  "list_all2 (compiled ul ts) rcs rules \<Longrightarrow>
   map ct_name (dc_channels (route_rules rules (eventValuesOf ul e) def)) =
     (case find (\<lambda>r. match_spec ul (rr_match r) e) rcs of
        Some rc \<Rightarrow> map TrimSpace (rr_channels rc) | None \<Rightarrow> map ct_name def)"
  by (induction rule: list_all2_induct) (auto simp: compiled_def compile_matches)

lemma route_rules_cases:
  "(\<exists>r \<in> set rules. route_rules rules v def = \<lparr>dc_rule = ru_name r, dc_matched = True, dc_channels = ru_channels r\<rparr>) \<or>
   route_rules rules v def = \<lparr>dc_rule = [], dc_matched = False, dc_channels = def\<rparr>"
  by (induction rules) auto

lemma route_rules_unreachable:
  "unreachable_loop rules = (c, us) \<Longrightarrow> u \<in> set us \<Longrightarrow> distinct (map ru_name rules) \<Longrightarrow>
   dc_matched (route_rules rules v def) \<and> dc_rule (route_rules rules v def) \<noteq> u"
proof (induction rules)
  case (Cons r rules)
  show ?case
  proof (cases "\<not> catchAll (ru_match r) \<or> rules = []")
    case True
    then have u: "unreachable_loop rules = (c, us)" using Cons.prems(1) by simp
    then have "u \<in> ru_name ` set rules"
      using Cons.prems(2) by (induction rules) (auto split: if_splits)
    with Cons u show ?thesis by auto
  next
    case False
    with Cons.prems show ?thesis by (auto simp: catchAll_matches)
  qed
qed simp

lemma demo_lower_star_free: "star_free demo_lower"
  by (simp add: star_free_def demo_lower_def)

lemma demo_router_New: "New demo_lower demo_routing demo_targets = Inr demo_router"
  by code_simp

lemma demo_validate: "validate_Routing demo_lower (set (targetNames demo_targets)) demo_routing = None"
  by code_simp

subsection \<open>Properties\<close>

text \<open>
  C7: a router built from a routing section sends an event exactly to the channels the configuration
  names: those of the first rule, read top to bottom, whose conditions hold, or the default when none does.
\<close>

theorem Route_refines:
  assumes "New ul cfg targets = Inr r"
  shows "map ct_name (dc_channels (Route ul r e)) = route_spec ul cfg e"
  using New_InrD [OF assms]
  by (auto simp: Route_def route_spec_def route_rules_spec split: option.split)

theorem Route_refines_witness:
  "New demo_lower demo_routing demo_targets = Inr demo_router \<and>
   map ct_name (dc_channels (Route demo_lower demo_router demo_event)) = [''ops'']"
proof -
  have "route_spec demo_lower demo_routing demo_event = [''ops'']" by code_simp
  then show ?thesis using Route_refines [OF demo_router_New, of demo_event] demo_router_New by simp
qed

text \<open>
  A routing section that passes the startup checks against the configured channels always compiles
  into a router; the error branches of \<open>New\<close> are unreachable behind \<open>validate\<close>.
\<close>

lemma validate_New:
  assumes "star_free ul" and "validate_Routing ul (set (targetNames targets)) cfg = None"
  shows "\<exists>r. New ul cfg targets = Inr r"
proof -
  have "set (targetNames targets) = ct_name ` set targets" by (simp add: targetNames_def)
  with assms(2) have rules: "validate_rules ul (ct_name ` set targets) {} 0 (rt_rules cfg) = None"
    and default: "\<forall>n \<in> set (rt_default cfg). TrimSpace n \<in> ct_name ` set targets"
    by (simp_all add: validate_Routing_None_iff)
  obtain rules views def names where
    "new_rules ul (byName targets) (rt_rules cfg) = Inr (rules, views)"
    "resolve_names (byName targets) ''routing default'' (rt_default cfg) = Inr (def, names)"
    using new_rules_total [OF assms(1) rules] resolve_names_total [OF default] by blast
  then show ?thesis by (simp add: New_def)
qed

text \<open>
  C13: the startup diagnostics are right. In a router built from a routing section that passes the checks, a rule
  reported as unreachable decides no event at all, and some rule above it decides every event; a channel reported
  as unused receives no event.
\<close>

theorem diagnostics_sound:
  assumes "New ul cfg targets = Inr r" and "validate_Routing ul channels cfg = None"
  shows "(u \<in> set (snd (UnreachableRules r)) \<longrightarrow> dc_matched (Route ul r e) \<and> dc_rule (Route ul r e) \<noteq> u) \<and>
         (n \<in> set (UnusedChannels r) \<longrightarrow> n \<notin> set (map ct_name (dc_channels (Route ul r e))))"
proof (intro conjI impI)
  note N = New_InrD [OF assms(1)]
  have "map ru_name (ro_rules r) = map (TrimSpace \<circ> rr_name) (rt_rules cfg)"
    using N(1) by (induction rule: list_all2_induct) (auto simp: compiled_def)
  then have d: "distinct (map ru_name (ro_rules r))"
    using assms(2) by (simp add: validate_Routing_None_iff validate_rules_None_iff)
  assume "u \<in> set (snd (UnreachableRules r))"
  with d show "dc_matched (Route ul r e)" "dc_rule (Route ul r e) \<noteq> u"
    using route_rules_unreachable [of "ro_rules r"] by (metis Route_def UnreachableRules_def prod.collapse)+
next
  note N = New_InrD [OF assms(1)]
  assume n: "n \<in> set (UnusedChannels r)"
  have "map ct_name (ru_channels rl) = ru_names rl" if "rl \<in> set (ro_rules r)" for rl
    using N(1) that by (auto simp: compiled_def list_all2_conv_all_nth in_set_conv_nth)
  with n have "n \<notin> set (map ct_name (ru_channels rl))" if "rl \<in> set (ro_rules r)" for rl
    using that by (auto simp: UnusedChannels_def Let_def split: if_splits)
  moreover from n N(5) have "n \<notin> set (map ct_name (ro_def r))"
    by (auto simp: UnusedChannels_def Let_def split: if_splits)
  ultimately show "n \<notin> set (map ct_name (dc_channels (Route ul r e)))"
    using route_rules_cases [of "ro_rules r" "eventValuesOf ul e" "ro_def r"]
    by (metis Decision.select_convs(3) Route_def)
qed

theorem diagnostics_sound_witness:
  "dc_rule (Route demo_lower demo_router demo_event) \<noteq> ''late'' \<and>
   ''mail'' \<notin> set (map ct_name (dc_channels (Route demo_lower demo_router demo_event)))"
proof -
  have "''late'' \<in> set (snd (UnreachableRules demo_router))" "''mail'' \<in> set (UnusedChannels demo_router)"
    by code_simp+
  then show ?thesis
    using diagnostics_sound [OF demo_router_New demo_validate, of "''late''" demo_event "''mail''"] by blast
qed

end
