(* ===== verification/Store_Tables.thy ===== *)
theory Store_Tables
  imports Domain
begin

text \<open>
  The tables of \<^verbatim>\<open>internal/storage\<close> and the statements that write single rows. A table is the list of its
  rows in insertion order; \<open>store\<close> holds the tables \<^verbatim>\<open>events\<close>, \<^verbatim>\<open>delivery_attempts\<close> and
  \<^verbatim>\<open>worker_heartbeat\<close>. The constraints of the schema (primary keys, one open incident per dedupe key,
  one fallback per dead-lettered attempt, the reference from an attempt to its event) are checked by the
  insert and update statements, which answer \<open>ErrUniqueViolation\<close> or \<open>ErrForeignKey\<close> and change
  nothing, as the transaction around them rolls back. A primary key that is taken is answered as PostgreSQL does, as a unique violation; SQLite has a
  code of its own for it, which \<^verbatim>\<open>isUniqueViolation\<close> does not count, so that there the two creations of a row with a random identifier
  already in use would end in another error.

  The text columns that hold a timestamp are kept as instants: \<^verbatim>\<open>formatTime\<close> is fixed-width, so comparing
  the texts compares the instants. \<^verbatim>\<open>uuid.NewString\<close> is not under the sources: every operation that draws
  identifiers takes them as an argument.

  \<open>wf_store\<close> is the invariant the schema and the write paths keep; every operation of the store is shown to
  preserve it in the theory that defines the operation.
\<close>

subsection \<open>Rows\<close>

record delivery_row =
  dr_id :: string
  dr_event_id :: string
  dr_channel :: ChannelType
  dr_channel_name :: string
  dr_kind :: DeliveryKind
  dr_state :: DeliveryState
  dr_attempts :: int
  dr_max_attempts :: int
  dr_next_retry_at :: "time option"
  dr_last_error :: string
  dr_created_at :: time
  dr_updated_at :: time
  dr_fallback_of :: "string option"
  dr_recovery_for :: "string option"

record store =
  st_events :: "Event list"
  st_attempts :: "delivery_row list"
  st_heartbeat :: "time option"

definition empty_store :: store where
  "empty_store = \<lparr>st_events = [], st_attempts = [], st_heartbeat = None\<rparr>"

definition deliveryArgs :: "DeliveryAttempt \<Rightarrow> delivery_row" where
  "deliveryArgs d =
     \<lparr>dr_id = da_id d, dr_event_id = da_event_id d, dr_channel = da_channel d,
      dr_channel_name = da_channel_name d, dr_kind = OrAlert (da_kind d), dr_state = da_state d,
      dr_attempts = da_attempts d, dr_max_attempts = da_max_attempts d,
      dr_next_retry_at = da_next_retry_at d, dr_last_error = da_last_error d,
      dr_created_at = da_created_at d, dr_updated_at = da_updated_at d,
      dr_fallback_of = map_option al_id (da_fallback_of d),
      dr_recovery_for = map_option al_id (da_recovery_for d)\<rparr>"

text \<open>A link read from the row itself has an id only; \<open>linkAttempts\<close> fills the rest.\<close>

definition bare_link :: "string \<Rightarrow> AttemptLink" where
  "bare_link i = \<lparr>al_id = i, al_channel_name = [], al_state = DeliveryStateOther []\<rparr>"

definition scanDelivery :: "delivery_row \<Rightarrow> DeliveryAttempt" where
  "scanDelivery r =
     \<lparr>da_id = dr_id r, da_event_id = dr_event_id r, da_channel = dr_channel r,
      da_channel_name = dr_channel_name r, da_kind = OrAlert (dr_kind r), da_state = dr_state r,
      da_attempts = dr_attempts r, da_max_attempts = dr_max_attempts r,
      da_next_retry_at = dr_next_retry_at r, da_last_error = dr_last_error r,
      da_created_at = dr_created_at r, da_updated_at = dr_updated_at r,
      da_fallback_of = map_option bare_link (dr_fallback_of r), da_fallback_to = None,
      da_recovery_for = map_option bare_link (dr_recovery_for r)\<rparr>"

definition scanEvent :: "Event \<Rightarrow> Event" where
  "scanEvent e = (if ev_last_seen_at e = 0 then e\<lparr>ev_last_seen_at := ev_created_at e\<rparr> else e)"

subsection \<open>Constraints\<close>

text \<open>The partial unique index on \<^verbatim>\<open>dedupe_key\<close>.\<close>

definition open_event :: "Event \<Rightarrow> bool" where
  "open_event e = (ev_state e \<noteq> StateResolved)"

definition open_key :: "string \<Rightarrow> Event \<Rightarrow> bool" where
  "open_key k e = (ev_dedupe_key e = k \<and> open_event e)"

definition dedupe_ok :: "Event list \<Rightarrow> bool" where
  "dedupe_ok es =
     distinct (map ev_dedupe_key (filter (\<lambda>e. ev_dedupe_key e \<noteq> [] \<and> open_event e) es))"

definition event_exists :: "store \<Rightarrow> string \<Rightarrow> bool" where
  "event_exists st i = (\<exists>e \<in> set (st_events st). ev_id e = i)"

definition attempt_exists :: "store \<Rightarrow> string \<Rightarrow> bool" where
  "attempt_exists st i = (\<exists>r \<in> set (st_attempts st). dr_id r = i)"

definition fallback_exists :: "store \<Rightarrow> string \<Rightarrow> bool" where
  "fallback_exists st i = (\<exists>r \<in> set (st_attempts st). dr_fallback_of r = Some i)"

subsection \<open>Inserts\<close>

definition event_row :: "Event \<Rightarrow> Event" where
  "event_row e =
     e\<lparr>ev_payload := (if ev_payload e = [] then ''{}'' else ev_payload e),
       ev_last_seen_at := (if ev_last_seen_at e = 0 then ev_created_at e else ev_last_seen_at e)\<rparr>"

definition insertEvent :: "Event \<Rightarrow> store \<Rightarrow> store result" where
  "insertEvent e st =
     (if event_exists st (ev_id e) then Inl ErrUniqueViolation
      else if ev_dedupe_key e \<noteq> [] \<and> open_event e \<and> (\<exists>x \<in> set (st_events st). open_key (ev_dedupe_key e) x)
      then Inl ErrUniqueViolation
      else Inr (st\<lparr>st_events := st_events st @ [event_row e]\<rparr>))"

definition insertDelivery :: "DeliveryAttempt \<Rightarrow> store \<Rightarrow> store result" where
  "insertDelivery d st =
     (let r = deliveryArgs d in
      if attempt_exists st (dr_id r) then Inl ErrUniqueViolation
      else if (case dr_fallback_of r of None \<Rightarrow> False | Some i \<Rightarrow> fallback_exists st i) then Inl ErrUniqueViolation
      else if \<not> event_exists st (dr_event_id r) then Inl ErrForeignKey
      else Inr (st\<lparr>st_attempts := st_attempts st @ [r]\<rparr>))"

fun insertDeliveries :: "DeliveryAttempt list \<Rightarrow> store \<Rightarrow> store result" where
  "insertDeliveries [] st = Inr st"
| "insertDeliveries (d # ds) st =
     (case insertDelivery d st of Inl e \<Rightarrow> Inl e | Inr st' \<Rightarrow> insertDeliveries ds st')"

definition isUniqueViolation :: "err \<Rightarrow> bool" where
  "isUniqueViolation e = (e = ErrUniqueViolation)"

subsection \<open>Identity of a row\<close>

text \<open>
  The columns of an attempt that no statement rewrites. An update is described by the rows before and after
  it; \<open>same_job\<close> says that they are the same job.
\<close>

definition same_job :: "delivery_row \<Rightarrow> delivery_row \<Rightarrow> bool" where
  "same_job r r' =
     (dr_id r' = dr_id r \<and> dr_event_id r' = dr_event_id r \<and> dr_channel r' = dr_channel r \<and>
      dr_channel_name r' = dr_channel_name r \<and> dr_kind r' = dr_kind r \<and>
      dr_max_attempts r' = dr_max_attempts r \<and> dr_created_at r' = dr_created_at r \<and>
      dr_fallback_of r' = dr_fallback_of r \<and> dr_recovery_for r' = dr_recovery_for r)"

subsection \<open>The invariant of the tables\<close>

definition keys_ok :: "store \<Rightarrow> bool" where
  "keys_ok st =
     (distinct (map ev_id (st_events st)) \<and> distinct (map dr_id (st_attempts st)) \<and>
      (\<forall>r \<in> set (st_attempts st). event_exists st (dr_event_id r)) \<and>
      (\<forall>r \<in> set (st_attempts st). \<forall>r' \<in> set (st_attempts st).
         dr_fallback_of r = dr_fallback_of r' \<longrightarrow> dr_fallback_of r \<noteq> None \<longrightarrow> r = r'))"

definition events_ok :: "store \<Rightarrow> bool" where
  "events_ok st =
     (dedupe_ok (st_events st) \<and>
      (\<forall>e \<in> set (st_events st). (ev_resolved_at e = None \<longleftrightarrow> open_event e) \<and> ev_payload e \<noteq> []))"

definition wf_store :: "store \<Rightarrow> bool" where
  "wf_store st = (keys_ok st \<and> events_ok st)"

subsection \<open>Lemmas\<close>

lemma scan_args:
  "da_fallback_to d = None \<Longrightarrow> scanDelivery (deliveryArgs d) =
     d\<lparr>da_kind := OrAlert (da_kind d), da_fallback_of := map_option (bare_link \<circ> al_id) (da_fallback_of d),
       da_recovery_for := map_option (bare_link \<circ> al_id) (da_recovery_for d)\<rparr>"
  by (cases d) (auto simp: scanDelivery_def deliveryArgs_def option.map_comp)

lemma args_scan: "dr_kind r \<noteq> KindOther [] \<Longrightarrow> deliveryArgs (scanDelivery r) = r"
  by (cases r) (auto simp: scanDelivery_def deliveryArgs_def option.map_comp comp_def bare_link_def
      option.map_ident OrAlert_def)

lemma insertEvent_InrD:
  assumes "insertEvent e st = Inr st'"
  shows "st' = st\<lparr>st_events := st_events st @ [event_row e]\<rparr>" "\<not> event_exists st (ev_id e)"
    "ev_dedupe_key e \<noteq> [] \<Longrightarrow> open_event e \<Longrightarrow> \<not> (\<exists>x \<in> set (st_events st). open_key (ev_dedupe_key e) x)"
  using assms by (auto simp: insertEvent_def split: if_splits)

lemma insertDelivery_InrD:
  assumes "insertDelivery d st = Inr st'"
  shows "st' = st\<lparr>st_attempts := st_attempts st @ [deliveryArgs d]\<rparr>" "\<not> attempt_exists st (da_id d)"
    "event_exists st (da_event_id d)" "\<And>i. map_option al_id (da_fallback_of d) = Some i \<Longrightarrow> \<not> fallback_exists st i"
  using assms by (auto simp: insertDelivery_def Let_def deliveryArgs_def split: if_splits option.splits)

lemma insertDeliveries_InrD:
  "insertDeliveries ds st = Inr st' \<Longrightarrow>
     st' = st\<lparr>st_attempts := st_attempts st @ map deliveryArgs ds\<rparr>"
proof (induction ds arbitrary: st)
  case (Cons d ds)
  from Cons.prems obtain st1 where i: "insertDelivery d st = Inr st1" and r: "insertDeliveries ds st1 = Inr st'"
    by (auto split: sum.splits)
  from Cons.IH [OF r] insertDelivery_InrD(1) [OF i] show ?case by simp
qed simp

lemma event_row_simps [simp]:
  "ev_id (event_row e) = ev_id e" "ev_state (event_row e) = ev_state e" "ev_dedupe_key (event_row e) = ev_dedupe_key e"
  "ev_resolved_at (event_row e) = ev_resolved_at e" "ev_payload (event_row e) \<noteq> []"
  "ev_type (event_row e) = ev_type e" "ev_severity (event_row e) = ev_severity e"
  "open_event (event_row e) = open_event e"
  by (simp_all add: event_row_def open_event_def)

lemma scanEvent_simps [simp]:
  "ev_id (scanEvent e) = ev_id e" "ev_state (scanEvent e) = ev_state e" "ev_dedupe_key (scanEvent e) = ev_dedupe_key e"
  "ev_type (scanEvent e) = ev_type e" "ev_severity (scanEvent e) = ev_severity e" "ev_source (scanEvent e) = ev_source e"
  "ev_resolved_at (scanEvent e) = ev_resolved_at e" "open_event (scanEvent e) = open_event e"
  by (simp_all add: scanEvent_def open_event_def)

lemma dedupe_ok_snoc:
  "dedupe_ok (es @ [e]) \<longleftrightarrow>
     dedupe_ok es \<and> (ev_dedupe_key e \<noteq> [] \<longrightarrow> open_event e \<longrightarrow> \<not> (\<exists>x \<in> set es. open_key (ev_dedupe_key e) x))"
  by (auto simp: dedupe_ok_def open_key_def image_iff)

lemma dedupe_ok_unique:
  "dedupe_ok es \<Longrightarrow> k \<noteq> [] \<Longrightarrow> a \<in> set es \<Longrightarrow> b \<in> set es \<Longrightarrow> open_key k a \<Longrightarrow> open_key k b \<Longrightarrow> a = b"
  by (auto simp: dedupe_ok_def open_key_def distinct_map dest!: inj_onD)

text \<open>An update that keeps the key of every row, and opens none, keeps the index.\<close>

lemma dedupe_ok_update:
  assumes "dedupe_ok es" "\<And>e. ev_dedupe_key (f e) = ev_dedupe_key e"
    "\<And>e. e \<in> set es \<Longrightarrow> P e \<Longrightarrow> open_event (f e) \<Longrightarrow> open_event e"
  shows "dedupe_ok (update_where P f es)"
  using assms(1,3)
proof (induction es rule: rev_induct)
  case (snoc e es)
  have old: "\<exists>x \<in> set es. open_key k x" if "\<exists>x \<in> set (update_where P f es). open_key k x" for k
    using that snoc.prems(2) assms(2) by (auto simp: set_update_where open_key_def split: if_splits)
  from snoc show ?case using old assms(2) by (auto simp: dedupe_ok_snoc)
qed (simp add: dedupe_ok_def)

lemma dedupe_ok_filter: "dedupe_ok es \<Longrightarrow> dedupe_ok (filter P es)"
proof (induction es rule: rev_induct)
  case (snoc e es)
  then show ?case by (auto simp: dedupe_ok_snoc)
qed simp

lemma same_job_refl [simp]: "same_job r r"
  by (simp add: same_job_def)

end
