(* ===== verification/Db.thy ===== *)
theory Db
  imports Store_Tables "HOL-Library.State_Monad"
begin

text \<open>
  Programs over the shared database. Several processes (the API, the worker, the retention loop) use one
  database, so between two statements or transactions of one call anything another process commits can
  happen. The database is a parameter \<open>'s\<close>: the tables of events and attempts, or those of the console accounts
  together with the server's memory. A \<open>world\<close> is the store together with the writes of others, one entry per transaction of the call
  under consideration: \<open>atomic\<close> applies the next entry and then runs its transaction. The empty list of
  entries is a call that runs alone.

  \<open>keeps I m\<close> is the contract of a program \<open>m\<close> for an invariant \<open>I\<close>: if every write of the others preserves
  \<open>I\<close>, so does \<open>m\<close>, whatever the interleaving. \<open>ensures I m Q\<close> adds what its result says about the store.
\<close>

type_synonym 's world = "'s \<times> ('s \<Rightarrow> 's) list"
type_synonym ('s, 'a) prog = "('s world, 'a) state"
type_synonym 'a db = "(store, 'a) prog"

definition atomic :: "('s \<Rightarrow> 'a \<times> 's) \<Rightarrow> ('s, 'a) prog" where
  "atomic f =
     State (\<lambda>(st, es).
       case es of
         [] \<Rightarrow> (let (a, st') = f st in (a, (st', [])))
       | e # es' \<Rightarrow> (let (a, st') = f (e st) in (a, (st', es'))))"

definition query :: "('s \<Rightarrow> 'a) \<Rightarrow> ('s, 'a) prog" where
  "query f = atomic (\<lambda>st. (f st, st))"

text \<open>A transaction commits its new store or rolls back and answers an error.\<close>

definition commit :: "('s \<Rightarrow> ('a \<times> 's) result) \<Rightarrow> 's \<Rightarrow> 'a result \<times> 's" where
  "commit f st = (case f st of Inl e \<Rightarrow> (Inl e, st) | Inr (a, st') \<Rightarrow> (Inr a, st'))"

definition transact :: "('s \<Rightarrow> ('a \<times> 's) result) \<Rightarrow> ('s, 'a result) prog" where
  "transact f = atomic (commit f)"

definition run_alone :: "('s, 'a) prog \<Rightarrow> 's \<Rightarrow> 'a \<times> 's" where
  "run_alone m st = (let (a, (st', es)) = run_state m (st, []) in (a, st'))"

subsection \<open>Invariants of interleaved programs\<close>

definition rely :: "('s \<Rightarrow> bool) \<Rightarrow> ('s \<Rightarrow> 's) list \<Rightarrow> bool" where
  "rely I es = (\<forall>e \<in> set es. \<forall>st. I st \<longrightarrow> I (e st))"

definition ensures :: "('s \<Rightarrow> bool) \<Rightarrow> ('s, 'a) prog \<Rightarrow> ('a \<Rightarrow> bool) \<Rightarrow> bool" where
  "ensures I m Q =
     (\<forall>st es. I st \<longrightarrow> rely I es \<longrightarrow>
        (case run_state m (st, es) of (a, (st', es')) \<Rightarrow> I st' \<and> rely I es' \<and> Q a))"

definition keeps :: "('s \<Rightarrow> bool) \<Rightarrow> ('s, 'a) prog \<Rightarrow> bool" where
  "keeps I m = ensures I m (\<lambda>_. True)"

lemma rely_Nil [simp]: "rely I []"
  by (simp add: rely_def)

lemma ensures_return: "Q a \<Longrightarrow> ensures I (State_Monad.return a) Q"
  by (simp add: ensures_def State_Monad.return_def)

lemma ensures_bind:
  assumes "ensures I m Q" "\<And>a. Q a \<Longrightarrow> ensures I (k a) R"
  shows "ensures I (State_Monad.bind m k) R"
  unfolding ensures_def
proof (intro allI impI)
  fix st es assume s: "I st" "rely I es"
  obtain a st1 es1 where m: "run_state m (st, es) = (a, st1, es1)" using prod_cases3 by blast
  with assms(1) s have "I st1" "rely I es1" "Q a" by (fastforce simp: ensures_def)+
  with assms(2) [of a] show "case run_state (State_Monad.bind m k) (st, es) of (a, st', es') \<Rightarrow> I st' \<and> rely I es' \<and> R a"
    by (simp add: State_Monad.bind_def m ensures_def)
qed

lemma ensures_atomic:
  assumes "\<And>st. I st \<Longrightarrow> I (snd (f st)) \<and> Q (fst (f st))"
  shows "ensures I (atomic f) Q"
  unfolding ensures_def
proof (intro allI impI)
  fix st es assume "I st" "rely I es"
  then show "case run_state (atomic f) (st, es) of (a, st', es') \<Rightarrow> I st' \<and> rely I es' \<and> Q a"
    using assms [of st] assms [of "hd es st"] by (cases es) (auto simp: atomic_def rely_def case_prod_unfold Let_def)
qed

lemma ensures_query: "(\<And>st. I st \<Longrightarrow> Q (f st)) \<Longrightarrow> ensures I (query f) Q"
  by (simp add: query_def ensures_atomic)

lemma ensures_transact:
  assumes "\<And>st a st'. I st \<Longrightarrow> f st = Inr (a, st') \<Longrightarrow> I st' \<and> Q (Inr a)"
    and "\<And>st e. I st \<Longrightarrow> f st = Inl e \<Longrightarrow> Q (Inl e)"
  shows "ensures I (transact f) Q"
  unfolding transact_def
proof (rule ensures_atomic)
  fix st assume "I st"
  with assms show "I (snd (commit f st)) \<and> Q (fst (commit f st))"
    by (auto simp: commit_def split: sum.splits)
qed

lemma ensures_mono: "ensures I m Q \<Longrightarrow> (\<And>a. Q a \<Longrightarrow> R a) \<Longrightarrow> ensures I m R"
  by (fastforce simp: ensures_def)

lemma keeps_return: "keeps I (State_Monad.return a)"
  by (simp add: keeps_def ensures_return)

lemma keeps_bind: "keeps I m \<Longrightarrow> (\<And>a. keeps I (k a)) \<Longrightarrow> keeps I (State_Monad.bind m k)"
  unfolding keeps_def by (rule ensures_bind) simp_all

lemma keeps_query: "keeps I (query f)"
  by (simp add: keeps_def ensures_query)

lemma keeps_transact: "(\<And>st a st'. I st \<Longrightarrow> f st = Inr (a, st') \<Longrightarrow> I st') \<Longrightarrow> keeps I (transact f)"
  unfolding keeps_def by (rule ensures_transact) simp_all

lemma keeps_atomic: "(\<And>st. I st \<Longrightarrow> I (snd (f st))) \<Longrightarrow> keeps I (atomic f)"
  unfolding keeps_def by (rule ensures_atomic) simp

lemma ensures_keeps: "ensures I m Q \<Longrightarrow> keeps I m"
  unfolding keeps_def by (erule ensures_mono) simp

lemma keepsD: "keeps I m \<Longrightarrow> I st \<Longrightarrow> rely I es \<Longrightarrow> run_state m (st, es) = (a, st', es') \<Longrightarrow> I st'"
  by (fastforce simp: keeps_def ensures_def)

subsection \<open>Running alone\<close>

lemma run_alone_return [simp]: "run_alone (State_Monad.return a) st = (a, st)"
  by (simp add: run_alone_def State_Monad.return_def)

lemma run_state_alone: "run_state m (st, []) = (a, st', es') \<Longrightarrow> run_alone m st = (a, st')"
  by (simp add: run_alone_def)

text \<open>A program has run alone when nobody else wrote: the list of others' writes stays empty.\<close>

definition solo :: "('s, 'a) prog \<Rightarrow> bool" where
  "solo m = (\<forall>st. snd (snd (run_state m (st, []))) = [])"

lemma solo_return [simp]: "solo (State_Monad.return a)"
  by (simp add: solo_def State_Monad.return_def)

lemma solo_atomic [simp]: "solo (atomic f)"
  by (simp add: solo_def atomic_def split: prod.splits)

lemma solo_query [simp]: "solo (query f)"
  by (simp add: query_def)

lemma solo_transact [simp]: "solo (transact f)"
  by (simp add: transact_def)

lemma run_alone_atomic [simp]: "run_alone (atomic f) st = f st"
  by (simp add: run_alone_def atomic_def split: prod.splits)

lemma run_alone_query [simp]: "run_alone (query f) st = (f st, st)"
  by (simp add: query_def)

lemma run_alone_transact [simp]: "run_alone (transact f) st = commit f st"
  by (simp add: transact_def)

lemma solo_run: "solo m \<Longrightarrow> run_state m (st, []) = (fst (run_alone m st), snd (run_alone m st), [])"
  by (simp add: run_alone_def solo_def split: prod.splits) (metis prod.collapse snd_conv)

lemma run_alone_bind:
  "solo m \<Longrightarrow> run_alone (State_Monad.bind m k) st = run_alone (k (fst (run_alone m st))) (snd (run_alone m st))"
  by (subst run_alone_def) (simp add: State_Monad.bind_def solo_run run_alone_def [of "k _"])

lemma run_alone_map: "run_alone (State_Monad.bind m (\<lambda>a. State_Monad.return (f a))) st = (f (fst (run_alone m st)), snd (run_alone m st))"
  by (simp add: run_alone_def State_Monad.bind_def State_Monad.return_def split: prod.split)

lemma solo_bind: "solo m \<Longrightarrow> (\<And>a. solo (k a)) \<Longrightarrow> solo (State_Monad.bind m k)"
  by (simp add: solo_def State_Monad.bind_def split: prod.splits) (metis snd_conv)

end
