(* ===== verification/Store_Events.thy ===== *)
theory Store_Events
  imports Db
begin

text \<open>
  The event half of \<^verbatim>\<open>sql_store.go\<close>: reading events, creating an event with its delivery attempts,
  the conditional state transition and the refresh of an open incident. A function that is one
  transaction or statement of the source is a function on the store; the methods that issue several
  are programs over \<open>db\<close> built from them.
\<close>

subsection \<open>Types of the interface\<close>

record EventUpdate =
  eu_severity :: Severity
  eu_message :: string
  eu_payload :: string
  eu_last_seen_at :: time
  eu_alerts_on_rise :: "DeliveryAttempt list"

record StateChange =
  sc_from :: EventState
  sc_to :: EventState
  sc_at :: time
  sc_recovery_max_attempts :: int
  sc_cancel_alerts :: bool

subsection \<open>Reading\<close>

definition event_by_id :: "store \<Rightarrow> string \<Rightarrow> Event option" where
  "event_by_id st i = find (\<lambda>e. ev_id e = i) (st_events st)"

definition get_event :: "string \<Rightarrow> store \<Rightarrow> Event result" where
  "get_event i st = (case event_by_id st i of Some e \<Rightarrow> Inr (scanEvent e) | None \<Rightarrow> Inl ErrNotFound)"

definition event_by_dedupe :: "string \<Rightarrow> store \<Rightarrow> Event result" where
  "event_by_dedupe key st =
     (case find (open_key key) (st_events st) of Some e \<Rightarrow> Inr (scanEvent e) | None \<Rightarrow> Inl ErrNotFound)"

text \<open>\<^verbatim>\<open>ORDER BY created_at DESC, id DESC LIMIT 1\<close> is the last row in ascending order.\<close>

definition newest_first :: "Event list \<Rightarrow> Event list" where
  "newest_first es = rev (sort_key (\<lambda>e. (ev_created_at e, ev_id e)) es)"

definition latest_event_by_dedupe :: "string \<Rightarrow> store \<Rightarrow> Event result" where
  "latest_event_by_dedupe key st =
     (case newest_first (filter (\<lambda>e. ev_dedupe_key e = key) (st_events st)) of
        e # _ \<Rightarrow> Inr (scanEvent e) | [] \<Rightarrow> Inl ErrNotFound)"

definition GetEvent :: "string \<Rightarrow> Event result db" where
  "GetEvent i = query (get_event i)"

definition EventByDedupe :: "string \<Rightarrow> Event result db" where
  "EventByDedupe key =
     (if key = [] then State_Monad.return (Inl ErrNotFound)
      else do {
        r \<leftarrow> query (event_by_dedupe key);
        if r = Inl ErrNotFound then query (latest_event_by_dedupe key) else State_Monad.return r
      })"

subsection \<open>Creating\<close>

definition create_tx :: "Event \<Rightarrow> DeliveryAttempt list \<Rightarrow> store \<Rightarrow> (unit \<times> store) result" where
  "create_tx e deliveries st =
     (case insertEvent e st of
        Inl x \<Rightarrow> Inl x
      | Inr st1 \<Rightarrow> (case insertDeliveries deliveries st1 of Inl x \<Rightarrow> Inl x | Inr st2 \<Rightarrow> Inr ((), st2)))"

text \<open>
  A unique violation of a delivery row is returned as it is: only the insert of the event is followed by
  the second lookup. \<open>event_refused\<close> tells the two apart in the store the transaction ran on.
\<close>

definition event_refused :: "Event \<Rightarrow> store \<Rightarrow> bool" where
  "event_refused e st = (case insertEvent e st of Inl x \<Rightarrow> isUniqueViolation x | Inr _ \<Rightarrow> False)"

definition create_tx_refused :: "Event \<Rightarrow> DeliveryAttempt list \<Rightarrow> store \<Rightarrow> (unit result \<times> bool) \<times> store" where
  "create_tx_refused e deliveries st =
     (let (r, st') = commit (create_tx e deliveries) st in ((r, event_refused e st), st'))"

definition CreateEventWithDeliveries :: "Event \<Rightarrow> DeliveryAttempt list \<Rightarrow> (Event \<times> bool) result db" where
  "CreateEventWithDeliveries e deliveries = do {
     existing \<leftarrow> (if ev_dedupe_key e \<noteq> [] then query (event_by_dedupe (ev_dedupe_key e))
                 else State_Monad.return (Inl ErrNotFound));
     (case existing of
        Inr x \<Rightarrow> State_Monad.return (Inr (x, False))
      | Inl err \<Rightarrow>
          if err \<noteq> ErrNotFound then State_Monad.return (Inl err)
          else do {
            (r, refused) \<leftarrow> atomic (create_tx_refused e deliveries);
            (case r of
               Inr _ \<Rightarrow> State_Monad.return (Inr (e, True))
             | Inl err \<Rightarrow>
                 if ev_dedupe_key e \<noteq> [] \<and> refused then do {
                   again \<leftarrow> query (event_by_dedupe (ev_dedupe_key e));
                   State_Monad.return (case again of Inr x \<Rightarrow> Inr (x, False) | Inl _ \<Rightarrow> Inl err)
                 }
                 else State_Monad.return (Inl err))
          })
   }"

subsection \<open>Recovery notices\<close>

definition alertsToRecover :: "string \<Rightarrow> store \<Rightarrow> delivery_row list" where
  "alertsToRecover eventID st =
     sort_key (\<lambda>r. (dr_created_at r, dr_id r))
       (filter (\<lambda>r. dr_event_id r = eventID \<and> dr_kind r = KindAlert \<and> dr_state r \<noteq> DeliveryCancelled) (st_attempts st))"

definition recoveryOf :: "string \<Rightarrow> string \<Rightarrow> string \<Rightarrow> ChannelType \<Rightarrow> string \<Rightarrow> int \<Rightarrow> time \<Rightarrow> DeliveryAttempt" where
  "recoveryOf newID alertID eventID channel channelName maxAttempts at =
     \<lparr>da_id = newID, da_event_id = eventID, da_channel = channel, da_channel_name = channelName,
      da_kind = KindRecovery, da_state = DeliveryPending, da_attempts = 0, da_max_attempts = maxAttempts,
      da_next_retry_at = None, da_last_error = [], da_created_at = at, da_updated_at = at,
      da_fallback_of = None, da_fallback_to = None, da_recovery_for = Some (bare_link alertID)\<rparr>"

text \<open>The \<open>i\<close>-th recovery of the loop takes the identifier \<open>ids i\<close>.\<close>

definition recoveries :: "(nat \<Rightarrow> string) \<Rightarrow> string \<Rightarrow> int \<Rightarrow> time \<Rightarrow> delivery_row list \<Rightarrow> DeliveryAttempt list" where
  "recoveries ids eventID maxAttempts at alerts =
     map (\<lambda>(i, a). recoveryOf (ids i) (dr_id a) eventID (dr_channel a) (dr_channel_name a) maxAttempts at)
         (enumerate 0 alerts)"

subsection \<open>The state transition\<close>

definition set_state :: "StateChange \<Rightarrow> Event \<Rightarrow> Event" where
  "set_state c e =
     e\<lparr>ev_state := sc_to c, ev_updated_at := sc_at c,
       ev_resolved_at := (if sc_to c = StateResolved then Some (sc_at c) else None)\<rparr>"

definition cancel_alert :: "time \<Rightarrow> delivery_row \<Rightarrow> delivery_row" where
  "cancel_alert at r = r\<lparr>dr_state := DeliveryCancelled, dr_next_retry_at := None, dr_updated_at := at\<rparr>"

definition waiting_alert :: "string \<Rightarrow> delivery_row \<Rightarrow> bool" where
  "waiting_alert i r =
     (dr_event_id r = i \<and> dr_kind r = KindAlert \<and> (dr_state r = DeliveryPending \<or> dr_state r = DeliveryFailed))"

definition transition_tx :: "(nat \<Rightarrow> string) \<Rightarrow> string \<Rightarrow> StateChange \<Rightarrow> store \<Rightarrow> (Event \<times> store) result" where
  "transition_tx ids i c st =
     (case find (\<lambda>e. ev_id e = i \<and> ev_state e = sc_from c) (st_events st) of
        None \<Rightarrow> Inl ErrStateChanged
      | Some old \<Rightarrow>
         (let events' = update_where (\<lambda>e. ev_id e = i \<and> ev_state e = sc_from c) (set_state c) (st_events st) in
          if \<not> dedupe_ok events' then Inl ErrUniqueViolation
          else
            let st1 = st\<lparr>st_events := events'\<rparr>;
                st2 = (if sc_cancel_alerts c
                       then st1\<lparr>st_attempts := update_where (waiting_alert i) (cancel_alert (sc_at c)) (st_attempts st1)\<rparr>
                       else st1) in
            (if sc_recovery_max_attempts c > 0
             then (case insertDeliveries (recoveries ids i (sc_recovery_max_attempts c) (sc_at c) (alertsToRecover i st2)) st2 of
                     Inl x \<Rightarrow> Inl x
                   | Inr st3 \<Rightarrow> Inr (scanEvent (set_state c old), st3))
             else Inr (scanEvent (set_state c old), st2))))"

definition TransitionEvent :: "(nat \<Rightarrow> string) \<Rightarrow> string \<Rightarrow> StateChange \<Rightarrow> Event result db" where
  "TransitionEvent ids i c = transact (transition_tx ids i c)"

subsection \<open>The refresh of an open incident\<close>

definition alertChannelNames :: "string \<Rightarrow> store \<Rightarrow> string list" where
  "alertChannelNames eventID st =
     map dr_channel_name (filter (\<lambda>r. dr_event_id r = eventID \<and> dr_kind r = KindAlert) (st_attempts st))"

definition insertMissingAlerts :: "string \<Rightarrow> DeliveryAttempt list \<Rightarrow> store \<Rightarrow> store result" where
  "insertMissingAlerts eventID alerts st =
     (let alerted = alertChannelNames eventID st in
      insertDeliveries (filter (\<lambda>d. da_channel_name d \<notin> set alerted) alerts) st)"

definition refresh_event :: "EventUpdate \<Rightarrow> Event \<Rightarrow> Event" where
  "refresh_event u e =
     e\<lparr>ev_severity := eu_severity u, ev_message := eu_message u,
       ev_payload := (if eu_payload u = [] then ''{}'' else eu_payload u),
       ev_last_seen_at := eu_last_seen_at u, ev_updated_at := eu_last_seen_at u\<rparr>"

definition refresh_tx :: "string \<Rightarrow> EventUpdate \<Rightarrow> store \<Rightarrow> (Event \<times> store) result" where
  "refresh_tx i u st =
     (case find (\<lambda>e. ev_id e = i \<and> open_event e) (st_events st) of
        None \<Rightarrow> Inl ErrNotFound
      | Some old \<Rightarrow>
         (let st1 = st\<lparr>st_events := update_where (\<lambda>e. ev_id e = i) (refresh_event u) (st_events st)\<rparr>;
              e = scanEvent (refresh_event u old) in
          if eu_alerts_on_rise u \<noteq> [] \<and> ev_state old \<noteq> StateMuted \<and> SeverityRank (eu_severity u) > SeverityRank (ev_severity old)
          then (case insertMissingAlerts i (eu_alerts_on_rise u) st1 of Inl x \<Rightarrow> Inl x | Inr st2 \<Rightarrow> Inr (e, st2))
          else Inr (e, st1)))"

definition RefreshOpenEvent :: "string \<Rightarrow> EventUpdate \<Rightarrow> Event result db" where
  "RefreshOpenEvent i u = transact (refresh_tx i u)"

subsection \<open>Retention\<close>

text \<open>
  \<open>deleteBatched\<close>: batches of \<^verbatim>\<open>1000\<close> rows until one is short. The list \<open>polls\<close> says at each poll of the
  context whether it is cancelled: one poll before each batch and one after a full batch. Running out of
  polls is \<open>None\<close>. The subselect has no order, and the model takes the rows in table order. The statement
  is a parameter of the loop and answers the number of rows it removed.
\<close>

definition batch_size :: nat where
  "batch_size = 1000"

fun deleteBatched :: "bool list \<Rightarrow> (store \<Rightarrow> nat \<times> store) \<Rightarrow> nat \<Rightarrow> nat option db" where
  "deleteBatched [] stmt tot = State_Monad.return None"
| "deleteBatched (cancelled # polls) stmt tot =
     (if cancelled then State_Monad.return (Some tot)
      else do {
        n \<leftarrow> atomic stmt;
        if n < batch_size then State_Monad.return (Some (tot + n))
        else (case polls of
                [] \<Rightarrow> State_Monad.return None
              | cancelled' # polls' \<Rightarrow>
                  if cancelled' then State_Monad.return (Some (tot + n))
                  else deleteBatched polls' stmt (tot + n))
      })"

definition event_age :: "Event \<Rightarrow> time" where
  "event_age e = (case ev_resolved_at e of Some t \<Rightarrow> t | None \<Rightarrow> ev_last_seen_at e)"

definition first_ids :: "('r \<Rightarrow> string) \<Rightarrow> ('r \<Rightarrow> bool) \<Rightarrow> 'r list \<Rightarrow> string list" where
  "first_ids k P rows = map k (take batch_size (filter P rows))"

text \<open>One batch: the events go, and their attempts with them (\<^verbatim>\<open>ON DELETE CASCADE\<close>).\<close>

definition delete_events_stmt :: "time \<Rightarrow> store \<Rightarrow> nat \<times> store" where
  "delete_events_stmt cutoff st =
     (let ids = first_ids ev_id (\<lambda>e. event_age e < cutoff) (st_events st) in
      (length ids,
       st\<lparr>st_events := delete_where (\<lambda>e. ev_id e \<in> set ids) (st_events st),
          st_attempts := delete_where (\<lambda>r. dr_event_id r \<in> set ids) (st_attempts st)\<rparr>))"

definition DeleteEventsBefore :: "bool list \<Rightarrow> time \<Rightarrow> nat option db" where
  "DeleteEventsBefore polls cutoff = deleteBatched polls (delete_events_stmt cutoff) 0"

definition delete_orphans_stmt :: "time \<Rightarrow> store \<Rightarrow> nat \<times> store" where
  "delete_orphans_stmt cutoff st =
     (let ids = first_ids dr_id (\<lambda>r. dr_created_at r < cutoff \<and> \<not> event_exists st (dr_event_id r)) (st_attempts st) in
      (length ids, st\<lparr>st_attempts := delete_where (\<lambda>r. dr_id r \<in> set ids) (st_attempts st)\<rparr>))"

definition DeleteDeliveryAttemptsBefore :: "bool list \<Rightarrow> time \<Rightarrow> nat option db" where
  "DeleteDeliveryAttemptsBefore polls cutoff = deleteBatched polls (delete_orphans_stmt cutoff) 0"

end
