(* ===== verification/Store_Deliveries.thy ===== *)
theory Store_Deliveries
  imports Store_Events
begin

text \<open>
  The delivery half of \<^verbatim>\<open>sql_store.go\<close> and \<^verbatim>\<open>claim.go\<close>: the queue. \<open>claim_stmt\<close> is the
  claim of due attempts, \<open>mark_tx\<close> the write of an outcome with the fallback it may queue, \<open>Replay\<close> and
  \<open>requeue_stmt\<close> the two ways an attempt comes back to \<^verbatim>\<open>pending\<close>; the rest reads.
\<close>

subsection \<open>Reading attempts\<close>

definition attempt_by_id :: "store \<Rightarrow> string \<Rightarrow> delivery_row option" where
  "attempt_by_id st i = find (\<lambda>r. dr_id r = i) (st_attempts st)"

definition get_delivery_row :: "string \<Rightarrow> store \<Rightarrow> DeliveryAttempt result" where
  "get_delivery_row i st =
     (case attempt_by_id st i of Some r \<Rightarrow> Inr (scanDelivery r) | None \<Rightarrow> Inl ErrNotFound)"

definition row_link :: "delivery_row \<Rightarrow> AttemptLink" where
  "row_link r = \<lparr>al_id = dr_id r, al_channel_name = dr_channel_name r, al_state = dr_state r\<rparr>"

text \<open>
  \<open>linkAttempts\<close>: one query for the rows that a page refers to, folded into two maps in row order, the last
  row of a key winning. A missing key of a Go map reads as the zero value, here a link with empty fields.
\<close>

definition link_rows :: "DeliveryAttempt list \<Rightarrow> store \<Rightarrow> delivery_row list" where
  "link_rows items st =
     (let ids = map da_id items;
          sources = concat (map (\<lambda>d. (case da_fallback_of d of Some l \<Rightarrow> [al_id l] | None \<Rightarrow> []) @
                                     (case da_recovery_for d of Some l \<Rightarrow> [al_id l] | None \<Rightarrow> [])) items) in
      filter (\<lambda>r. (case dr_fallback_of r of Some i \<Rightarrow> i \<in> set ids | None \<Rightarrow> False) \<or> dr_id r \<in> set sources) (st_attempts st))"

definition fill_link :: "(string \<Rightarrow> AttemptLink option) \<Rightarrow> AttemptLink \<Rightarrow> AttemptLink" where
  "fill_link linked l =
     (case linked (al_id l) of
        Some x \<Rightarrow> l\<lparr>al_channel_name := al_channel_name x, al_state := al_state x\<rparr>
      | None \<Rightarrow> l\<lparr>al_channel_name := [], al_state := DeliveryStateOther []\<rparr>)"

definition linkAttempts :: "DeliveryAttempt list \<Rightarrow> store \<Rightarrow> DeliveryAttempt list" where
  "linkAttempts items st =
     (if items = [] then []
      else
        let rows = link_rows items st;
            linked = foldl (\<lambda>m r. m(dr_id r \<mapsto> row_link r)) Map.empty rows;
            to_map = foldl (\<lambda>m r. (case dr_fallback_of r of Some i \<Rightarrow> m(i \<mapsto> row_link r) | None \<Rightarrow> m)) Map.empty rows in
        map (\<lambda>d. d\<lparr>da_fallback_of := map_option (fill_link linked) (da_fallback_of d),
                   da_recovery_for := map_option (fill_link linked) (da_recovery_for d),
                   da_fallback_to := to_map (da_id d)\<rparr>) items)"

definition GetDeliveryAttempt :: "string \<Rightarrow> DeliveryAttempt result db" where
  "GetDeliveryAttempt i = do {
     r \<leftarrow> query (get_delivery_row i);
     (case r of
        Inl e \<Rightarrow> State_Monad.return (Inl e)
      | Inr d \<Rightarrow> do {
          items \<leftarrow> query (linkAttempts [d]);
          State_Monad.return (Inr (hd items))
        })
   }"

definition create_delivery_tx :: "DeliveryAttempt \<Rightarrow> store \<Rightarrow> (unit \<times> store) result" where
  "create_delivery_tx d st = map_sum id (\<lambda>st'. ((), st')) (insertDelivery d st)"

definition CreateDeliveryAttempt :: "DeliveryAttempt \<Rightarrow> unit result db" where
  "CreateDeliveryAttempt d = transact (create_delivery_tx d)"

subsection \<open>Claiming\<close>

definition alert_sent :: "store \<Rightarrow> string \<Rightarrow> bool" where
  "alert_sent st i = (\<exists>a \<in> set (st_attempts st). dr_id a = i \<and> dr_state a = DeliverySent)"

definition deliverableCond :: "store \<Rightarrow> time \<Rightarrow> delivery_row \<Rightarrow> bool" where
  "deliverableCond st now c =
     ((dr_state c = DeliveryPending \<or> dr_state c = DeliveryFailed) \<and>
      (case dr_next_retry_at c of None \<Rightarrow> True | Some t \<Rightarrow> t \<le> now) \<and>
      (dr_kind c \<noteq> KindRecovery \<or> (case dr_recovery_for c of None \<Rightarrow> True | Some i \<Rightarrow> alert_sent st i)))"

definition claim_limit :: "int \<Rightarrow> nat" where
  "claim_limit limit = nat (if limit \<le> 0 then 10 else limit)"

definition claim_ids :: "time \<Rightarrow> int \<Rightarrow> string list \<Rightarrow> store \<Rightarrow> string list" where
  "claim_ids now limit skipChannels st =
     map dr_id
       (take (claim_limit limit)
         (sort_key (\<lambda>c. (dr_created_at c, dr_id c))
           (filter (\<lambda>c. deliverableCond st now c \<and> dr_channel_name c \<notin> set skipChannels) (st_attempts st))))"

definition claim_row :: "time \<Rightarrow> delivery_row \<Rightarrow> delivery_row" where
  "claim_row now r = r\<lparr>dr_state := DeliverySending, dr_updated_at := now\<rparr>"

definition claim_stmt :: "time \<Rightarrow> int \<Rightarrow> string list \<Rightarrow> store \<Rightarrow> DeliveryAttempt list \<times> store" where
  "claim_stmt now limit skipChannels st =
     (let ids = claim_ids now limit skipChannels st;
          rows = update_where (\<lambda>r. dr_id r \<in> set ids) (claim_row now) (st_attempts st) in
      (map scanDelivery (filter (\<lambda>r. dr_id r \<in> set ids) rows), st\<lparr>st_attempts := rows\<rparr>))"

definition ClaimDue :: "time \<Rightarrow> int \<Rightarrow> string list \<Rightarrow> DeliveryAttempt list db" where
  "ClaimDue now limit skipChannels = atomic (claim_stmt now limit skipChannels)"

subsection \<open>Writing an outcome\<close>

definition event_muted :: "store \<Rightarrow> string \<Rightarrow> bool" where
  "event_muted st i = (case event_by_id st i of Some e \<Rightarrow> ev_state e = StateMuted | None \<Rightarrow> False)"

definition mutedAlertCond :: "store \<Rightarrow> delivery_row \<Rightarrow> bool" where
  "mutedAlertCond st r = (dr_kind r = KindAlert \<and> event_muted st (dr_event_id r))"

text \<open>
  \<open>queueFallback\<close> on the transaction's store. It answers the store and whether the copy was queued, which the
  caller reads off \<^verbatim>\<open>f.FallbackOf\<close>. \<open>newID\<close> is the identifier of the recovery it may add.
\<close>

definition queueFallback :: "string \<Rightarrow> string \<Rightarrow> DeliveryAttempt \<Rightarrow> store \<Rightarrow> (bool \<times> store) result" where
  "queueFallback newID sourceID f st =
     (let f' = f\<lparr>da_fallback_of := Some (bare_link sourceID)\<rparr> in
      if fallback_exists st sourceID then Inr (False, st)
      else (case insertDelivery f' st of
              Inl x \<Rightarrow> Inl x
            | Inr st1 \<Rightarrow>
               (case event_by_id st1 (da_event_id f) of
                  None \<Rightarrow> Inl ErrNoRows
                | Some e \<Rightarrow>
                    if ev_state e \<noteq> StateResolved then Inr (True, st1)
                    else if filter (\<lambda>r. dr_event_id r = da_event_id f \<and> dr_kind r = KindRecovery) (st_attempts st1) = []
                    then Inr (True, st1)
                    else (case insertDelivery
                                 (recoveryOf newID (da_id f) (da_event_id f) (da_channel f) (da_channel_name f)
                                    (da_max_attempts f) (da_created_at f)) st1 of
                            Inl x \<Rightarrow> Inl x
                          | Inr st2 \<Rightarrow> Inr (True, st2)))))"

definition mark_row :: "store \<Rightarrow> time \<Rightarrow> DeliveryAttempt \<Rightarrow> delivery_row \<Rightarrow> delivery_row" where
  "mark_row st at d r =
     (let muted = da_state d \<noteq> DeliverySent \<and> mutedAlertCond st r in
      r\<lparr>dr_state := (if muted then DeliveryCancelled else da_state d),
        dr_next_retry_at := (if muted then None else da_next_retry_at d),
        dr_attempts := da_attempts d,
        dr_last_error := TruncateRunes (da_last_error d) MaxLastErrorRunes,
        dr_updated_at := at\<rparr>)"

text \<open>
  \<open>MarkResult\<close>: \<open>now\<close> stands for \<^verbatim>\<open>time.Now()\<close>. The answer is the attempt as the caller sees it afterwards
  and whether its fallback was queued.
\<close>

definition mark_tx :: "time \<Rightarrow> string \<Rightarrow> DeliveryAttempt \<Rightarrow> DeliveryAttempt option \<Rightarrow> store \<Rightarrow> ((DeliveryAttempt \<times> bool) \<times> store) result" where
  "mark_tx now newID d fallback st =
     (let at = (if da_updated_at d = 0 then now else da_updated_at d) in
      case find (\<lambda>r. dr_id r = da_id d \<and> dr_state r = DeliverySending) (st_attempts st) of
        None \<Rightarrow> Inl ErrNotFound
      | Some r \<Rightarrow>
         (let r' = mark_row st at d r;
              st1 = st\<lparr>st_attempts := update_where (\<lambda>x. dr_id x = da_id d \<and> dr_state x = DeliverySending)
                                        (mark_row st at d) (st_attempts st)\<rparr>;
              d' = d\<lparr>da_state := dr_state r',
                     da_next_retry_at := (if dr_state r' = DeliveryCancelled then None else da_next_retry_at d)\<rparr> in
          case fallback of
            None \<Rightarrow> Inr ((d', False), st1)
          | Some f \<Rightarrow>
              if dr_state r' = DeliveryDeadLetter
              then (case queueFallback newID (da_id d) f st1 of
                      Inl x \<Rightarrow> Inl x
                    | Inr (queued, st2) \<Rightarrow> Inr ((d', queued), st2))
              else Inr ((d', False), st1)))"

definition MarkResult :: "time \<Rightarrow> string \<Rightarrow> DeliveryAttempt \<Rightarrow> DeliveryAttempt option \<Rightarrow> (DeliveryAttempt \<times> bool) result db" where
  "MarkResult now newID d fallback = transact (mark_tx now newID d fallback)"

subsection \<open>Back to pending\<close>

definition replay_row :: "time \<Rightarrow> delivery_row \<Rightarrow> delivery_row" where
  "replay_row at r =
     r\<lparr>dr_state := DeliveryPending, dr_attempts := 0, dr_next_retry_at := Some at, dr_last_error := [], dr_updated_at := at\<rparr>"

definition replay_stmt :: "string \<Rightarrow> time \<Rightarrow> store \<Rightarrow> nat \<times> store" where
  "replay_stmt i at st =
     (length (filter (\<lambda>r. dr_id r = i \<and> dr_state r = DeliveryDeadLetter) (st_attempts st)),
      st\<lparr>st_attempts := update_where (\<lambda>r. dr_id r = i \<and> dr_state r = DeliveryDeadLetter) (replay_row at) (st_attempts st)\<rparr>)"

definition Replay :: "string \<Rightarrow> time \<Rightarrow> DeliveryAttempt result db" where
  "Replay i at = do {
     r \<leftarrow> GetDeliveryAttempt i;
     (case r of
        Inl e \<Rightarrow> State_Monad.return (Inl e)
      | Inr current \<Rightarrow>
          if da_state current \<noteq> DeliveryDeadLetter then State_Monad.return (Inl ErrNotReplayable)
          else do {
            n \<leftarrow> atomic (replay_stmt i at);
            if n = 0 then State_Monad.return (Inl ErrNotReplayable) else GetDeliveryAttempt i
          })
   }"

definition requeue_row :: "store \<Rightarrow> time \<Rightarrow> delivery_row \<Rightarrow> delivery_row" where
  "requeue_row st now r =
     r\<lparr>dr_state := (if mutedAlertCond st r then DeliveryCancelled else DeliveryPending),
       dr_next_retry_at := (if mutedAlertCond st r then None else dr_next_retry_at r),
       dr_updated_at := now\<rparr>"

definition stuck :: "time \<Rightarrow> delivery_row \<Rightarrow> bool" where
  "stuck staleBefore r = (dr_state r = DeliverySending \<and> dr_updated_at r < staleBefore)"

definition requeue_stmt :: "time \<Rightarrow> time \<Rightarrow> store \<Rightarrow> nat \<times> store" where
  "requeue_stmt now staleBefore st =
     (length (filter (stuck staleBefore) (st_attempts st)),
      st\<lparr>st_attempts := update_where (stuck staleBefore) (requeue_row st now) (st_attempts st)\<rparr>)"

definition RequeueStuckSending :: "time \<Rightarrow> time \<Rightarrow> nat db" where
  "RequeueStuckSending now staleBefore = atomic (requeue_stmt now staleBefore)"

subsection \<open>Counts, monitoring and the heartbeat\<close>

definition countByColumn :: "('r \<Rightarrow> 'k) \<Rightarrow> 'r list \<Rightarrow> 'k \<Rightarrow> nat option" where
  "countByColumn column rows k =
     (let n = length (filter (\<lambda>r. column r = k) rows) in if n = 0 then None else Some n)"

definition CountEventsByState :: "store \<Rightarrow> EventState \<Rightarrow> nat option" where
  "CountEventsByState st = countByColumn ev_state (st_events st)"

definition CountDeliveriesByState :: "store \<Rightarrow> DeliveryState \<Rightarrow> nat option" where
  "CountDeliveriesByState st = countByColumn dr_state (st_attempts st)"

record Monitoring =
  mo_open_incidents :: nat
  mo_oldest_due_since :: "time option"
  mo_dead_letters :: nat
  mo_last_worker_tick :: "time option"

definition min_time :: "time list \<Rightarrow> time option" where
  "min_time ts = (case ts of [] \<Rightarrow> None | t # ts' \<Rightarrow> Some (foldl min t ts'))"

definition due_since :: "delivery_row \<Rightarrow> time" where
  "due_since c = (case dr_next_retry_at c of Some t \<Rightarrow> t | None \<Rightarrow> dr_created_at c)"

definition monitoring :: "time \<Rightarrow> time \<Rightarrow> store \<Rightarrow> Monitoring" where
  "monitoring now deadLetterSince st =
     \<lparr>mo_open_incidents = length (filter (\<lambda>e. ev_type e = EventIncident \<and> open_event e) (st_events st)),
      mo_oldest_due_since = min_time (map due_since (filter (deliverableCond st now) (st_attempts st))),
      mo_dead_letters =
        length (filter (\<lambda>r. dr_state r = DeliveryDeadLetter \<and> deadLetterSince \<le> dr_updated_at r) (st_attempts st)),
      mo_last_worker_tick = st_heartbeat st\<rparr>"

definition tick_stmt :: "time \<Rightarrow> store \<Rightarrow> unit \<times> store" where
  "tick_stmt at st =
     ((), case st_heartbeat st of
            None \<Rightarrow> st\<lparr>st_heartbeat := Some at\<rparr>
          | Some t \<Rightarrow> if t < at then st\<lparr>st_heartbeat := Some at\<rparr> else st)"

definition RecordWorkerTick :: "time \<Rightarrow> unit db" where
  "RecordWorkerTick at = atomic (tick_stmt at)"

end
