(* ===== verification/Store_Invariant.thy ===== *)
theory Store_Invariant
  imports Store_Deliveries
begin

text \<open>
  The invariant of the store under the write paths of the program, and the four ways a statement can change
  the tables: appending an attempt, rewriting attempts, rewriting events, deleting events with their
  attempts. Each has one lemma here; the operations of the store are then a few steps over them.

  Beyond the constraints of the schema the invariant says, for every attempt: the counters are in range, the
  stored error fits, a recovery belongs to a resolved incident and follows one alert of that incident to
  the same channel, it has not been touched by a worker unless that alert is \<^verbatim>\<open>sent\<close>, no two recoveries follow
  the same alert, and a fallback copy follows an alert that is no copy itself.
\<close>

subsection \<open>Definitions\<close>

definition active :: "DeliveryState \<Rightarrow> bool" where
  "active s = (s = DeliveryPending \<or> s = DeliveryFailed \<or> s = DeliverySending)"

definition counts_ok :: "delivery_row \<Rightarrow> bool" where
  "counts_ok r =
     (0 < dr_max_attempts r \<and> 0 \<le> dr_attempts r \<and> dr_attempts r \<le> dr_max_attempts r \<and>
      (active (dr_state r) \<longrightarrow> dr_attempts r < dr_max_attempts r) \<and>
      (dr_state r = DeliverySent \<longrightarrow> 0 < dr_attempts r))"

definition row_ok :: "delivery_row \<Rightarrow> bool" where
  "row_ok r =
     (counts_ok r \<and> ValidDeliveryState (dr_state r) \<and> ValidDeliveryKind (dr_kind r) \<and>
      int (RuneCountInString (dr_last_error r)) \<le> MaxLastErrorRunes \<and>
      (dr_recovery_for r = None \<longleftrightarrow> dr_kind r = KindAlert) \<and>
      (dr_fallback_of r \<noteq> None \<longrightarrow> dr_kind r = KindAlert) \<and>
      (dr_kind r = KindRecovery \<longrightarrow> dr_state r \<noteq> DeliveryCancelled))"

definition event_resolved :: "store \<Rightarrow> string \<Rightarrow> bool" where
  "event_resolved st i = (\<exists>e \<in> set (st_events st). ev_id e = i \<and> \<not> open_event e)"

definition touched :: "delivery_row \<Rightarrow> bool" where
  "touched r = (dr_state r \<noteq> DeliveryPending \<or> dr_attempts r \<noteq> 0)"

definition follows :: "store \<Rightarrow> delivery_row \<Rightarrow> delivery_row \<Rightarrow> bool" where
  "follows st r a =
     (dr_recovery_for r = Some (dr_id a) \<and> dr_kind a = KindAlert \<and> dr_event_id a = dr_event_id r \<and>
      dr_channel_name a = dr_channel_name r \<and> dr_state a \<noteq> DeliveryCancelled \<and>
      event_resolved st (dr_event_id r) \<and> (touched r \<longrightarrow> dr_state a = DeliverySent))"

definition recovery_ok :: "store \<Rightarrow> delivery_row \<Rightarrow> bool" where
  "recovery_ok st r = (dr_recovery_for r \<noteq> None \<longrightarrow> (\<exists>a \<in> set (st_attempts st). follows st r a))"

definition copies :: "delivery_row \<Rightarrow> delivery_row \<Rightarrow> bool" where
  "copies r a =
     (dr_fallback_of r = Some (dr_id a) \<and> dr_kind a = KindAlert \<and> dr_event_id a = dr_event_id r \<and> dr_fallback_of a = None)"

definition fallback_ok :: "store \<Rightarrow> delivery_row \<Rightarrow> bool" where
  "fallback_ok st r = (dr_fallback_of r \<noteq> None \<longrightarrow> (\<exists>a \<in> set (st_attempts st). copies r a))"

definition one_recovery :: "store \<Rightarrow> bool" where
  "one_recovery st =
     (\<forall>r \<in> set (st_attempts st). \<forall>r' \<in> set (st_attempts st).
        dr_recovery_for r = dr_recovery_for r' \<longrightarrow> dr_recovery_for r \<noteq> None \<longrightarrow> r = r')"

definition inv :: "store \<Rightarrow> bool" where
  "inv st =
     (wf_store st \<and> one_recovery st \<and>
      (\<forall>r \<in> set (st_attempts st). row_ok r \<and> recovery_ok st r \<and> fallback_ok st r))"

lemma inv_empty: "inv empty_store"
  by (simp add: inv_def wf_store_def keys_ok_def events_ok_def dedupe_ok_def one_recovery_def empty_store_def)

lemma invD:
  assumes "inv st"
  shows "distinct (map ev_id (st_events st))" "distinct (map dr_id (st_attempts st))"
    "dedupe_ok (st_events st)" "one_recovery st"
    "\<And>r. r \<in> set (st_attempts st) \<Longrightarrow> row_ok r" "\<And>r. r \<in> set (st_attempts st) \<Longrightarrow> recovery_ok st r"
    "\<And>r. r \<in> set (st_attempts st) \<Longrightarrow> fallback_ok st r"
    "\<And>r. r \<in> set (st_attempts st) \<Longrightarrow> event_exists st (dr_event_id r)"
    "\<And>e. e \<in> set (st_events st) \<Longrightarrow> ev_resolved_at e = None \<longleftrightarrow> open_event e"
    "\<And>e. e \<in> set (st_events st) \<Longrightarrow> ev_payload e \<noteq> []"
  using assms by (auto simp: inv_def wf_store_def keys_ok_def events_ok_def)

lemma recovery_alert_sent:
  assumes "inv st" "r \<in> set (st_attempts st)" "dr_recovery_for r = Some i" "touched r"
  shows "alert_sent st i"
  using invD(6) [OF assms(1,2)] assms(3,4) by (auto simp: recovery_ok_def follows_def alert_sent_def)

subsection \<open>Appending an attempt\<close>

lemma inv_append:
  assumes "inv st" "\<not> attempt_exists st (dr_id r)" "event_exists st (dr_event_id r)"
    "\<And>i. dr_fallback_of r = Some i \<Longrightarrow> \<not> fallback_exists st i" "row_ok r"
    "\<And>i. dr_recovery_for r = Some i \<Longrightarrow> (\<exists>a \<in> set (st_attempts st). follows st r a) \<and> (\<forall>x \<in> set (st_attempts st). dr_recovery_for x \<noteq> Some i)"
    "\<And>i. dr_fallback_of r = Some i \<Longrightarrow> \<exists>a \<in> set (st_attempts st). copies r a"
  shows "inv (st\<lparr>st_attempts := st_attempts st @ [r]\<rparr>)" (is "inv ?st'")
proof -
  have keys: "keys_ok ?st'"
    using assms(1-4) by (auto simp: inv_def wf_store_def keys_ok_def attempt_exists_def event_exists_def fallback_exists_def)
  have ev: "events_ok ?st'"
    using assms(1) by (simp add: inv_def wf_store_def events_ok_def)
  have one: "one_recovery ?st'"
    using assms(6) invD(4) [OF assms(1)] unfolding one_recovery_def by auto
  have fol: "follows ?st' x a = follows st x a" for x a
    by (simp add: follows_def event_resolved_def)
  have rec: "recovery_ok ?st' x" if "x \<in> set (st_attempts ?st')" for x
    using that assms(6) invD(6) [OF assms(1)] by (auto simp: recovery_ok_def fol)
  have fb: "fallback_ok ?st' x" if "x \<in> set (st_attempts ?st')" for x
    using that assms(7) invD(7) [OF assms(1)] by (auto simp: fallback_ok_def)
  have "row_ok x" if "x \<in> set (st_attempts ?st')" for x
    using that assms(5) invD(5) [OF assms(1)] by auto
  with keys ev one rec fb show ?thesis by (simp add: inv_def wf_store_def)
qed

subsection \<open>Rewriting attempts\<close>

definition row_step :: "store \<Rightarrow> delivery_row \<Rightarrow> delivery_row \<Rightarrow> bool" where
  "row_step st r r' =
     (same_job r r' \<and> row_ok r' \<and> (dr_state r = DeliverySent \<longrightarrow> dr_state r' = DeliverySent) \<and>
      (dr_state r' = DeliveryCancelled \<longrightarrow> dr_state r = DeliveryCancelled \<or> \<not> event_resolved st (dr_event_id r)) \<and>
      (\<forall>i. dr_recovery_for r = Some i \<longrightarrow> touched r' \<longrightarrow> touched r \<or> alert_sent st i))"

lemma same_jobD:
  assumes "same_job r r'"
  shows "dr_id r' = dr_id r" "dr_event_id r' = dr_event_id r" "dr_channel r' = dr_channel r"
    "dr_channel_name r' = dr_channel_name r" "dr_kind r' = dr_kind r" "dr_max_attempts r' = dr_max_attempts r"
    "dr_fallback_of r' = dr_fallback_of r" "dr_recovery_for r' = dr_recovery_for r"
  using assms by (auto simp: same_job_def)

lemma inv_update:
  assumes inv: "inv st" and step: "\<And>r. r \<in> set (st_attempts st) \<Longrightarrow> P r \<Longrightarrow> row_step st r (f r)"
  shows "inv (st\<lparr>st_attempts := update_where P f (st_attempts st)\<rparr>)" (is "inv ?st'")
proof -
  define g where "g r = (if P r then f r else r)" for r
  have rows: "st_attempts ?st' = map g (st_attempts st)"
    by (simp add: update_where_def g_def [abs_def])
  have job: "same_job r (g r)" if "r \<in> set (st_attempts st)" for r
    using step [OF that] by (simp add: g_def row_step_def)
  note jobD = same_jobD [OF job]
  have ids: "map dr_id (map g (st_attempts st)) = map dr_id (st_attempts st)"
    by (simp add: jobD(1))
  have "distinct (map dr_id (map g (st_attempts st)))" using invD(2) [OF inv] by (simp only: ids)
  then have keys: "keys_ok ?st'"
    using inv jobD by (auto simp: inv_def wf_store_def keys_ok_def rows event_exists_def)
  have ev: "events_ok ?st'"
    using inv by (simp add: inv_def wf_store_def events_ok_def)
  have one: "one_recovery ?st'"
    using invD(4) [OF inv] jobD(8) by (auto simp: one_recovery_def rows)
  have ok: "row_ok (g r)" if "r \<in> set (st_attempts st)" for r
    using step [OF that] invD(5) [OF inv that] by (simp add: g_def row_step_def)
  have fb: "fallback_ok ?st' (g r)" if "r \<in> set (st_attempts st)" for r
    using invD(7) [OF inv that] that jobD unfolding fallback_ok_def copies_def rows by fastforce
  have rec: "recovery_ok ?st' (g r)" if r: "r \<in> set (st_attempts st)" for r
  proof -
    have "\<exists>a \<in> set (st_attempts st). follows ?st' (g r) (g a)" if "dr_recovery_for r \<noteq> None"
    proof -
      from invD(6) [OF inv r] that obtain a where a: "a \<in> set (st_attempts st)" "follows st r a"
        by (auto simp: recovery_ok_def)
      have res: "event_resolved st (dr_event_id a)" using a(2) by (simp add: follows_def)
      have nc: "dr_state (g a) \<noteq> DeliveryCancelled"
        using a step [OF a(1)] res by (auto simp: g_def follows_def row_step_def)
      have "dr_state a = DeliverySent" if "touched (g r)"
      proof (cases "touched r")
        case True
        with a(2) show ?thesis by (simp add: follows_def)
      next
        case False
        with that have "P r" by (auto simp: g_def split: if_splits)
        with that False step [OF r] a(2) have "alert_sent st (dr_id a)"
          by (auto simp: g_def row_step_def follows_def)
        with a(1) show ?thesis
          using distinct_key_eq [OF invD(2) [OF inv]] by (auto simp: alert_sent_def)
      qed
      then have "dr_state (g a) = DeliverySent" if "touched (g r)"
        using that step [OF a(1)] by (auto simp: g_def row_step_def)
      with a nc res have "follows ?st' (g r) (g a)"
        using jobD [OF r] jobD [OF a(1)] by (auto simp: follows_def event_resolved_def)
      with a(1) show ?thesis by blast
    qed
    then show ?thesis using jobD(8) [OF r] by (auto simp: recovery_ok_def rows)
  qed
  show ?thesis
    using keys ev one ok fb rec by (auto simp: inv_def wf_store_def rows)
qed

subsection \<open>Rewriting events\<close>

lemma inv_events:
  assumes inv: "inv st" and id: "\<And>e. ev_id (f e) = ev_id e"
    and dd: "dedupe_ok (update_where P f (st_events st))"
    and keep: "\<And>e. e \<in> set (st_events st) \<Longrightarrow> P e \<Longrightarrow>
        (ev_resolved_at (f e) = None \<longleftrightarrow> open_event (f e)) \<and> ev_payload (f e) \<noteq> [] \<and> (open_event (f e) \<longrightarrow> open_event e)"
  shows "inv (st\<lparr>st_events := update_where P f (st_events st)\<rparr>)" (is "inv ?st'")
proof -
  have ex: "event_exists ?st' i = event_exists st i" for i
    using id by (auto simp: event_exists_def set_update_where)
  have res: "event_resolved ?st' i" if r: "event_resolved st i" for i
  proof -
    from r obtain e where e: "e \<in> set (st_events st)" "ev_id e = i" "\<not> open_event e"
      by (auto simp: event_resolved_def)
    then have "(if P e then f e else e) \<in> set (st_events ?st')" by (simp add: update_where_def image_iff) blast
    with e keep [OF e(1)] id show ?thesis unfolding event_resolved_def by (metis (full_types))
  qed
  have keys: "keys_ok ?st'"
    using inv by (simp add: inv_def wf_store_def keys_ok_def ex map_update_where id)
  have ev: "events_ok ?st'"
    using dd keep invD(9,10) [OF inv] by (auto simp: events_ok_def set_update_where)
  have fol: "follows st r a \<Longrightarrow> follows ?st' r a" for r a
    using res by (simp add: follows_def)
  have "recovery_ok ?st' r" if "r \<in> set (st_attempts st)" for r
    using invD(6) [OF inv that] fol by (auto simp: recovery_ok_def)
  moreover have "one_recovery ?st'" using invD(4) [OF inv] by (simp add: one_recovery_def)
  moreover have "fallback_ok ?st' r" if "r \<in> set (st_attempts st)" for r
    using invD(7) [OF inv that] by (simp add: fallback_ok_def)
  ultimately show ?thesis
    using keys ev invD(5) [OF inv] by (simp add: inv_def wf_store_def)
qed

subsection \<open>Deleting\<close>

lemma inv_delete_events:
  assumes inv: "inv st"
  shows "inv (st\<lparr>st_events := delete_where (\<lambda>e. ev_id e \<in> X) (st_events st),
                st_attempts := delete_where (\<lambda>r. dr_event_id r \<in> X) (st_attempts st)\<rparr>)" (is "inv ?st'")
proof -
  have keys: "keys_ok ?st'"
    using inv unfolding inv_def wf_store_def keys_ok_def event_exists_def
    by (auto simp: distinct_map_delete_where) metis
  have ev: "events_ok ?st'"
    using inv by (auto simp: inv_def wf_store_def events_ok_def delete_where_def dedupe_ok_filter)
  have res: "event_resolved ?st' i" if "event_resolved st i" "i \<notin> X" for i
    using that by (auto simp: event_resolved_def)
  have "recovery_ok ?st' r" if r: "r \<in> set (st_attempts st)" "dr_event_id r \<notin> X" for r
    unfolding recovery_ok_def
  proof
    assume "dr_recovery_for r \<noteq> None"
    with invD(6) [OF inv r(1)] obtain a where "a \<in> set (st_attempts st)" "follows st r a"
      by (auto simp: recovery_ok_def)
    with r(2) res have "a \<in> set (st_attempts ?st')" "follows ?st' r a" by (auto simp: follows_def)
    then show "\<exists>a \<in> set (st_attempts ?st'). follows ?st' r a" by blast
  qed
  moreover have "fallback_ok ?st' r" if "r \<in> set (st_attempts st)" "dr_event_id r \<notin> X" for r
    using invD(7) [OF inv that(1)] that(2) by (auto simp: fallback_ok_def copies_def)
  moreover have "one_recovery ?st'" using invD(4) [OF inv] by (simp add: one_recovery_def)
  ultimately show ?thesis
    using keys ev invD(5) [OF inv] by (auto simp: inv_def wf_store_def)
qed

end
