(* ===== verification/Store_Preserve.thy ===== *)
theory Store_Preserve
  imports Store_Invariant
begin

text \<open>
  Every transaction and statement of the store preserves the invariant, given what its callers pass: alerts
  that are new, a state change that does not start from \<^verbatim>\<open>resolved\<close>, and an outcome that stays within the
  attempt's budget. The services and the worker discharge these conditions.
\<close>

subsection \<open>What the callers pass\<close>

definition new_alert :: "DeliveryAttempt \<Rightarrow> bool" where
  "new_alert d =
     (OrAlert (da_kind d) = KindAlert \<and> da_state d = DeliveryPending \<and> da_attempts d = 0 \<and> 0 < da_max_attempts d \<and>
      da_last_error d = [] \<and> da_fallback_of d = None \<and> da_recovery_for d = None)"

definition new_event :: "Event \<Rightarrow> bool" where
  "new_event e = (open_event e \<and> ev_resolved_at e = None)"

definition valid_change :: "StateChange \<Rightarrow> bool" where
  "valid_change c =
     (sc_from c \<noteq> StateResolved \<and> (0 < sc_recovery_max_attempts c \<longrightarrow> sc_to c = StateResolved) \<and>
      (sc_cancel_alerts c \<longleftrightarrow> sc_to c = StateMuted))"

definition outcome_ok :: "DeliveryAttempt \<Rightarrow> delivery_row \<Rightarrow> bool" where
  "outcome_ok d r =
     ((da_state d = DeliverySent \<or> da_state d = DeliveryFailed \<or> da_state d = DeliveryDeadLetter \<or> da_state d = DeliveryPending) \<and>
      0 \<le> da_attempts d \<and> da_attempts d \<le> dr_max_attempts r \<and>
      (active (da_state d) \<longrightarrow> da_attempts d < dr_max_attempts r) \<and>
      (da_state d = DeliverySent \<longrightarrow> 0 < da_attempts d))"

definition fallback_for :: "DeliveryAttempt \<Rightarrow> delivery_row \<Rightarrow> bool" where
  "fallback_for f r =
     (new_alert f \<and> da_event_id f = dr_event_id r \<and> dr_kind r = KindAlert \<and> dr_fallback_of r = None)"

definition claimed_row :: "store \<Rightarrow> string \<Rightarrow> delivery_row \<Rightarrow> bool" where
  "claimed_row st i r = (r \<in> set (st_attempts st) \<and> dr_id r = i \<and> dr_state r = DeliverySending)"

subsection \<open>Inserts\<close>

lemma deliveryArgs_simps [simp]:
  "dr_id (deliveryArgs d) = da_id d" "dr_event_id (deliveryArgs d) = da_event_id d"
  "dr_kind (deliveryArgs d) = OrAlert (da_kind d)" "dr_state (deliveryArgs d) = da_state d"
  "dr_channel_name (deliveryArgs d) = da_channel_name d" "dr_channel (deliveryArgs d) = da_channel d"
  "dr_attempts (deliveryArgs d) = da_attempts d" "dr_max_attempts (deliveryArgs d) = da_max_attempts d"
  "dr_last_error (deliveryArgs d) = da_last_error d"
  "dr_fallback_of (deliveryArgs d) = map_option al_id (da_fallback_of d)"
  "dr_recovery_for (deliveryArgs d) = map_option al_id (da_recovery_for d)"
  "dr_next_retry_at (deliveryArgs d) = da_next_retry_at d"
  "dr_created_at (deliveryArgs d) = da_created_at d"
  by (simp_all add: deliveryArgs_def)

lemma bare_link_id [simp]: "al_id (bare_link i) = i"
  by (simp add: bare_link_def)

lemma runes_Nil_count [simp]: "RuneCountInString [] = 0"
  by (simp add: RuneCountInString_def runes.simps)

lemma new_alert_row_ok: "new_alert d \<Longrightarrow> row_ok (deliveryArgs d)"
  by (simp add: new_alert_def row_ok_def counts_ok_def ValidDeliveryState_def ValidDeliveryKind_def MaxLastErrorRunes_def)

lemma inv_insertDelivery:
  assumes "inv st" "insertDelivery d st = Inr st'" "new_alert d"
  shows "inv st'"
  using inv_append [OF assms(1) _ _ _ new_alert_row_ok [OF assms(3)]] insertDelivery_InrD [OF assms(2)] assms(3)
  by (auto simp: new_alert_def)

lemma inv_insertDeliveries:
  "inv st \<Longrightarrow> insertDeliveries ds st = Inr st' \<Longrightarrow> \<forall>d \<in> set ds. new_alert d \<Longrightarrow> inv st'"
  by (induction ds arbitrary: st) (auto split: sum.splits dest: inv_insertDelivery)

lemma inv_insertEvent:
  assumes "inv st" "insertEvent e st = Inr st'" "new_event e"
  shows "inv st'"
proof -
  note I = insertEvent_InrD [OF assms(2)]
  have ex: "event_exists st i \<Longrightarrow> event_exists st' i" for i by (auto simp: I(1) event_exists_def)
  have "keys_ok st'"
    using assms(1) I(2) ex by (auto simp: inv_def wf_store_def keys_ok_def I(1) event_exists_def)
  moreover have "events_ok st'"
    using assms(1,3) I(3) by (auto simp: inv_def wf_store_def events_ok_def I(1) dedupe_ok_snoc new_event_def)
  moreover have "event_resolved st i \<Longrightarrow> event_resolved st' i" for i by (auto simp: I(1) event_resolved_def)
  then have "recovery_ok st' r" if "recovery_ok st r" for r
    using that by (auto simp: recovery_ok_def follows_def I(1))
  ultimately show ?thesis
    using assms(1) by (auto simp: inv_def wf_store_def one_recovery_def fallback_ok_def I(1))
qed

lemma inv_create_tx:
  assumes "inv st" "create_tx e ds st = Inr (u, st')" "new_event e" "\<forall>d \<in> set ds. new_alert d"
  shows "inv st'"
  using assms by (auto simp: create_tx_def split: sum.splits dest: inv_insertEvent inv_insertDeliveries)

subsection \<open>The state transition\<close>

lemma event_unique:
  "inv st \<Longrightarrow> e \<in> set (st_events st) \<Longrightarrow> e' \<in> set (st_events st) \<Longrightarrow> ev_id e = ev_id e' \<Longrightarrow> e = e'"
  using distinct_key_eq [OF invD(1)] by blast

lemma attempt_unique:
  "inv st \<Longrightarrow> r \<in> set (st_attempts st) \<Longrightarrow> r' \<in> set (st_attempts st) \<Longrightarrow> dr_id r = dr_id r' \<Longrightarrow> r = r'"
  using distinct_key_eq [OF invD(2)] by blast

lemma open_not_resolved:
  "inv st \<Longrightarrow> e \<in> set (st_events st) \<Longrightarrow> open_event e \<Longrightarrow> \<not> event_resolved st (ev_id e)"
  using event_unique by (fastforce simp: event_resolved_def)

lemma row_ok_cancel:
  "row_ok r \<Longrightarrow> dr_kind r = KindAlert \<Longrightarrow> row_ok (cancel_alert at r)"
  by (auto simp: row_ok_def counts_ok_def cancel_alert_def active_def ValidDeliveryState_def)

lemma inv_cancel:
  assumes "inv st" "\<not> event_resolved st i"
  shows "inv (st\<lparr>st_attempts := update_where (waiting_alert i) (cancel_alert at) (st_attempts st)\<rparr>)"
proof (rule inv_update [OF assms(1)])
  fix r assume r: "r \<in> set (st_attempts st)" "waiting_alert i r"
  then have "row_ok (cancel_alert at r)"
    using row_ok_cancel invD(5) [OF assms(1)] by (simp add: waiting_alert_def)
  with r assms(2) invD(5) [OF assms(1) r(1)] show "row_step st r (cancel_alert at r)"
    by (auto simp: row_step_def waiting_alert_def same_job_def cancel_alert_def row_ok_def)
qed

text \<open>The loop that inserts the recoveries, one alert at a time.\<close>

lemma inv_recovery_insert:
  assumes inv: "inv st" and a: "a \<in> set (st_attempts st)" "dr_kind a = KindAlert" "dr_state a \<noteq> DeliveryCancelled"
    and res: "event_resolved st (dr_event_id a)" and m: "0 < m"
    and new: "\<forall>x \<in> set (st_attempts st). dr_recovery_for x \<noteq> Some (dr_id a)"
    and ins: "insertDelivery (recoveryOf i (dr_id a) (dr_event_id a) ch (dr_channel_name a) m at) st = Inr st'"
  shows "inv st'"
proof -
  let ?r = "deliveryArgs (recoveryOf i (dr_id a) (dr_event_id a) ch (dr_channel_name a) m at)"
  have ok: "row_ok ?r"
    using m by (simp add: recoveryOf_def row_ok_def counts_ok_def ValidDeliveryState_def ValidDeliveryKind_def
        MaxLastErrorRunes_def active_def)
  have "follows st ?r a" using a res by (simp add: follows_def recoveryOf_def touched_def)
  with a(1) new have rec: "\<And>j. dr_recovery_for ?r = Some j \<Longrightarrow>
      (\<exists>a \<in> set (st_attempts st). follows st ?r a) \<and> (\<forall>x \<in> set (st_attempts st). dr_recovery_for x \<noteq> Some j)"
    by (auto simp: recoveryOf_def)
  note I = insertDelivery_InrD [OF ins]
  have "inv (st\<lparr>st_attempts := st_attempts st @ [?r]\<rparr>)"
    by (rule inv_append [OF inv _ _ _ ok rec]) (use I in \<open>auto simp: recoveryOf_def\<close>)
  with I(1) show ?thesis by simp
qed

lemma inv_recoveries:
  assumes "inv st" "event_resolved st i" "0 < m" "distinct (map dr_id as)"
    "\<forall>a \<in> set as. a \<in> set (st_attempts st) \<and> dr_event_id a = i \<and> dr_kind a = KindAlert \<and> dr_state a \<noteq> DeliveryCancelled \<and>
       (\<forall>x \<in> set (st_attempts st). dr_recovery_for x \<noteq> Some (dr_id a))"
    "insertDeliveries (map (\<lambda>(k, a). recoveryOf (ids k) (dr_id a) i (dr_channel a) (dr_channel_name a) m at) (enumerate n as)) st = Inr st'"
  shows "inv st'"
  using assms
proof (induction as arbitrary: st n)
  case (Cons a as)
  let ?d = "recoveryOf (ids n) (dr_id a) i (dr_channel a) (dr_channel_name a) m at"
  from Cons.prems(6) obtain st1 where ins: "insertDelivery ?d st = Inr st1"
    and rest: "insertDeliveries (map (\<lambda>(k, a). recoveryOf (ids k) (dr_id a) i (dr_channel a) (dr_channel_name a) m at) (enumerate (Suc n) as)) st1 = Inr st'"
    by (auto split: sum.splits)
  have ai: "dr_event_id a = i" using Cons.prems(5) by simp
  have "inv st1"
    using inv_recovery_insert [OF Cons.prems(1), of a m "ids n" "dr_channel a" at st1] Cons.prems(2,3,5) ins ai by auto
  moreover note st1 = insertDelivery_InrD(1) [OF ins]
  moreover have "event_resolved st1 i" using Cons.prems(2) by (simp add: st1 event_resolved_def)
  moreover have "dr_id b \<noteq> dr_id a" if "b \<in> set as" for b using Cons.prems(4) that by (metis distinct.simps(2) image_eqI list.set_map list.simps(9))
  ultimately show ?case
    using Cons.IH [of st1 "Suc n"] Cons.prems(3-5) rest by (auto simp: st1 recoveryOf_def)
qed simp

lemma inv_transition_tx:
  assumes inv: "inv st" and c: "valid_change c" and t: "transition_tx ids i c st = Inr (e, st')"
  shows "inv st'"
proof -
  define P where "P e = (ev_id e = i \<and> ev_state e = sc_from c)" for e :: Event
  define st1 where "st1 = st\<lparr>st_events := update_where P (set_state c) (st_events st)\<rparr>"
  define st2 where "st2 = (if sc_cancel_alerts c
      then st1\<lparr>st_attempts := update_where (waiting_alert i) (cancel_alert (sc_at c)) (st_attempts st1)\<rparr> else st1)"
  from t obtain old where old: "find P (st_events st) = Some old" and dd: "dedupe_ok (update_where P (set_state c) (st_events st))"
    and r: "if 0 < sc_recovery_max_attempts c
       then insertDeliveries (recoveries ids i (sc_recovery_max_attempts c) (sc_at c) (alertsToRecover i st2)) st2 = Inr st'
       else st' = st2"
    by (auto simp: transition_tx_def Let_def P_def [abs_def] st1_def st2_def split: option.splits sum.splits if_splits)
  from old have o: "old \<in> set (st_events st)" "ev_id old = i" "ev_state old = sc_from c"
    by (auto dest: find_SomeD simp: P_def)
  with c have closed: "\<not> event_resolved st i"
    using open_not_resolved [OF inv o(1)] by (simp add: valid_change_def open_event_def)
  have inv1: "inv st1"
    unfolding st1_def by (rule inv_events [OF inv _ dd])
      (use c invD(10) [OF inv] in \<open>auto simp: set_state_def open_event_def P_def valid_change_def\<close>)
  have mem1: "set_state c old \<in> set (st_events st1)"
    using o by (auto simp: st1_def set_update_where P_def image_iff)
  have res1: "event_resolved st1 i \<longleftrightarrow> sc_to c = StateResolved"
  proof
    assume "event_resolved st1 i"
    then obtain x where "x \<in> set (st_events st1)" "ev_id x = i" "\<not> open_event x" by (auto simp: event_resolved_def)
    moreover from this have "x = set_state c old"
      using event_unique [OF inv1 _ mem1] o(2) by (simp add: set_state_def)
    ultimately show "sc_to c = StateResolved" by (simp add: set_state_def open_event_def)
  next
    assume "sc_to c = StateResolved"
    then show "event_resolved st1 i"
      using mem1 o(2) unfolding event_resolved_def by (intro bexI [OF _ mem1]) (simp add: set_state_def open_event_def)
  qed
  have inv2: "inv st2"
    using inv1 inv_cancel [OF inv1] res1 c by (simp add: st2_def valid_change_def)
  show ?thesis
  proof (cases "0 < sc_recovery_max_attempts c")
    case True
    with c have to: "sc_to c = StateResolved" and nc: "\<not> sc_cancel_alerts c" by (auto simp: valid_change_def)
    have at2: "st_attempts st2 = st_attempts st" using nc by (simp add: st2_def st1_def)
    have no: "dr_recovery_for x \<noteq> Some (dr_id a)"
      if "x \<in> set (st_attempts st)" "a \<in> set (st_attempts st)" "dr_event_id a = i" for x a
    proof
      assume "dr_recovery_for x = Some (dr_id a)"
      with invD(6) [OF inv that(1)] obtain b where "b \<in> set (st_attempts st)" "follows st x b"
        by (auto simp: recovery_ok_def)
      with \<open>dr_recovery_for x = Some (dr_id a)\<close> have "b = a" "event_resolved st (dr_event_id b)"
        using attempt_unique [OF inv _ that(2)] by (auto simp: follows_def)
      with that(3) closed show False by simp
    qed
    show ?thesis
    proof (rule inv_recoveries [OF inv2 _ True])
      show "event_resolved st2 i" using res1 to nc by (simp add: st2_def)
      show "distinct (map dr_id (alertsToRecover i st2))"
        using invD(2) [OF inv2] by (simp add: alertsToRecover_def distinct_map distinct_map_filter inj_on_def)
      show "\<forall>a \<in> set (alertsToRecover i st2). a \<in> set (st_attempts st2) \<and> dr_event_id a = i \<and> dr_kind a = KindAlert \<and>
          dr_state a \<noteq> DeliveryCancelled \<and> (\<forall>x \<in> set (st_attempts st2). dr_recovery_for x \<noteq> Some (dr_id a))"
        using no by (auto simp: alertsToRecover_def at2)
    qed (use r True in \<open>simp add: recoveries_def\<close>)
  qed (use r inv2 in simp)
qed

text \<open>The attempts a transition leaves.\<close>

definition cancelled_rows :: "string \<Rightarrow> StateChange \<Rightarrow> delivery_row list \<Rightarrow> delivery_row list" where
  "cancelled_rows i c rows = (if sc_cancel_alerts c then update_where (waiting_alert i) (cancel_alert (sc_at c)) rows else rows)"

definition recovery_rows :: "(nat \<Rightarrow> string) \<Rightarrow> string \<Rightarrow> StateChange \<Rightarrow> store \<Rightarrow> delivery_row list" where
  "recovery_rows ids i c st =
     (if sc_recovery_max_attempts c > 0
      then map deliveryArgs (recoveries ids i (sc_recovery_max_attempts c) (sc_at c)
             (alertsToRecover i (st\<lparr>st_attempts := cancelled_rows i c (st_attempts st)\<rparr>)))
      else [])"

lemma transition_tx_attempts:
  assumes "transition_tx ids i c st = Inr (e, st')"
  shows "st_attempts st' = cancelled_rows i c (st_attempts st) @ recovery_rows ids i c st"
proof -
  define P where "P e = (ev_id e = i \<and> ev_state e = sc_from c)" for e :: Event
  define st2 where "st2 = st\<lparr>st_events := update_where P (set_state c) (st_events st), st_attempts := cancelled_rows i c (st_attempts st)\<rparr>"
  have "(if sc_cancel_alerts c then (st\<lparr>st_events := update_where P (set_state c) (st_events st)\<rparr>)
      \<lparr>st_attempts := update_where (waiting_alert i) (cancel_alert (sc_at c)) (st_attempts (st\<lparr>st_events := update_where P (set_state c) (st_events st)\<rparr>))\<rparr>
      else st\<lparr>st_events := update_where P (set_state c) (st_events st)\<rparr>) = st2"
    by (simp add: st2_def cancelled_rows_def)
  with assms have "if sc_recovery_max_attempts c > 0
      then insertDeliveries (recoveries ids i (sc_recovery_max_attempts c) (sc_at c) (alertsToRecover i st2)) st2 = Inr st' else st' = st2"
    unfolding transition_tx_def P_def [abs_def, symmetric] Let_def
    by (simp split: option.splits if_split_asm sum.splits)
  then show ?thesis
    by (auto simp: recovery_rows_def alertsToRecover_def st2_def split: if_splits dest!: insertDeliveries_InrD)
qed

subsection \<open>The refresh\<close>

lemma inv_refresh_tx:
  assumes inv: "inv st" and a: "\<forall>d \<in> set (eu_alerts_on_rise u). new_alert d" and t: "refresh_tx i u st = Inr (e, st')"
  shows "inv st'"
proof -
  define st1 where "st1 = st\<lparr>st_events := update_where (\<lambda>e. ev_id e = i) (refresh_event u) (st_events st)\<rparr>"
  have o: "open_event (refresh_event u e) = open_event e" "ev_resolved_at (refresh_event u e) = ev_resolved_at e"
    "ev_payload (refresh_event u e) \<noteq> []" "ev_id (refresh_event u e) = ev_id e"
    "ev_dedupe_key (refresh_event u e) = ev_dedupe_key e" for e
    by (simp_all add: refresh_event_def open_event_def)
  have dd: "dedupe_ok (update_where (\<lambda>e. ev_id e = i) (refresh_event u) (st_events st))"
    by (rule dedupe_ok_update [OF invD(3) [OF inv]]) (simp_all add: o)
  have inv1: "inv st1"
    unfolding st1_def by (rule inv_events [OF inv _ dd])
      (use invD(9) [OF inv] in \<open>simp_all add: o\<close>)
  have new: "\<forall>d \<in> set (filter Q (eu_alerts_on_rise u)). new_alert d" for Q
    using a by simp
  show ?thesis
    using t inv1 inv_insertDeliveries [OF inv1 _ new]
    by (auto simp: refresh_tx_def Let_def st1_def [symmetric] insertMissingAlerts_def split: option.splits if_splits sum.splits)
qed

subsection \<open>The queue\<close>

lemma claim_ids_deliverable:
  assumes "inv st" "r \<in> set (st_attempts st)" "dr_id r \<in> set (claim_ids now limit skip st)"
  shows "deliverableCond st now r \<and> dr_channel_name r \<notin> set skip"
proof -
  from assms(3) obtain c where "c \<in> set (st_attempts st)" "deliverableCond st now c" "dr_channel_name c \<notin> set skip" "dr_id c = dr_id r"
    by (auto simp: claim_ids_def dest!: set_take_sort_subset)
  then show ?thesis using attempt_unique [OF assms(1) _ assms(2)] by metis
qed

lemma inv_claim:
  assumes inv: "inv st"
  shows "inv (snd (claim_stmt now limit skip st))"
proof -
  have "inv (st\<lparr>st_attempts := update_where (\<lambda>r. dr_id r \<in> set (claim_ids now limit skip st)) (claim_row now) (st_attempts st)\<rparr>)"
  proof (rule inv_update [OF inv])
    fix r assume r: "r \<in> set (st_attempts st)" "dr_id r \<in> set (claim_ids now limit skip st)"
    from claim_ids_deliverable [OF inv r] invD(5) [OF inv r(1)]
    show "row_step st r (claim_row now r)"
      by (auto simp: row_step_def claim_row_def same_job_def row_ok_def counts_ok_def active_def ValidDeliveryState_def
          deliverableCond_def ValidDeliveryKind_def split: DeliveryKind.splits option.splits)
  qed
  then show ?thesis by (simp add: claim_stmt_def Let_def)
qed

lemma muted_not_resolved:
  assumes "inv st" "event_muted st i"
  shows "\<not> event_resolved st i"
proof -
  from assms(2) obtain e where "e \<in> set (st_events st)" "ev_id e = i" "ev_state e = StateMuted"
    by (auto simp: event_muted_def event_by_id_def split: option.splits dest: find_SomeD)
  with open_not_resolved [OF assms(1)] show ?thesis by (auto simp: open_event_def)
qed

lemma TruncateRunes_bound: "int (RuneCountInString (TruncateRunes s MaxLastErrorRunes)) \<le> MaxLastErrorRunes"
  by (simp add: RuneCount_TruncateRunes MaxLastErrorRunes_def)

lemma row_step_mark:
  assumes "inv st" "claimed_row st i r" "outcome_ok d r"
  shows "row_step st r (mark_row st at d r)"
proof -
  from assms(1,2) have ok: "row_ok r" "dr_state r = DeliverySending" by (auto simp: claimed_row_def dest: invD(5))
  have "\<not> event_resolved st (dr_event_id r)" if "mutedAlertCond st r"
    using that muted_not_resolved [OF assms(1)] by (simp add: mutedAlertCond_def)
  moreover have "row_ok (mark_row st at d r)"
  proof (cases "da_state d \<noteq> DeliverySent \<and> mutedAlertCond st r")
    case True
    with ok assms(3) TruncateRunes_bound show ?thesis
      by (simp add: row_ok_def counts_ok_def mark_row_def outcome_ok_def active_def ValidDeliveryState_def mutedAlertCond_def)
  next
    case False
    then have m: "mark_row st at d r = r\<lparr>dr_state := da_state d, dr_next_retry_at := da_next_retry_at d,
        dr_attempts := da_attempts d, dr_last_error := TruncateRunes (da_last_error d) MaxLastErrorRunes, dr_updated_at := at\<rparr>"
      by (auto simp: mark_row_def Let_def)
    have "counts_ok (mark_row st at d r)"
      using ok assms(3) by (simp add: m row_ok_def counts_ok_def outcome_ok_def)
    moreover have "ValidDeliveryState (da_state d)" "da_state d \<noteq> DeliveryCancelled"
      using assms(3) by (auto simp: outcome_ok_def ValidDeliveryState_def)
    ultimately show ?thesis
      using ok(1) TruncateRunes_bound by (simp add: row_ok_def m)
  qed
  ultimately show ?thesis
    using ok assms(3) by (auto simp: row_step_def mark_row_def same_job_def Let_def touched_def outcome_ok_def)
qed

lemma inv_queueFallback:
  assumes inv: "inv st" and f: "fallback_for f r" and r: "r \<in> set (st_attempts st)" "dr_id r = sourceID"
    and q: "queueFallback newID sourceID f st = Inr (b, st')"
  shows "inv st'"
proof (cases "fallback_exists st sourceID")
  case True
  with q inv show ?thesis by (simp add: queueFallback_def Let_def)
next
  case False
  let ?f = "f\<lparr>da_fallback_of := Some (bare_link sourceID)\<rparr>"
  from q False obtain st1 e where i1: "insertDelivery ?f st = Inr st1" and e: "event_by_id st1 (da_event_id f) = Some e"
    and st': "st' = st1 \<or> (\<not> open_event e \<and> insertDelivery (recoveryOf newID (da_id f) (da_event_id f) (da_channel f) (da_channel_name f)
        (da_max_attempts f) (da_created_at f)) st1 = Inr st')"
    by (auto simp: queueFallback_def Let_def open_event_def split: sum.splits option.splits if_splits)
  note I = insertDelivery_InrD [OF i1]
  have ok: "row_ok (deliveryArgs ?f)"
    using f by (simp add: fallback_for_def new_alert_def row_ok_def counts_ok_def active_def ValidDeliveryState_def
        ValidDeliveryKind_def MaxLastErrorRunes_def)
  have cp: "copies (deliveryArgs ?f) r" using f r by (simp add: copies_def fallback_for_def)
  have inv1: "inv st1"
    unfolding I(1) by (rule inv_append [OF inv _ _ _ ok]) (use I(2-4) f r cp in \<open>auto simp: fallback_for_def new_alert_def\<close>)
  have "inv st'" if res: "\<not> open_event e" and i2: "insertDelivery (recoveryOf newID (da_id f) (da_event_id f) (da_channel f)
      (da_channel_name f) (da_max_attempts f) (da_created_at f)) st1 = Inr st'"
  proof -
    let ?a = "deliveryArgs ?f"
    have "e \<in> set (st_events st1)" "ev_id e = da_event_id f" using e by (auto simp: event_by_id_def dest: find_SomeD)
    with res have "event_resolved st1 (dr_event_id ?a)" by (auto simp: event_resolved_def)
    moreover have "\<forall>x \<in> set (st_attempts st1). dr_recovery_for x \<noteq> Some (dr_id ?a)"
    proof
      fix x assume x: "x \<in> set (st_attempts st1)"
      show "dr_recovery_for x \<noteq> Some (dr_id ?a)"
      proof (cases "x \<in> set (st_attempts st)")
        case True
        then show ?thesis using invD(6) [OF inv True] I(2) by (auto simp: recovery_ok_def follows_def attempt_exists_def)
      next
        case False
        with x f show ?thesis by (auto simp: I(1) fallback_for_def new_alert_def)
      qed
    qed
    ultimately show ?thesis
      using inv_recovery_insert [OF inv1, of ?a "da_max_attempts f" newID "da_channel f" "da_created_at f" st'] f i2
      by (simp add: I(1) fallback_for_def new_alert_def)
  qed
  with st' inv1 show ?thesis by blast
qed

lemma inv_mark_tx:
  assumes inv: "inv st" and ok: "\<And>r. claimed_row st (da_id d) r \<Longrightarrow> outcome_ok d r"
    and fb: "\<And>r f. claimed_row st (da_id d) r \<Longrightarrow> fallback = Some f \<Longrightarrow> fallback_for f r"
    and t: "mark_tx now newID d fallback st = Inr (a, st')"
  shows "inv st'"
proof -
  define at where "at = (if da_updated_at d = 0 then now else da_updated_at d)"
  define P where "P r = (dr_id r = da_id d \<and> dr_state r = DeliverySending)" for r :: delivery_row
  define st1 where "st1 = st\<lparr>st_attempts := update_where P (mark_row st at d) (st_attempts st)\<rparr>"
  have inv1: "inv st1"
    unfolding st1_def by (rule inv_update [OF inv])
      (use row_step_mark [OF inv] ok in \<open>simp add: P_def claimed_row_def\<close>)
  from t obtain r where fr: "find P (st_attempts st) = Some r"
    and cs: "st' = st1 \<or> (\<exists>f b. fallback = Some f \<and> queueFallback newID (da_id d) f st1 = Inr (b, st'))"
    by (auto simp: mark_tx_def Let_def P_def [abs_def] st1_def at_def split: option.splits if_splits sum.splits)
  from fr have r: "claimed_row st (da_id d) r" "P r" by (auto simp: claimed_row_def P_def dest: find_SomeD)
  have mem: "mark_row st at d r \<in> set (st_attempts st1)" "dr_id (mark_row st at d r) = da_id d"
    using r by (auto simp: st1_def set_update_where claimed_row_def mark_row_def Let_def image_iff)
  have fb': "fallback_for f (mark_row st at d r)" if "fallback = Some f" for f
    using fb [OF r(1) that] by (simp add: fallback_for_def mark_row_def Let_def)
  show ?thesis using cs inv1 inv_queueFallback [OF inv1 fb' mem] by blast
qed

lemma inv_replay:
  assumes inv: "inv st"
  shows "inv (snd (replay_stmt i at st))"
proof -
  have "inv (st\<lparr>st_attempts := update_where (\<lambda>r. dr_id r = i \<and> dr_state r = DeliveryDeadLetter) (replay_row at) (st_attempts st)\<rparr>)"
  proof (rule inv_update [OF inv])
    fix r assume r: "r \<in> set (st_attempts st)" "dr_id r = i \<and> dr_state r = DeliveryDeadLetter"
    with invD(5) [OF inv r(1)] show "row_step st r (replay_row at r)"
      by (auto simp: row_step_def replay_row_def same_job_def row_ok_def counts_ok_def active_def ValidDeliveryState_def
          MaxLastErrorRunes_def touched_def)
  qed
  then show ?thesis by (simp add: replay_stmt_def)
qed

lemma inv_requeue:
  assumes inv: "inv st"
  shows "inv (snd (requeue_stmt now staleBefore st))"
proof -
  have "inv (st\<lparr>st_attempts := update_where (stuck staleBefore) (requeue_row st now) (st_attempts st)\<rparr>)"
  proof (rule inv_update [OF inv])
    fix r assume r: "r \<in> set (st_attempts st)" "stuck staleBefore r"
    have "\<not> event_resolved st (dr_event_id r)" if "mutedAlertCond st r"
      using that muted_not_resolved [OF inv] by (simp add: mutedAlertCond_def)
    with r invD(5) [OF inv r(1)] show "row_step st r (requeue_row st now r)"
      by (cases "mutedAlertCond st r")
        (auto simp: row_step_def requeue_row_def same_job_def row_ok_def counts_ok_def active_def ValidDeliveryState_def
          touched_def stuck_def mutedAlertCond_def)
  qed
  then show ?thesis by (simp add: requeue_stmt_def)
qed

subsection \<open>Retention and the heartbeat\<close>

lemma inv_delete_events_stmt: "inv st \<Longrightarrow> inv (snd (delete_events_stmt cutoff st))"
  using inv_delete_events by (simp add: delete_events_stmt_def Let_def)

text \<open>Under the invariant there is no orphan to delete.\<close>

lemma delete_orphans_id: "inv st \<Longrightarrow> delete_orphans_stmt cutoff st = (0, st)"
  using invD(8) by (auto simp: delete_orphans_stmt_def first_ids_def Let_def delete_where_def filter_empty_conv)

lemma inv_heartbeat: "inv (st\<lparr>st_heartbeat := h\<rparr>) = inv st"
  by (simp add: inv_def wf_store_def keys_ok_def events_ok_def one_recovery_def recovery_ok_def fallback_ok_def
      event_exists_def follows_def event_resolved_def)

lemma inv_tick: "inv st \<Longrightarrow> inv (snd (tick_stmt at st))"
  by (simp add: tick_stmt_def inv_heartbeat split: option.split)

lemma keeps_deleteBatched: "(\<And>st. I st \<Longrightarrow> I (snd (stmt st))) \<Longrightarrow> keeps I (deleteBatched polls stmt tot)"
proof (induction polls stmt tot rule: deleteBatched.induct)
  case (2 cancelled polls stmt tot)
  then show ?case
    by (auto intro!: keeps_bind keeps_return keeps_atomic split: list.splits)
qed (simp add: keeps_return)

lemmas inv_statements = inv_create_tx inv_transition_tx inv_refresh_tx inv_claim inv_mark_tx inv_replay inv_requeue
  inv_delete_events_stmt inv_tick

end
