(* ===== verification/Service.thy ===== *)
theory Service
  imports Store_Preserve Routing Go_JSON
begin

text \<open>
  \<^verbatim>\<open>internal/service\<close>: ingestion, manual actions and replay, as programs over the shared database. Log lines
  are not modelled. The clock is the argument \<open>now\<close>; \<open>ids g k\<close> is the \<open>k\<close>-th identifier drawn in the \<open>g\<close>-th place
  of a call that draws identifiers.
\<close>

subsection \<open>Types\<close>

text \<open>A recovery notifier is its attempt budget; \<open>None\<close> is the nil pointer of a disabled one.\<close>

type_synonym RecoveryNotifier = "int option"

record IngestService =
  is_router :: Router
  is_max_attempts :: int
  is_recovery :: RecoveryNotifier

datatype IngestOutcome =
    OutcomeCreated | OutcomeDeduplicated | OutcomeRefreshed | OutcomeResolved | OutcomeAlreadyResolved
  | OutcomeNothingToResolve

record IngestResult =
  ir_event :: "Event option"
  ir_outcome :: IngestOutcome

record EventInput =
  in_status :: IngestStatus
  in_type :: EventType
  in_severity :: Severity
  in_source :: string
  in_category :: string
  in_message :: string
  in_entity_type :: string
  in_entity_id :: string
  in_trace_id :: string
  in_dedupe_key :: string
  in_payload :: string

subsection \<open>Recovery notices\<close>

definition NewRecoveryNotifier :: "bool \<Rightarrow> int \<Rightarrow> RecoveryNotifier" where
  "NewRecoveryNotifier enabled maxAttempts =
     (if \<not> enabled then None else Some (if maxAttempts \<le> 0 then DefaultMaxAttempts else maxAttempts))"

definition attemptsFor :: "RecoveryNotifier \<Rightarrow> Event \<Rightarrow> int" where
  "attemptsFor n e =
     (case n of
        None \<Rightarrow> 0
      | Some maxAttempts \<Rightarrow>
          if ev_type e \<noteq> EventIncident then 0
          else if ev_state e = StateMuted then 0
          else maxAttempts)"

definition maxTransitionTries :: nat where
  "maxTransitionTries = 3"

definition state_change :: "RecoveryNotifier \<Rightarrow> Event \<Rightarrow> EventState \<Rightarrow> time \<Rightarrow> StateChange" where
  "state_change rec e tgt at =
     \<lparr>sc_from = ev_state e, sc_to = tgt, sc_at = at,
      sc_recovery_max_attempts = (if tgt = StateResolved then attemptsFor rec e else 0),
      sc_cancel_alerts = (tgt = StateMuted)\<rparr>"

text \<open>The loop of \<open>transition\<close>, with the number of tries left.\<close>

fun transition_tries :: "nat \<Rightarrow> (nat \<Rightarrow> nat \<Rightarrow> string) \<Rightarrow> RecoveryNotifier \<Rightarrow> Event \<Rightarrow> time \<Rightarrow>
    (EventState \<Rightarrow> EventState result) \<Rightarrow> (Event \<times> bool) result db" where
  "transition_tries 0 ids rec e at next_state =
     State_Monad.return (Inl (ErrInvalidTransition ''the event kept changing while the action was applied; retry''))"
| "transition_tries (Suc n) ids rec e at next_state =
     (case next_state (ev_state e) of
        Inl x \<Rightarrow> State_Monad.return (Inl x)
      | Inr tgt \<Rightarrow>
          if tgt = ev_state e then State_Monad.return (Inr (e, False))
          else do {
            r \<leftarrow> TransitionEvent (ids n) (ev_id e) (state_change rec e tgt at);
            (case r of
               Inr updated \<Rightarrow> State_Monad.return (Inr (updated, True))
             | Inl x \<Rightarrow>
                 if x \<noteq> ErrStateChanged then State_Monad.return (Inl x)
                 else do {
                   g \<leftarrow> GetEvent (ev_id e);
                   (case g of
                      Inl y \<Rightarrow> State_Monad.return (Inl y)
                    | Inr e' \<Rightarrow> transition_tries n ids rec e' at next_state)
                 })
          })"

definition transition :: "(nat \<Rightarrow> nat \<Rightarrow> string) \<Rightarrow> RecoveryNotifier \<Rightarrow> Event \<Rightarrow> time \<Rightarrow>
    (EventState \<Rightarrow> EventState result) \<Rightarrow> (Event \<times> bool) result db" where
  "transition = transition_tries maxTransitionTries"

subsection \<open>Manual actions and replay\<close>

definition Apply :: "(nat \<Rightarrow> nat \<Rightarrow> string) \<Rightarrow> RecoveryNotifier \<Rightarrow> time \<Rightarrow> string \<Rightarrow> EventAction \<Rightarrow> Event result db" where
  "Apply ids rec now i action = do {
     g \<leftarrow> GetEvent i;
     (case g of
        Inl x \<Rightarrow> State_Monad.return (Inl x)
      | Inr e \<Rightarrow>
         (case CheckActionAllowed (ev_type e) of
            Inl x \<Rightarrow> State_Monad.return (Inl x)
          | Inr _ \<Rightarrow> do {
              r \<leftarrow> transition ids rec e now (\<lambda>current. ApplyAction current action);
              State_Monad.return (map_sum id fst r)
            }))
   }"

definition DeliveryService_Replay :: "time \<Rightarrow> string \<Rightarrow> DeliveryAttempt result db" where
  "DeliveryService_Replay now i = Replay i now"

subsection \<open>Ingestion\<close>

definition NewIngestService :: "Router option \<Rightarrow> int \<Rightarrow> RecoveryNotifier \<Rightarrow> IngestService" where
  "NewIngestService router maxAttempts recovery =
     \<lparr>is_router = (case router of None \<Rightarrow> NewAllChannels [] | Some r \<Rightarrow> r),
      is_max_attempts = (if maxAttempts \<le> 0 then DefaultMaxAttempts else maxAttempts),
      is_recovery = recovery\<rparr>"

definition normalizePayload :: "string \<Rightarrow> string" where
  "normalizePayload p = (if length p = 0 then ''{}'' else p)"

definition validateInput :: "EventInput \<Rightarrow> EventInput result" where
  "validateInput inp =
     (if in_status inp \<noteq> StatusOther [] \<and> \<not> ValidIngestStatus (in_status inp)
      then Inl (ErrValidation ''invalid status, expected firing or resolved'')
      else if in_status inp = StatusResolved
      then (if TrimSpace (in_dedupe_key inp) = []
            then Inl (ErrValidation ''dedupe_key is required with status=resolved'') else Inr inp)
      else if in_status inp = StatusFiring \<and> TrimSpace (in_dedupe_key inp) = []
      then Inl (ErrValidation ''dedupe_key is required with status=firing'')
      else if \<not> ValidEventType (in_type inp) then Inl (ErrValidation ''invalid or missing type'')
      else
        let inp' = (if in_severity inp = SeverityOther [] then inp\<lparr>in_severity := SeverityInfo\<rparr> else inp) in
        if \<not> ValidSeverity (in_severity inp') then Inl (ErrValidation ''invalid severity'')
        else if TrimSpace (in_source inp') = [] then Inl (ErrValidation ''source is required'')
        else if TrimSpace (in_message inp') = [] then Inl (ErrValidation ''message is required'')
        else if length (in_payload inp') > MaxPayloadBytes then Inl (ErrValidation ''payload exceeds the limit'')
        else if length (in_payload inp') > 0 \<and> \<not> json_Valid (in_payload inp')
        then Inl (ErrValidation ''payload is not valid JSON'')
        else Inr inp')"

definition buildDelivery :: "int \<Rightarrow> string \<Rightarrow> time \<Rightarrow> string \<Rightarrow> ChannelTarget \<Rightarrow> DeliveryAttempt" where
  "buildDelivery maxAttempts eventID now newID t =
     \<lparr>da_id = newID, da_event_id = eventID, da_channel = ct_type t, da_channel_name = ct_name t,
      da_kind = KindOther [], da_state = DeliveryPending, da_attempts = 0, da_max_attempts = maxAttempts,
      da_next_retry_at = None, da_last_error = [], da_created_at = now, da_updated_at = now,
      da_fallback_of = None, da_fallback_to = None, da_recovery_for = None\<rparr>"

definition buildDeliveries :: "IngestService \<Rightarrow> (nat \<Rightarrow> string) \<Rightarrow> string \<Rightarrow> ChannelTarget list \<Rightarrow> time \<Rightarrow> DeliveryAttempt list" where
  "buildDeliveries s ids eventID targets now =
     map (\<lambda>(k, t). buildDelivery (is_max_attempts s) eventID now (ids k) t) (enumerate 0 targets)"

definition checkOwner :: "Event \<Rightarrow> string list option \<Rightarrow> unit result" where
  "checkOwner e allowed =
     (case allowed of
        None \<Rightarrow> Inr ()
      | Some sources \<Rightarrow>
          if ev_source e \<in> set sources then Inr ()
          else Inl (ErrSourceNotAllowed ''dedupe_key belongs to an event of a source this API key may not report''))"

definition refresh_update :: "unicode_lower \<Rightarrow> IngestService \<Rightarrow> (nat \<Rightarrow> string) \<Rightarrow> Event \<Rightarrow> Event \<Rightarrow> time \<Rightarrow> EventUpdate" where
  "refresh_update ul s ids stored report now =
     \<lparr>eu_severity = ev_severity report, eu_message = ev_message report, eu_payload = ev_payload report,
      eu_last_seen_at = now,
      eu_alerts_on_rise =
        (if ev_type stored = EventIncident \<and> SeverityRank (ev_severity report) > SeverityRank (ev_severity stored)
         then buildDeliveries s ids (ev_id stored)
                (dc_channels (Route ul (is_router s) (stored\<lparr>ev_severity := ev_severity report\<rparr>))) now
         else [])\<rparr>"

definition refresh :: "unicode_lower \<Rightarrow> IngestService \<Rightarrow> (nat \<Rightarrow> string) \<Rightarrow> Event \<Rightarrow> Event \<Rightarrow> time \<Rightarrow> Event result db" where
  "refresh ul s ids stored report now = RefreshOpenEvent (ev_id stored) (refresh_update ul s ids stored report now)"

definition resolve :: "IngestService \<Rightarrow> (nat \<Rightarrow> nat \<Rightarrow> string) \<Rightarrow> string \<Rightarrow> string list option \<Rightarrow> time \<Rightarrow> IngestResult result db" where
  "resolve s ids key allowed now = do {
     r \<leftarrow> EventByDedupe key;
     (case r of
        Inl x \<Rightarrow> State_Monad.return
                  (if x = ErrNotFound then Inr \<lparr>ir_event = None, ir_outcome = OutcomeNothingToResolve\<rparr> else Inl x)
      | Inr e \<Rightarrow>
         (case checkOwner e allowed of
            Inl x \<Rightarrow> State_Monad.return (Inl x)
          | Inr _ \<Rightarrow> do {
              t \<leftarrow> transition ids (is_recovery s) e now (\<lambda>_. Inr StateResolved);
              State_Monad.return
                (case t of
                   Inl x \<Rightarrow> (if x = ErrNotFound then Inr \<lparr>ir_event = None, ir_outcome = OutcomeNothingToResolve\<rparr> else Inl x)
                 | Inr (event, closed) \<Rightarrow>
                     Inr \<lparr>ir_event = Some event, ir_outcome = (if closed then OutcomeResolved else OutcomeAlreadyResolved)\<rparr>)
            }))
   }"

definition eventOf :: "EventInput \<Rightarrow> string \<Rightarrow> time \<Rightarrow> Event" where
  "eventOf inp newID now =
     \<lparr>ev_id = newID, ev_type = in_type inp, ev_severity = in_severity inp, ev_state = StateNew,
      ev_source = TrimSpace (in_source inp), ev_category = TrimSpace (in_category inp),
      ev_message = TrimSpace (in_message inp), ev_entity_type = TrimSpace (in_entity_type inp),
      ev_entity_id = TrimSpace (in_entity_id inp), ev_trace_id = TrimSpace (in_trace_id inp),
      ev_dedupe_key = TrimSpace (in_dedupe_key inp), ev_payload = normalizePayload (in_payload inp),
      ev_created_at = now, ev_updated_at = now, ev_last_seen_at = now, ev_resolved_at = None\<rparr>"

text \<open>The second create, after the incident was resolved between the lookup and the refresh.\<close>

definition retry_create :: "IngestService \<Rightarrow> (nat \<Rightarrow> string) \<Rightarrow> Event \<Rightarrow> ChannelTarget list \<Rightarrow> string list option \<Rightarrow> time \<Rightarrow> IngestResult result db" where
  "retry_create s ids e targets allowed now = do {
     let again = e\<lparr>ev_id := ids 0\<rparr>;
     r \<leftarrow> CreateEventWithDeliveries again (buildDeliveries s (\<lambda>k. ids (Suc k)) (ids 0) targets now);
     State_Monad.return
       (case r of
          Inl x \<Rightarrow> Inl x
        | Inr (stored, True) \<Rightarrow> Inr \<lparr>ir_event = Some stored, ir_outcome = OutcomeCreated\<rparr>
        | Inr (stored, False) \<Rightarrow>
           (case checkOwner stored allowed of
              Inl x \<Rightarrow> Inl x
            | Inr _ \<Rightarrow> Inr \<lparr>ir_event = Some stored, ir_outcome = OutcomeDeduplicated\<rparr>))
   }"

text \<open>What \<open>IngestFor\<close> does with an input that passed the checks and is not a \<open>resolved\<close> report.\<close>

definition ingest_event :: "unicode_lower \<Rightarrow> IngestService \<Rightarrow> (nat \<Rightarrow> nat \<Rightarrow> string) \<Rightarrow> time \<Rightarrow> EventInput \<Rightarrow> string list option \<Rightarrow> IngestResult result db" where
  "ingest_event ul s ids now inp allowed = do {
     let e = eventOf inp (ids 0 0) now;
     let targets = dc_channels (Route ul (is_router s) e);
     r \<leftarrow> CreateEventWithDeliveries e (buildDeliveries s (\<lambda>k. ids 0 (Suc k)) (ev_id e) targets now);
     (case r of
        Inl x \<Rightarrow> State_Monad.return (Inl x)
      | Inr (stored, created) \<Rightarrow>
          if created then State_Monad.return (Inr \<lparr>ir_event = Some stored, ir_outcome = OutcomeCreated\<rparr>)
          else (case checkOwner stored allowed of
                  Inl x \<Rightarrow> State_Monad.return (Inl x)
                | Inr _ \<Rightarrow>
                    if in_status inp \<noteq> StatusFiring
                    then State_Monad.return (Inr \<lparr>ir_event = Some stored, ir_outcome = OutcomeDeduplicated\<rparr>)
                    else do {
                      f \<leftarrow> refresh ul s (ids 1) stored e now;
                      (case f of
                         Inr refreshed \<Rightarrow> State_Monad.return (Inr \<lparr>ir_event = Some refreshed, ir_outcome = OutcomeRefreshed\<rparr>)
                       | Inl x \<Rightarrow>
                           if x \<noteq> ErrNotFound then State_Monad.return (Inl x)
                           else retry_create s (ids 2) e targets allowed now)
                    }))
   }"

definition IngestFor :: "unicode_lower \<Rightarrow> IngestService \<Rightarrow> (nat \<Rightarrow> nat \<Rightarrow> string) \<Rightarrow> time \<Rightarrow> EventInput \<Rightarrow> string list option \<Rightarrow> IngestResult result db" where
  "IngestFor ul s ids now inp0 allowed =
     (case validateInput inp0 of
        Inl x \<Rightarrow> State_Monad.return (Inl x)
      | Inr inp \<Rightarrow>
         (let src = TrimSpace (in_source inp) in
          if (case allowed of None \<Rightarrow> False | Some sources \<Rightarrow> src \<noteq> [] \<and> src \<notin> set sources)
          then State_Monad.return (Inl (ErrSourceNotAllowed (''this API key may not report events from source '' @ src)))
          else if in_status inp = StatusResolved then resolve s ids (TrimSpace (in_dedupe_key inp)) allowed now
          else ingest_event ul s ids now inp allowed))"

definition Ingest :: "unicode_lower \<Rightarrow> IngestService \<Rightarrow> (nat \<Rightarrow> nat \<Rightarrow> string) \<Rightarrow> time \<Rightarrow> EventInput \<Rightarrow> IngestResult result db" where
  "Ingest ul s ids now inp = IngestFor ul s ids now inp None"

end
