(* ===== verification/Service_Contract.thy ===== *)
theory Service_Contract
  imports Service
begin

text \<open>
  The contract between the services and the event half of the store. \<open>event_writes\<close> fixes an invariant and the
  set of events a caller may write, and asks of the store that its three write transactions keep the
  invariant on those events; inside it every service operation is shown to keep the invariant whatever the other
  processes do between its transactions. It is interpreted twice on the model of the store: with the invariant of the
  store itself, and with the statement that one particular event of a foreign source stays as it is.
\<close>

subsection \<open>What the services pass to the store\<close>

definition proper_next :: "(EventState \<Rightarrow> EventState result) \<Rightarrow> bool" where
  "proper_next f = (\<forall>t. f StateResolved = Inr t \<longrightarrow> t = StateResolved)"

lemma proper_ApplyAction: "proper_next (\<lambda>s. ApplyAction s a)"
  using ApplyAction_from_resolved by (auto simp: proper_next_def)

lemma proper_resolve: "proper_next (\<lambda>_. Inr StateResolved)"
  by (simp add: proper_next_def)

lemma valid_state_change:
  "proper_next f \<Longrightarrow> f (ev_state e) = Inr tgt \<Longrightarrow> tgt \<noteq> ev_state e \<Longrightarrow> valid_change (state_change rec e tgt at)"
  by (auto simp: valid_change_def state_change_def proper_next_def)

lemma new_event_eventOf: "new_event (eventOf inp i now)" "new_event (e\<lparr>ev_id := i\<rparr>) = new_event e"
  by (simp_all add: new_event_def eventOf_def open_event_def)

lemma buildDeliveries_new: "0 < is_max_attempts s \<Longrightarrow> d \<in> set (buildDeliveries s ids i ts now) \<Longrightarrow> new_alert d"
  by (auto simp: buildDeliveries_def buildDelivery_def new_alert_def OrAlert_def in_set_enumerate_eq)

lemma NewIngestService_budget: "0 < is_max_attempts (NewIngestService r m rec)"
  by (simp add: NewIngestService_def DefaultMaxAttempts_def)

lemma refresh_update_new: "0 < is_max_attempts s \<Longrightarrow> \<forall>d \<in> set (eu_alerts_on_rise (refresh_update ul s ids x y now)). new_alert d"
  using buildDeliveries_new by (auto simp: refresh_update_def)

lemma get_event_InrD: "get_event i st = Inr e \<Longrightarrow> \<exists>x \<in> set (st_events st). e = scanEvent x \<and> ev_id x = i"
  by (auto simp: get_event_def event_by_id_def split: option.splits dest!: find_SomeD)

lemma event_by_dedupe_InrD: "event_by_dedupe k st = Inr e \<Longrightarrow> \<exists>x \<in> set (st_events st). e = scanEvent x \<and> open_key k x"
  by (auto simp: event_by_dedupe_def split: option.splits dest!: find_SomeD)

lemma latest_event_by_dedupe_InrD:
  "latest_event_by_dedupe k st = Inr e \<Longrightarrow> \<exists>x \<in> set (st_events st). e = scanEvent x \<and> ev_dedupe_key x = k"
proof -
  assume "latest_event_by_dedupe k st = Inr e"
  then obtain x xs where "newest_first (filter (\<lambda>e. ev_dedupe_key e = k) (st_events st)) = x # xs" "e = scanEvent x"
    by (auto simp: latest_event_by_dedupe_def split: list.splits)
  moreover from this have "x \<in> set (newest_first (filter (\<lambda>e. ev_dedupe_key e = k) (st_events st)))" by simp
  then have "x \<in> set (st_events st)" "ev_dedupe_key x = k" by (auto simp: newest_first_def)
  ultimately show ?thesis by blast
qed

lemma checkOwner_scan [simp]: "checkOwner (scanEvent e) allowed = checkOwner e allowed"
  by (simp add: checkOwner_def split: option.split)

subsection \<open>The contract\<close>

locale event_writes =
  fixes I :: "store \<Rightarrow> bool" and may_write :: "string \<Rightarrow> bool" and allowed :: "string list option"
  assumes create_keeps:
      "I st \<Longrightarrow> new_event e \<Longrightarrow> \<forall>d \<in> set ds. new_alert d \<Longrightarrow> create_tx e ds st = Inr (y, st') \<Longrightarrow> I st'"
    and transition_keeps:
      "I st \<Longrightarrow> may_write i \<Longrightarrow> valid_change c \<Longrightarrow> transition_tx ids i c st = Inr (e, st') \<Longrightarrow> I st'"
    and refresh_keeps:
      "I st \<Longrightarrow> may_write i \<Longrightarrow> \<forall>d \<in> set (eu_alerts_on_rise u). new_alert d \<Longrightarrow> refresh_tx i u st = Inr (e, st') \<Longrightarrow> I st'"
    and owned: "I st \<Longrightarrow> x \<in> set (st_events st) \<Longrightarrow> checkOwner x allowed = Inr () \<Longrightarrow> may_write (ev_id x)"
begin

lemma get_event_ensures: "ensures I (GetEvent i) (\<lambda>r. \<forall>e. r = Inr e \<longrightarrow> ev_id e = i)"
  unfolding GetEvent_def by (rule ensures_query) (auto dest!: get_event_InrD)

lemma transition_tries_keeps:
  "proper_next f \<Longrightarrow> may_write (ev_id e) \<Longrightarrow> keeps I (transition_tries n ids rec e at f)"
proof (induction n arbitrary: e)
  case (Suc n)
  have wr: "keeps I (TransitionEvent (ids n) (ev_id e) (state_change rec e tgt at))"
    if "f (ev_state e) = Inr tgt" "tgt \<noteq> ev_state e" for tgt
    unfolding TransitionEvent_def
    by (rule keeps_transact) (rule transition_keeps [OF _ Suc.prems(2) valid_state_change [OF Suc.prems(1) that]])
  have again: "keeps I (State_Monad.bind (GetEvent (ev_id e))
      (\<lambda>g. case g of Inl y \<Rightarrow> State_Monad.return (Inl y) | Inr e' \<Rightarrow> transition_tries n ids rec e' at f))"
    unfolding keeps_def
  proof (rule ensures_bind [OF get_event_ensures])
    fix g :: "err + Event" assume g: "\<forall>x. g = Inr x \<longrightarrow> ev_id x = ev_id e"
    show "ensures I (case g of Inl y \<Rightarrow> State_Monad.return (Inl y) | Inr e' \<Rightarrow> transition_tries n ids rec e' at f) (\<lambda>_. True)"
    proof (cases g)
      case (Inr e')
      with g Suc.prems(2) have "may_write (ev_id e')" by simp
      from Suc.IH [OF Suc.prems(1) this] Inr show ?thesis by (simp add: keeps_def)
    qed (simp add: ensures_return)
  qed
  show ?case
    using wr again by (auto intro!: keeps_bind keeps_return split: sum.split)
qed (simp add: keeps_return)

lemma create_ensures:
  assumes "new_event e" "\<forall>d \<in> set ds. new_alert d"
  shows "ensures I (CreateEventWithDeliveries e ds)
           (\<lambda>r. \<forall>x. r = Inr (x, False) \<longrightarrow> checkOwner x allowed = Inr () \<longrightarrow> may_write (ev_id x))" (is "ensures I _ ?Q")
proof -
  have look: "ensures I (query (event_by_dedupe k))
      (\<lambda>r. \<forall>x. r = Inr x \<longrightarrow> checkOwner x allowed = Inr () \<longrightarrow> may_write (ev_id x))" for k
    by (rule ensures_query) (use owned in \<open>auto dest!: event_by_dedupe_InrD\<close>)
  have again: "ensures I (State_Monad.bind (query (event_by_dedupe k))
      (\<lambda>again. State_Monad.return (case again of Inr x \<Rightarrow> Inr (x, False) | Inl _ \<Rightarrow> Inl err))) ?Q" for k err
    by (rule ensures_bind [OF look]) (auto intro!: ensures_return split: sum.split)
  have tx: "ensures I (atomic (create_tx_refused e ds)) (\<lambda>_. True)"
    by (rule ensures_atomic)
      (use create_keeps [OF _ assms] in \<open>auto simp: create_tx_refused_def commit_def Let_def split: sum.splits\<close>)
  have first: "ensures I (if ev_dedupe_key e \<noteq> [] then query (event_by_dedupe (ev_dedupe_key e)) else State_Monad.return (Inl ErrNotFound))
      (\<lambda>r. \<forall>x. r = Inr x \<longrightarrow> checkOwner x allowed = Inr () \<longrightarrow> may_write (ev_id x))"
    using look by (auto intro: ensures_return)
  show ?thesis
    unfolding CreateEventWithDeliveries_def
    by (rule ensures_bind [OF first]) (auto intro!: ensures_return ensures_bind [OF tx] again split: sum.split prod.split)
qed

lemma event_by_dedupe_ensures:
  "ensures I (EventByDedupe k) (\<lambda>r. \<forall>x. r = Inr x \<longrightarrow> checkOwner x allowed = Inr () \<longrightarrow> may_write (ev_id x))" (is "ensures I _ ?Q")
proof -
  have look: "ensures I (query (event_by_dedupe k)) ?Q"
    by (rule ensures_query) (use owned in \<open>auto dest!: event_by_dedupe_InrD\<close>)
  have latest: "ensures I (query (latest_event_by_dedupe k)) ?Q"
    by (rule ensures_query) (use owned in \<open>auto dest!: latest_event_by_dedupe_InrD\<close>)
  show ?thesis
    unfolding EventByDedupe_def
    by (auto intro!: ensures_return ensures_bind [OF look] latest)
qed

lemma resolve_keeps: "keeps I (resolve s ids k allowed now)"
  unfolding resolve_def keeps_def
proof (rule ensures_bind [OF event_by_dedupe_ensures])
  fix r :: "err + Event" assume r: "\<forall>x. r = Inr x \<longrightarrow> checkOwner x allowed = Inr () \<longrightarrow> may_write (ev_id x)"
  have "keeps I (transition ids (is_recovery s) x now (\<lambda>_. Inr StateResolved))"
    if "r = Inr x" "checkOwner x allowed = Inr u" for x u
    unfolding transition_def by (rule transition_tries_keeps [OF proper_resolve]) (use r that in auto)
  then show "ensures I (case r of Inl x \<Rightarrow> State_Monad.return (if x = ErrNotFound
      then Inr \<lparr>ir_event = None, ir_outcome = OutcomeNothingToResolve\<rparr> else Inl x)
    | Inr e \<Rightarrow> (case checkOwner e allowed of Inl x \<Rightarrow> State_Monad.return (Inl x)
      | Inr _ \<Rightarrow> State_Monad.bind (transition ids (is_recovery s) e now (\<lambda>_. Inr StateResolved)) (\<lambda>t. State_Monad.return
         (case t of Inl x \<Rightarrow> if x = ErrNotFound then Inr \<lparr>ir_event = None, ir_outcome = OutcomeNothingToResolve\<rparr> else Inl x
          | Inr (event, closed) \<Rightarrow> Inr \<lparr>ir_event = Some event, ir_outcome = if closed then OutcomeResolved else OutcomeAlreadyResolved\<rparr>)))) (\<lambda>_. True)"
    unfolding keeps_def by (auto intro!: ensures_return ensures_bind split: sum.split)
qed

lemma create_keeps_db: "new_event e \<Longrightarrow> \<forall>d \<in> set ds. new_alert d \<Longrightarrow> keeps I (CreateEventWithDeliveries e ds)"
  by (rule ensures_keeps [OF create_ensures])

lemma refresh_keeps_db: "0 < is_max_attempts s \<Longrightarrow> may_write (ev_id x) \<Longrightarrow> keeps I (refresh ul s ids x e now)"
  unfolding refresh_def RefreshOpenEvent_def
  by (rule keeps_transact) (rule refresh_keeps [OF _ _ refresh_update_new])

lemma retry_create_keeps: "0 < is_max_attempts s \<Longrightarrow> new_event e \<Longrightarrow> keeps I (retry_create s ids e ts allowed now)"
  unfolding retry_create_def Let_def
  by (auto intro!: keeps_bind keeps_return create_keeps_db simp: new_event_eventOf buildDeliveries_new)

lemma ingest_event_keeps:
  assumes s: "0 < is_max_attempts s"
  shows "keeps I (ingest_event ul s ids now inp allowed)"
  unfolding ingest_event_def Let_def keeps_def
proof (rule ensures_bind [OF create_ensures])
  note k = retry_create_keeps [OF s, unfolded keeps_def] refresh_keeps_db [OF s, unfolded keeps_def]
  fix r :: "err + Event \<times> bool"
  assume "\<forall>x. r = Inr (x, False) \<longrightarrow> checkOwner x allowed = Inr () \<longrightarrow> may_write (ev_id x)"
  then show "ensures I
      (case r of Inl x \<Rightarrow> State_Monad.return (Inl x)
       | Inr (stored, created) \<Rightarrow>
           if created then State_Monad.return (Inr \<lparr>ir_event = Some stored, ir_outcome = OutcomeCreated\<rparr>)
           else (case checkOwner stored allowed of Inl x \<Rightarrow> State_Monad.return (Inl x)
             | Inr _ \<Rightarrow> if in_status inp \<noteq> StatusFiring
                 then State_Monad.return (Inr \<lparr>ir_event = Some stored, ir_outcome = OutcomeDeduplicated\<rparr>)
                 else State_Monad.bind (refresh ul s (ids 1) stored (eventOf inp (ids 0 0) now) now)
                   (\<lambda>f. case f of Inr refreshed \<Rightarrow> State_Monad.return (Inr \<lparr>ir_event = Some refreshed, ir_outcome = OutcomeRefreshed\<rparr>)
                     | Inl x \<Rightarrow> if x \<noteq> ErrNotFound then State_Monad.return (Inl x)
                         else retry_create s (ids 2) (eventOf inp (ids 0 0) now)
                                (dc_channels (Route ul (is_router s) (eventOf inp (ids 0 0) now))) allowed now))) (\<lambda>_. True)"
    by (auto intro!: ensures_return ensures_bind [OF k(2)] k(1) new_event_eventOf split: sum.split)
qed (use new_event_eventOf buildDeliveries_new [OF s] in auto)

lemma IngestFor_keeps: "0 < is_max_attempts s \<Longrightarrow> keeps I (IngestFor ul s ids now inp allowed)"
  unfolding IngestFor_def Let_def
  by (auto intro!: keeps_return resolve_keeps ingest_event_keeps split: sum.split)

lemma Apply_keeps:
  assumes "\<And>j. may_write j"
  shows "keeps I (Apply ids rec now i a)"
  unfolding Apply_def transition_def GetEvent_def
  by (auto intro!: keeps_bind keeps_query keeps_return transition_tries_keeps [OF proper_ApplyAction] assms split: sum.split)

end

subsection \<open>The store provides the contract\<close>

interpretation whole: event_writes inv "\<lambda>_. True" allowed for allowed
  by unfold_locales (auto intro: inv_create_tx inv_transition_tx inv_refresh_tx)

text \<open>One event whose source the caller may not report stays as it is.\<close>

definition foreign_kept :: "string list \<Rightarrow> Event \<Rightarrow> store \<Rightarrow> bool" where
  "foreign_kept sources e0 st = (inv st \<and> (ev_source e0 \<notin> set sources \<longrightarrow> e0 \<in> set (st_events st)))"

lemma create_tx_events: "create_tx e ds st = Inr (u, st') \<Longrightarrow> st_events st' = st_events st @ [event_row e]"
  by (auto simp: create_tx_def split: sum.splits dest!: insertEvent_InrD(1) insertDeliveries_InrD)

lemma transition_tx_events:
  "transition_tx ids i c st = Inr (e, st') \<Longrightarrow>
   st_events st' = update_where (\<lambda>e. ev_id e = i \<and> ev_state e = sc_from c) (set_state c) (st_events st)"
  by (auto simp: transition_tx_def Let_def split: option.splits sum.splits if_splits dest!: insertDeliveries_InrD)

lemma refresh_tx_events:
  "refresh_tx i u st = Inr (e, st') \<Longrightarrow>
   st_events st' = update_where (\<lambda>e. ev_id e = i) (refresh_event u) (st_events st)"
  by (auto simp: refresh_tx_def insertMissingAlerts_def Let_def split: option.splits sum.splits if_splits dest!: insertDeliveries_InrD)

lemma create_tx_attempts:
  assumes "create_tx e ds st = Inr (u, st')"
  shows "st_attempts st' = st_attempts st @ map deliveryArgs ds" "\<not> event_exists st (ev_id e)"
proof -
  from assms obtain st1 where i: "insertEvent e st = Inr st1" and d: "insertDeliveries ds st1 = Inr st'"
    by (auto simp: create_tx_def split: sum.splits)
  show "st_attempts st' = st_attempts st @ map deliveryArgs ds" "\<not> event_exists st (ev_id e)"
    using insertEvent_InrD(1,2) [OF i] insertDeliveries_InrD [OF d] by simp_all
qed

text \<open>The alerts a refresh adds: none unless the severity rises and the incident is not muted, and only to new channels.\<close>

definition rise_alerts :: "string \<Rightarrow> EventUpdate \<Rightarrow> store \<Rightarrow> DeliveryAttempt list" where
  "rise_alerts i u st =
     (case find (\<lambda>e. ev_id e = i \<and> open_event e) (st_events st) of
        None \<Rightarrow> []
      | Some old \<Rightarrow>
          if ev_state old \<noteq> StateMuted \<and> SeverityRank (eu_severity u) > SeverityRank (ev_severity old)
          then filter (\<lambda>d. da_channel_name d \<notin> set (alertChannelNames i st)) (eu_alerts_on_rise u) else [])"

lemma refresh_tx_attempts:
  assumes "refresh_tx i u st = Inr (e, st')"
  shows "st_attempts st' = st_attempts st @ map deliveryArgs (rise_alerts i u st)"
proof -
  have "alertChannelNames i (st\<lparr>st_events := es\<rparr>) = alertChannelNames i st" for es by (simp add: alertChannelNames_def)
  then show ?thesis
    using assms by (auto simp: refresh_tx_def insertMissingAlerts_def Let_def rise_alerts_def
        split: option.splits if_splits sum.splits dest!: insertDeliveries_InrD)
qed

lemma update_where_other: "x \<in> set rows \<Longrightarrow> \<not> P x \<Longrightarrow> x \<in> set (update_where P f rows)"
  by (auto simp: set_update_where image_iff)

interpretation foreign: event_writes "foreign_kept sources e0" "\<lambda>i. i \<noteq> ev_id e0 \<or> ev_source e0 \<in> set sources" "Some sources" for sources e0
proof unfold_locales
  fix st st' e y and ds :: "DeliveryAttempt list"
  assume "foreign_kept sources e0 st" "new_event e" "\<forall>d \<in> set ds. new_alert d" "create_tx e ds st = Inr (y, st')"
  then show "foreign_kept sources e0 st'"
    by (auto simp: foreign_kept_def create_tx_events intro: inv_create_tx)
next
  fix st st' i c ids e
  assume "foreign_kept sources e0 st" "i \<noteq> ev_id e0 \<or> ev_source e0 \<in> set sources" "valid_change c"
    "transition_tx ids i c st = Inr (e, st')"
  then show "foreign_kept sources e0 st'"
    by (auto simp: foreign_kept_def transition_tx_events intro: inv_transition_tx intro!: update_where_other)
next
  fix st st' i u e
  assume "foreign_kept sources e0 st" "i \<noteq> ev_id e0 \<or> ev_source e0 \<in> set sources" "\<forall>d \<in> set (eu_alerts_on_rise u). new_alert d"
    "refresh_tx i u st = Inr (e, st')"
  then show "foreign_kept sources e0 st'"
    by (auto simp: foreign_kept_def refresh_tx_events intro: inv_refresh_tx intro!: update_where_other)
next
  fix st x
  assume "foreign_kept sources e0 st" "x \<in> set (st_events st)" "checkOwner x (Some sources) = Inr ()"
  then show "ev_id x \<noteq> ev_id e0 \<or> ev_source e0 \<in> set sources"
    using event_unique by (auto simp: foreign_kept_def checkOwner_def split: if_splits)
qed

end
