(* ===== verification/Registry.thy ===== *)
theory Registry
  imports Domain
begin

text \<open>
  \<^verbatim>\<open>internal/channels/channel.go\<close>: the registry of configured channels. A channel is what the worker sees of one:
  its type, its name and its timeout. Sending is I/O and stays a parameter of the worker.
\<close>

record Channel =
  ch_type :: ChannelType
  ch_name :: string
  ch_timeout :: duration

text \<open>What a failed send leaves: its text, and whether it wraps the cancellation of its context.\<close>

record send_error =
  se_text :: string
  se_canceled :: bool

record Registry =
  rg_by_name :: "string \<Rightarrow> Channel option"
  rg_order :: "string list"

definition register :: "Registry \<Rightarrow> Channel option \<Rightarrow> Registry" where
  "register r c =
     (case c of
        None \<Rightarrow> r
      | Some ch \<Rightarrow>
          r\<lparr>rg_order := (if rg_by_name r (ch_name ch) = None then rg_order r @ [ch_name ch] else rg_order r),
            rg_by_name := (rg_by_name r)(ch_name ch \<mapsto> ch)\<rparr>)"

definition NewRegistry :: "Channel option list \<Rightarrow> Registry" where
  "NewRegistry chans = foldl register \<lparr>rg_by_name = Map.empty, rg_order = []\<rparr> chans"

definition registry_Get :: "Registry \<Rightarrow> string \<Rightarrow> Channel option" where
  "registry_Get r name = rg_by_name r name"

definition Targets :: "Registry \<Rightarrow> ChannelTarget list" where
  "Targets r =
     map (\<lambda>name. case rg_by_name r name of
            Some c \<Rightarrow> \<lparr>ct_type = ch_type c, ct_name = ch_name c\<rparr>
          | None \<Rightarrow> \<lparr>ct_type = ChannelTypeOther [], ct_name = []\<rparr>) (rg_order r)"

text \<open>\<^verbatim>\<open>len(r.byName)\<close>: the number of keys of the map, all of which are in the order list.\<close>

definition registry_Len :: "Registry \<Rightarrow> nat" where
  "registry_Len r = length (filter (\<lambda>name. rg_by_name r name \<noteq> None) (remdups (rg_order r)))"

definition wf_registry :: "Registry \<Rightarrow> bool" where
  "wf_registry r =
     (distinct (rg_order r) \<and> (\<forall>n. n \<in> set (rg_order r) \<longleftrightarrow> rg_by_name r n \<noteq> None) \<and>
      (\<forall>n c. rg_by_name r n = Some c \<longrightarrow> ch_name c = n))"

lemma wf_register: "wf_registry r \<Longrightarrow> wf_registry (register r c)"
  by (auto simp: wf_registry_def register_def split: option.splits if_splits)

lemma wf_register_all: "wf_registry r \<Longrightarrow> wf_registry (foldl register r chans)"
  by (induction chans arbitrary: r) (simp_all add: wf_register)

lemma wf_NewRegistry: "wf_registry (NewRegistry chans)"
  unfolding NewRegistry_def by (rule wf_register_all) (simp add: wf_registry_def)

lemma wf_registry_Len: "wf_registry r \<Longrightarrow> registry_Len r = length (rg_order r)"
  by (simp add: wf_registry_def registry_Len_def distinct_remdups_id filter_id_conv)

lemma wf_Targets:
  assumes "wf_registry r"
  shows "map ct_name (Targets r) = rg_order r"
proof -
  have "ct_name (case rg_by_name r n of Some c \<Rightarrow> \<lparr>ct_type = ch_type c, ct_name = ch_name c\<rparr>
      | None \<Rightarrow> \<lparr>ct_type = ChannelTypeOther [], ct_name = []\<rparr>) = n" if "n \<in> set (rg_order r)" for n
    using assms that by (auto simp: wf_registry_def split: option.splits)
  then show ?thesis by (simp add: Targets_def map_idI)
qed

end
