(* ===== verification/Worker.thy ===== *)
theory Worker
  imports Complex_Main Store_Preserve Registry
begin

text \<open>
  \<^verbatim>\<open>internal/delivery/worker.go\<close>: the delivery worker. \<open>process\<close> delivers one claimed attempt and writes its
  outcome, \<open>fill\<close> keeps the slots busy, \<open>finished\<close> frees one, \<open>reap\<close> takes back what a dead worker left in
  \<^verbatim>\<open>sending\<close>. What a channel answers to a notification is the parameter \<open>send\<close>; the clock, the random number of
  the jitter and the identifiers drawn are arguments. \<^verbatim>\<open>float64\<close> is exact here: the backoff is computed in
  rationals.
\<close>

subsection \<open>Options\<close>

record Options =
  op_concurrency :: int
  op_poll_interval :: duration
  op_base_backoff :: duration
  op_max_backoff :: duration
  op_stale_after :: duration
  op_shutdown_grace :: duration
  op_fallbacks :: "string \<Rightarrow> string option"
  op_public_url :: string

definition applyDefaults :: "Options \<Rightarrow> Options" where
  "applyDefaults o1 =
     o1\<lparr>op_concurrency := (if op_concurrency o1 \<le> 0 then 2 else op_concurrency o1),
       op_poll_interval := (if op_poll_interval o1 \<le> 0 then 2 * Second else op_poll_interval o1),
       op_base_backoff := (if op_base_backoff o1 \<le> 0 then 30 * Second else op_base_backoff o1),
       op_max_backoff := (if op_max_backoff o1 \<le> 0 then 30 * Minute else op_max_backoff o1),
       op_stale_after := (if op_stale_after o1 \<le> 0 then 5 * Minute else op_stale_after o1),
       op_shutdown_grace := (if op_shutdown_grace o1 \<le> 0 then 5 * Second else op_shutdown_grace o1)\<rparr>"

record Worker =
  wk_registry :: Registry
  wk_opts :: Options
  wk_last_tick :: time

definition tickEvery :: duration where
  "tickEvery = 15 * Second"

definition attemptTimeout :: "Channel \<Rightarrow> duration" where
  "attemptTimeout ch = (if ch_timeout ch > 0 then ch_timeout ch else DefaultChannelTimeout)"

definition raise_stale :: "Registry \<Rightarrow> duration \<Rightarrow> ChannelTarget \<Rightarrow> duration" where
  "raise_stale registry stale t =
     (case registry_Get registry (ct_name t) of
        None \<Rightarrow> stale
      | Some ch \<Rightarrow> if 2 * attemptTimeout ch > stale then 2 * attemptTimeout ch else stale)"

definition NewWorker :: "Registry \<Rightarrow> Options \<Rightarrow> Worker" where
  "NewWorker registry opts0 =
     (let opts = applyDefaults opts0 in
      \<lparr>wk_registry = registry,
       wk_opts = opts\<lparr>op_stale_after := foldl (raise_stale registry) (op_stale_after opts) (Targets registry)\<rparr>,
       wk_last_tick = 0\<rparr>)"

definition perChannelLimit :: "Worker \<Rightarrow> int" where
  "perChannelLimit w =
     (if registry_Len (wk_registry w) < 2 then op_concurrency (wk_opts w)
      else max 1 (op_concurrency (wk_opts w) - 1))"

subsection \<open>Backoff\<close>

definition pow2 :: "int \<Rightarrow> rat" where
  "pow2 n = (if n \<ge> 0 then 2 ^ nat n else 1 / 2 ^ nat (- n))"

definition backoff_exp :: "Options \<Rightarrow> int \<Rightarrow> rat" where
  "backoff_exp o1 attempt =
     (let e = of_int (op_base_backoff o1) * pow2 (attempt - 1) in
      if e > of_int (op_max_backoff o1) then of_int (op_max_backoff o1) else e)"

definition backoff :: "Options \<Rightarrow> rat \<Rightarrow> int \<Rightarrow> duration" where
  "backoff o1 rand attempt = (let half = backoff_exp o1 attempt / 2 in \<lfloor>half + rand * half\<rfloor>)"

subsection \<open>One attempt\<close>

definition errNoChannel :: "string \<Rightarrow> send_error" where
  "errNoChannel name = \<lparr>se_text = ''no channel configured with name '' @ name, se_canceled = False\<rparr>"

text \<open>The clock readings, identifiers and random number one call of \<open>process\<close> uses.\<close>

record draw =
  dw_retry_now :: time
  dw_fallback_now :: time
  dw_save_now :: time
  dw_rand :: rat
  dw_fallback_id :: string
  dw_recovery_id :: string

definition notificationOf :: "Options \<Rightarrow> Event \<Rightarrow> DeliveryAttempt \<Rightarrow> FallbackOrigin option \<Rightarrow> Notification" where
  "notificationOf o1 event att origin =
     \<lparr>nt_event = event, nt_kind = OrAlert (da_kind att), nt_fallback = origin,
      nt_event_url = (if op_public_url o1 \<noteq> [] then op_public_url o1 @ ''/admin/#/events/'' @ PathEscape (ev_id event) else [])\<rparr>"

definition deliver :: "Worker \<Rightarrow> (err \<Rightarrow> string) \<Rightarrow> (string \<Rightarrow> Notification \<Rightarrow> send_error option) \<Rightarrow> DeliveryAttempt \<Rightarrow> send_error option db" where
  "deliver w errText send att =
     (case registry_Get (wk_registry w) (da_channel_name att) of
        None \<Rightarrow> State_Monad.return (Some (errNoChannel (da_channel_name att)))
      | Some ch \<Rightarrow> do {
          g \<leftarrow> GetEvent (da_event_id att);
          (case g of
             Inl x \<Rightarrow> State_Monad.return (Some \<lparr>se_text = errText x, se_canceled = False\<rparr>)
           | Inr event \<Rightarrow>
              (case da_fallback_of att of
                 None \<Rightarrow> State_Monad.return (send (ch_name ch) (notificationOf (wk_opts w) event att None))
               | Some l \<Rightarrow> do {
                   s \<leftarrow> GetDeliveryAttempt (al_id l);
                   State_Monad.return
                     (case s of
                        Inl x \<Rightarrow> Some \<lparr>se_text = ''read the attempt this fallback redirects: '' @ errText x, se_canceled = False\<rparr>
                      | Inr src \<Rightarrow>
                          send (ch_name ch)
                            (notificationOf (wk_opts w) event att
                               (Some \<lparr>fo_channel = da_channel_name src, fo_error = da_last_error src, fo_attempt = da_id src\<rparr>)))
                 }))
        })"

definition fallbackFor :: "Worker \<Rightarrow> draw \<Rightarrow> DeliveryAttempt \<Rightarrow> DeliveryAttempt option" where
  "fallbackFor w dw att =
     (if OrAlert (da_kind att) \<noteq> KindAlert \<or> IsFallback att then None
      else (case registry_Get (wk_registry w) (case op_fallbacks (wk_opts w) (da_channel_name att) of Some n \<Rightarrow> n | None \<Rightarrow> []) of
              None \<Rightarrow> None
            | Some ch \<Rightarrow>
                Some \<lparr>da_id = dw_fallback_id dw, da_event_id = da_event_id att, da_channel = ch_type ch,
                      da_channel_name = ch_name ch, da_kind = KindAlert, da_state = DeliveryPending, da_attempts = 0,
                      da_max_attempts = da_max_attempts att, da_next_retry_at = None, da_last_error = [],
                      da_created_at = dw_fallback_now dw, da_updated_at = dw_fallback_now dw,
                      da_fallback_of = None, da_fallback_to = None, da_recovery_for = None\<rparr>))"

definition save :: "draw \<Rightarrow> DeliveryAttempt \<Rightarrow> DeliveryAttempt option \<Rightarrow> (DeliveryAttempt \<times> bool) result db" where
  "save dw att fallback =
     MarkResult (dw_save_now dw) (dw_recovery_id dw) (att\<lparr>da_updated_at := dw_save_now dw\<rparr>) fallback"

text \<open>What the worker writes for an outcome: the attempt and the fallback it offers.\<close>

definition outcome :: "Worker \<Rightarrow> draw \<Rightarrow> bool \<Rightarrow> DeliveryAttempt \<Rightarrow> send_error option \<Rightarrow> DeliveryAttempt \<times> DeliveryAttempt option" where
  "outcome w dw stopping claimed sendErr =
     (let att = claimed\<lparr>da_attempts := da_attempts claimed + 1\<rparr> in
      case sendErr of
        None \<Rightarrow> (att\<lparr>da_state := DeliverySent, da_next_retry_at := None, da_last_error := []\<rparr>, None)
      | Some x \<Rightarrow>
          if stopping \<and> se_canceled x then (claimed\<lparr>da_state := DeliveryPending\<rparr>, None)
          else
            let att1 = att\<lparr>da_last_error := TruncateRunes (se_text x) MaxLastErrorRunes\<rparr> in
            if da_attempts att1 \<ge> da_max_attempts att1
            then (let att2 = att1\<lparr>da_state := DeliveryDeadLetter, da_next_retry_at := None\<rparr> in (att2, fallbackFor w dw att2))
            else (att1\<lparr>da_state := DeliveryFailed,
                       da_next_retry_at := Some (dw_retry_now dw + backoff (wk_opts w) (dw_rand dw) (da_attempts att1))\<rparr>, None))"

definition process :: "Worker \<Rightarrow> (err \<Rightarrow> string) \<Rightarrow> (string \<Rightarrow> Notification \<Rightarrow> send_error option) \<Rightarrow> draw \<Rightarrow> bool \<Rightarrow> DeliveryAttempt \<Rightarrow> (DeliveryAttempt \<times> bool) result db" where
  "process w errText send dw stopping att = do {
     sendErr \<leftarrow> deliver w errText send (att\<lparr>da_attempts := da_attempts att + 1\<rparr>);
     (let (att', fallback) = outcome w dw stopping att sendErr in save dw att' fallback)
   }"

subsection \<open>The slots\<close>

record scheduler =
  sd_in_flight :: "(string \<times> int) list"
  sd_total :: int

definition newScheduler :: scheduler where
  "newScheduler = \<lparr>sd_in_flight = [], sd_total = 0\<rparr>"

fun bump :: "string \<Rightarrow> (string \<times> int) list \<Rightarrow> (string \<times> int) list" where
  "bump name [] = [(name, 1)]"
| "bump name ((k, n) # m) = (if k = name then (k, n + 1) # m else (k, n) # bump name m)"

definition start :: "scheduler \<Rightarrow> DeliveryAttempt \<Rightarrow> scheduler" where
  "start s att = \<lparr>sd_in_flight = bump (da_channel_name att) (sd_in_flight s), sd_total = sd_total s + 1\<rparr>"

definition skip_channels :: "int \<Rightarrow> scheduler \<Rightarrow> string list" where
  "skip_channels limit s = map fst (filter (\<lambda>(name, n). n \<ge> limit) (sd_in_flight s))"

definition busier :: "int \<Rightarrow> int \<Rightarrow> string \<times> int \<Rightarrow> int" where
  "busier limit b p = (if snd p \<ge> limit then b else max b (snd p))"

definition busiest :: "int \<Rightarrow> scheduler \<Rightarrow> int" where
  "busiest limit s = foldl (busier limit) 0 (sd_in_flight s)"

definition want :: "Worker \<Rightarrow> scheduler \<Rightarrow> int" where
  "want w s = min (op_concurrency (wk_opts w) - sd_total s) (perChannelLimit w - busiest (perChannelLimit w) s)"

text \<open>
  The loop of \<open>fill\<close>, with fuel. The result carries the attempts started, in order. \<open>clock k\<close> and \<open>stopped k\<close> are the
  time and the state of the context at the \<open>k\<close>-th turn of the loop.
\<close>

fun fill_loop :: "nat \<Rightarrow> nat \<Rightarrow> Worker \<Rightarrow> (nat \<Rightarrow> time) \<Rightarrow> (nat \<Rightarrow> bool) \<Rightarrow> scheduler \<Rightarrow> DeliveryAttempt list \<Rightarrow>
    (scheduler \<times> DeliveryAttempt list) option db" where
  "fill_loop 0 k w clock stopped s started = State_Monad.return None"
| "fill_loop (Suc fuel) k w clock stopped s started =
     (if sd_total s < op_concurrency (wk_opts w) \<and> \<not> stopped k then do {
        claimed \<leftarrow> ClaimDue (clock k) (want w s) (skip_channels (perChannelLimit w) s);
        (let s' = foldl start s claimed; started' = started @ claimed in
         if int (length claimed) < want w s then State_Monad.return (Some (s', started'))
         else fill_loop fuel (k + 1) w clock stopped s' started')
      }
      else State_Monad.return (Some (s, started)))"

definition fill :: "Worker \<Rightarrow> (nat \<Rightarrow> time) \<Rightarrow> (nat \<Rightarrow> bool) \<Rightarrow> scheduler \<Rightarrow> (scheduler \<times> DeliveryAttempt list) option db" where
  "fill w clock stopped s =
     fill_loop (nat (op_concurrency (wk_opts w) - sd_total s) + 1) 0 w clock stopped s []"

fun unbump :: "string \<Rightarrow> (string \<times> int) list \<Rightarrow> (string \<times> int) list" where
  "unbump name [] = []"
| "unbump name ((k, n) # m) =
     (if k = name then (if n - 1 \<le> 0 then m else (k, n - 1) # m) else (k, n) # unbump name m)"

definition finished :: "scheduler \<Rightarrow> string \<Rightarrow> scheduler" where
  "finished s name = \<lparr>sd_in_flight = unbump name (sd_in_flight s), sd_total = sd_total s - 1\<rparr>"

subsection \<open>Reaper and heartbeat\<close>

definition reap :: "Worker \<Rightarrow> time \<Rightarrow> time \<Rightarrow> nat db" where
  "reap w now stored_now = RequeueStuckSending stored_now (now - op_stale_after (wk_opts w))"

definition reap_interval :: "Worker \<Rightarrow> duration" where
  "reap_interval w =
     (let interval = op_stale_after (wk_opts w) div 2 in if interval < 30 * Second then 30 * Second else interval)"

definition recordTick :: "Worker \<Rightarrow> time \<Rightarrow> Worker db" where
  "recordTick w now =
     (if now - wk_last_tick w < tickEvery then State_Monad.return w
      else do {
        _ \<leftarrow> RecordWorkerTick now;
        State_Monad.return (w\<lparr>wk_last_tick := now\<rparr>)
      })"

end
