(* ===== verification/Worker_Contract.thy ===== *)
theory Worker_Contract
  imports Worker
begin

text \<open>
  The contract between the worker and the queue half of the store, and the worker's own invariants. \<open>held\<close> says
  that a claimed copy still describes its row: the row may have been taken back, changed hands or been deleted in the
  meantime, but its identity and its budget are those of the copy. \<open>queue_writes\<close> asks of the store that claiming,
  writing an outcome, requeueing and the heartbeat keep an invariant; inside it the worker's operations do so
  under interference.
\<close>

subsection \<open>Copies of rows\<close>

definition held :: "DeliveryAttempt \<Rightarrow> store \<Rightarrow> bool" where
  "held d st =
     (0 \<le> da_attempts d \<and> da_attempts d < da_max_attempts d \<and>
      (\<forall>r \<in> set (st_attempts st). dr_id r = da_id d \<longrightarrow>
         dr_max_attempts r = da_max_attempts d \<and> dr_event_id r = da_event_id d \<and> dr_kind r = OrAlert (da_kind d) \<and>
         (dr_fallback_of r = None \<longleftrightarrow> da_fallback_of d = None)))"

lemma outcome_ok_outcome:
  assumes "held att st" "claimed_row st (da_id att) r" "outcome w dw stopping att x = (d, f)"
  shows "outcome_ok (d\<lparr>da_updated_at := t\<rparr>) r" "da_id d = da_id att"
  using assms by (auto simp: outcome_def outcome_ok_def held_def claimed_row_def active_def Let_def split: option.splits if_splits)

lemma fallback_for_outcome:
  assumes "held att st" "claimed_row st (da_id att) r" "outcome w dw stopping att x = (d, Some f)"
  shows "fallback_for f r" "da_id f = dw_fallback_id dw"
  using assms by (auto simp: outcome_def held_def claimed_row_def fallbackFor_def fallback_for_def new_alert_def IsFallback_def
      Let_def split: option.splits if_splits)

text \<open>What a claim returns is held.\<close>

lemma claim_returns_held:
  assumes inv: "inv st" and d: "d \<in> set (fst (claim_stmt now limit skip st))"
  shows "held d (snd (claim_stmt now limit skip st))"
proof -
  let ?st' = "snd (claim_stmt now limit skip st)"
  have inv': "inv ?st'" by (rule inv_claim [OF inv])
  from d obtain r where r: "r \<in> set (st_attempts ?st')" "d = scanDelivery r" "dr_id r \<in> set (claim_ids now limit skip st)"
    by (auto simp: claim_stmt_def Let_def)
  have s: "dr_state r = DeliverySending"
    using r(1,3) by (auto simp: claim_stmt_def Let_def set_update_where claim_row_def split: if_splits)
  have ok: "row_ok r" by (rule invD(5) [OF inv' r(1)])
  have k: "OrAlert (dr_kind r) = dr_kind r"
    using ok by (auto simp: row_ok_def ValidDeliveryKind_def split: DeliveryKind.splits)
  have "x = r" if "x \<in> set (st_attempts ?st')" "dr_id x = dr_id r" for x
    using attempt_unique [OF inv' that(1) r(1) that(2)] .
  then show ?thesis
    using ok s r k by (auto simp: held_def scanDelivery_def row_ok_def counts_ok_def active_def)
qed

subsection \<open>The contract\<close>

locale queue_writes =
  fixes I :: "store \<Rightarrow> bool" and fresh :: "string \<Rightarrow> bool"
  assumes claim_keeps: "I st \<Longrightarrow> I (snd (claim_stmt now limit skip st))"
    and mark_keeps:
      "I st \<Longrightarrow> (\<And>r. claimed_row st (da_id d) r \<Longrightarrow> outcome_ok d r) \<Longrightarrow>
       (\<And>r f. claimed_row st (da_id d) r \<Longrightarrow> fallback = Some f \<Longrightarrow> fallback_for f r) \<Longrightarrow>
       fresh newID \<Longrightarrow> (\<And>f. fallback = Some f \<Longrightarrow> fresh (da_id f)) \<Longrightarrow>
       mark_tx now newID d fallback st = Inr (a, st') \<Longrightarrow> I st'"
    and requeue_keeps: "I st \<Longrightarrow> I (snd (requeue_stmt now stale st))"
    and replay_keeps: "I st \<Longrightarrow> I (snd (replay_stmt i now st))"
    and tick_keeps: "I st \<Longrightarrow> I (snd (tick_stmt now st))"
begin

lemma deliver_keeps: "keeps I (deliver w errText send att)"
  unfolding deliver_def GetEvent_def GetDeliveryAttempt_def
  by (auto intro!: keeps_bind keeps_return keeps_query split: option.split sum.split)

lemma save_keeps:
  assumes h: "\<And>st. I st \<Longrightarrow> held att st" and o: "outcome w dw stopping att x = (d, f)"
    and fr: "fresh (dw_recovery_id dw)" "fresh (dw_fallback_id dw)"
  shows "keeps I (save dw d f)"
  unfolding save_def MarkResult_def
proof (rule keeps_transact)
  fix st a st'
  assume I: "I st" and m: "mark_tx (dw_save_now dw) (dw_recovery_id dw) (d\<lparr>da_updated_at := dw_save_now dw\<rparr>) f st = Inr (a, st')"
  note held = h [OF I]
  show "I st'"
  proof (rule mark_keeps [OF I _ _ fr(1) _ m])
    fix r assume "claimed_row st (da_id (d\<lparr>da_updated_at := dw_save_now dw\<rparr>)) r"
    then have c: "claimed_row st (da_id att) r"
      using o by (auto simp: outcome_def Let_def split: option.splits if_splits)
    show "outcome_ok (d\<lparr>da_updated_at := dw_save_now dw\<rparr>) r" by (rule outcome_ok_outcome(1) [OF held c o])
    show "fallback_for g r" if "f = Some g" for g using fallback_for_outcome(1) [OF held c] o that by simp
  next
    fix g assume "f = Some g"
    with o have "da_id g = dw_fallback_id dw"
      by (auto simp: outcome_def fallbackFor_def Let_def split: option.splits if_splits)
    with fr(2) show "fresh (da_id g)" by simp
  qed
qed

lemma process_keeps:
  assumes "\<And>st. I st \<Longrightarrow> held att st" "fresh (dw_recovery_id dw)" "fresh (dw_fallback_id dw)"
  shows "keeps I (process w errText send dw stopping att)"
  unfolding process_def
  by (rule keeps_bind [OF deliver_keeps]) (auto intro: save_keeps [OF assms(1) _ assms(2,3)] split: prod.split)

lemma reap_keeps: "keeps I (reap w now stored)"
  unfolding reap_def RequeueStuckSending_def by (rule keeps_atomic) (rule requeue_keeps)

lemma recordTick_keeps: "keeps I (recordTick w now)"
  unfolding recordTick_def RecordWorkerTick_def by (auto intro!: keeps_bind keeps_return keeps_atomic tick_keeps)

lemma fill_loop_keeps: "keeps I (fill_loop fuel k w clock stopped s started)"
  by (induction fuel arbitrary: k s started)
    (auto intro!: keeps_bind keeps_return keeps_atomic claim_keeps simp: ClaimDue_def Let_def)

lemma Replay_keeps: "keeps I (Replay i now)"
  unfolding Replay_def GetDeliveryAttempt_def
  by (auto intro!: keeps_bind keeps_return keeps_query keeps_atomic replay_keeps split: sum.split)

end

subsection \<open>The store provides the contract\<close>

interpretation queue: queue_writes inv "\<lambda>_. True"
  by unfold_locales (auto intro: inv_claim inv_mark_tx inv_requeue inv_replay inv_tick)

text \<open>The rows a statement leaves, as far as \<open>held\<close> looks at them.\<close>

lemma held_update:
  "held d st \<Longrightarrow> (\<And>r. P r \<Longrightarrow> same_job r (f r)) \<Longrightarrow> held d (st\<lparr>st_attempts := update_where P f (st_attempts st)\<rparr>)"
  by (auto simp: held_def set_update_where same_job_def)

lemma held_insert: "held d st \<Longrightarrow> da_id x \<noteq> da_id d \<Longrightarrow> insertDelivery x st = Inr st' \<Longrightarrow> held d st'"
  by (auto simp: held_def dest!: insertDelivery_InrD(1))

lemma held_queueFallback:
  "held d st \<Longrightarrow> newID \<noteq> da_id d \<Longrightarrow> da_id f \<noteq> da_id d \<Longrightarrow> queueFallback newID i f st = Inr (b, st') \<Longrightarrow> held d st'"
proof -
  assume h: "held d st" "newID \<noteq> da_id d" "da_id f \<noteq> da_id d" and q: "queueFallback newID i f st = Inr (b, st')"
  have ins: "held d s'" if "insertDelivery (f\<lparr>da_fallback_of := l\<rparr>) st = Inr s'" for l s'
    using held_insert [OF h(1) _ that] h(3) by simp
  have rec: "held d s''" if "insertDelivery (f\<lparr>da_fallback_of := l\<rparr>) st = Inr s'"
    "insertDelivery (recoveryOf newID a e c n m t) s' = Inr s''" for l s' s'' a e c n m t
    using held_insert [OF ins [OF that(1)] _ that(2)] h(2) by (simp add: recoveryOf_def)
  from q h(1) show ?thesis
    by (auto simp: queueFallback_def Let_def split: if_splits sum.splits option.splits intro: ins rec)
qed

lemma same_job_rows:
  "same_job r (claim_row now r)" "same_job r (mark_row st t d r)" "same_job r (replay_row t r)"
  "same_job r (requeue_row st now r)" "same_job r (cancel_alert t r)"
  by (simp_all add: same_job_def claim_row_def mark_row_def replay_row_def requeue_row_def cancel_alert_def Let_def)

lemma held_statements:
  assumes "held d st"
  shows "held d (snd (claim_stmt now limit skip st))" "held d (snd (requeue_stmt now stale st))"
    "held d (snd (replay_stmt i now st))" "held d (snd (tick_stmt now st))"
  using held_update [OF assms] assms same_job_rows
  by (simp_all add: claim_stmt_def requeue_stmt_def replay_stmt_def Let_def)
    (simp add: tick_stmt_def held_def split: option.split)

interpretation own: queue_writes "\<lambda>st. inv st \<and> held att st" "\<lambda>i. i \<noteq> da_id att" for att
proof unfold_locales
  fix st d fallback newID now a st'
  assume I: "inv st \<and> held att st" and ok: "\<And>r. claimed_row st (da_id d) r \<Longrightarrow> outcome_ok d r"
    and fb: "\<And>r f. claimed_row st (da_id d) r \<Longrightarrow> fallback = Some f \<Longrightarrow> fallback_for f r"
    and fr: "newID \<noteq> da_id att" "\<And>f. fallback = Some f \<Longrightarrow> da_id f \<noteq> da_id att"
    and m: "mark_tx now newID d fallback st = Inr (a, st')"
  have "inv st'" using inv_mark_tx [OF _ ok fb m] I by blast
  moreover have up: "held att (st\<lparr>st_attempts := update_where P (mark_row st t d) (st_attempts st)\<rparr>)" for P t
    using I by (intro held_update) (auto intro: same_job_rows)
  have "held att st'"
    using m fr held_queueFallback [OF up fr(1) fr(2)] up
    by (auto simp: mark_tx_def Let_def split: option.splits sum.splits if_splits)
  ultimately show "inv st' \<and> held att st'" by blast
qed (blast intro: inv_claim inv_requeue inv_replay inv_tick held_statements)+

end
