(* ===== verification/Worker_Slots.thy ===== *)
theory Worker_Slots
  imports Worker_Contract
begin

text \<open>
  The worker's slots and times: no channel ever holds more than its share of the slots and the worker never runs more
  sends than it has slots, whatever the claims return; the loop that fills the slots ends; the backoff stays
  between half the exponential delay and the cap; the stale window covers every channel's timeout.
\<close>

subsection \<open>Loads\<close>

definition load :: "scheduler \<Rightarrow> string \<Rightarrow> int" where
  "load s name = (case map_of (sd_in_flight s) name of Some n \<Rightarrow> n | None \<Rightarrow> 0)"

definition slots_ok :: "Worker \<Rightarrow> scheduler \<Rightarrow> bool" where
  "slots_ok w s =
     (distinct (map fst (sd_in_flight s)) \<and> (\<forall>(name, n) \<in> set (sd_in_flight s). 0 < n \<and> n \<le> perChannelLimit w) \<and>
      sd_total s = sum_list (map snd (sd_in_flight s)) \<and> sd_total s \<le> op_concurrency (wk_opts w))"

lemma map_of_bump: "map_of (bump name m) k = (if k = name then Some (1 + (case map_of m name of Some n \<Rightarrow> n | None \<Rightarrow> 0)) else map_of m k)"
  by (induction m) (auto split: option.split)

lemma fst_bump: "fst ` set (bump name m) = insert name (fst ` set m)"
proof (induction m)
  case (Cons p m)
  then show ?case by (cases p) (auto simp: insert_commute)
qed simp

lemma distinct_bump: "distinct (map fst m) \<Longrightarrow> distinct (map fst (bump name m))"
  by (induction m) (auto simp: fst_bump)

lemma sum_bump: "sum_list (map snd (bump name m)) = sum_list (map snd m) + 1"
  by (induction m) auto

lemma pos_bump: "\<forall>(k, n) \<in> set m. 0 < n \<Longrightarrow> \<forall>(k, n) \<in> set (bump name m). 0 < n"
proof (induction m)
  case (Cons p m)
  then show ?case by (cases p) (auto split: if_splits)
qed simp

lemma load_start: "load (start s att) k = load s k + (if k = da_channel_name att then 1 else 0)"
  by (simp add: load_def start_def map_of_bump split: option.split)

lemma load_starts: "load (foldl start s ds) k = load s k + int (length (filter (\<lambda>d. da_channel_name d = k) ds))"
  by (induction ds arbitrary: s) (auto simp: load_start)

lemma starts_shape:
  "distinct (map fst (sd_in_flight s)) \<Longrightarrow> \<forall>(k, n) \<in> set (sd_in_flight s). 0 < n \<Longrightarrow> sd_total s = sum_list (map snd (sd_in_flight s)) \<Longrightarrow>
   distinct (map fst (sd_in_flight (foldl start s ds))) \<and> (\<forall>(k, n) \<in> set (sd_in_flight (foldl start s ds)). 0 < n) \<and>
   sd_total (foldl start s ds) = sum_list (map snd (sd_in_flight (foldl start s ds)))"
proof (induction ds arbitrary: s)
  case (Cons d ds)
  have "distinct (map fst (sd_in_flight (start s d)))" "\<forall>(k, n) \<in> set (sd_in_flight (start s d)). 0 < n"
    "sd_total (start s d) = sum_list (map snd (sd_in_flight (start s d)))"
    using Cons.prems by (simp_all add: start_def distinct_bump pos_bump sum_bump)
  from Cons.IH [OF this] show ?case by simp
qed simp

lemma total_starts: "sd_total (foldl start s ds) = sd_total s + int (length ds)"
  by (induction ds arbitrary: s) (auto simp: start_def)

lemma load_in_flight: "distinct (map fst (sd_in_flight s)) \<Longrightarrow> (name, n) \<in> set (sd_in_flight s) \<Longrightarrow> load s name = n"
  by (simp add: load_def)

lemma busiest_fold:
  "b \<le> foldl (busier limit) b m \<and> (\<forall>p \<in> set m. snd p < limit \<longrightarrow> snd p \<le> foldl (busier limit) b m) \<and>
   (b < limit \<longrightarrow> foldl (busier limit) b m < limit)"
proof (induction m arbitrary: b)
  case (Cons p m)
  show ?case
    using Cons.IH [of "busier limit b p"] by (auto simp: busier_def split: if_splits)
qed simp

lemma busiest_bound:
  assumes "0 < limit"
  shows "0 \<le> busiest limit s" "busiest limit s < limit" "\<And>name n. (name, n) \<in> set (sd_in_flight s) \<Longrightarrow> n < limit \<Longrightarrow> n \<le> busiest limit s"
  using busiest_fold [of 0 limit "sd_in_flight s"] assms by (force simp: busiest_def)+

subsection \<open>One claim\<close>

lemma claim_length:
  assumes inv: "inv st" and l: "0 < limit"
  shows "int (length (fst (claim_stmt now limit skip st))) \<le> limit"
proof -
  let ?ids = "claim_ids now limit skip st"
  let ?rows = "update_where (\<lambda>r. dr_id r \<in> set ?ids) (claim_row now) (st_attempts st)"
  have "map dr_id ?rows = map dr_id (st_attempts st)" by (rule map_update_where) (simp add: claim_row_def)
  with invD(2) [OF inv] have "distinct (map dr_id (filter (\<lambda>r. dr_id r \<in> set ?ids) ?rows))" by (simp add: distinct_map_filter)
  then have "length (filter (\<lambda>r. dr_id r \<in> set ?ids) ?rows) = card (set (map dr_id (filter (\<lambda>r. dr_id r \<in> set ?ids) ?rows)))"
    by (metis distinct_card length_map)
  also have "\<dots> \<le> card (set ?ids)" by (rule card_mono) auto
  also have "\<dots> \<le> length ?ids" by (rule card_length)
  also have "\<dots> \<le> nat limit" using l by (simp add: claim_ids_def claim_limit_def)
  finally show ?thesis using l by (simp add: claim_stmt_def Let_def)
qed

lemma claim_skips:
  assumes inv: "inv st" and d: "d \<in> set (fst (claim_stmt now limit skip st))"
  shows "da_channel_name d \<notin> set skip"
proof -
  from d obtain r where "r \<in> set (st_attempts st)" "dr_id r \<in> set (claim_ids now limit skip st)" "da_channel_name d = dr_channel_name r"
    by (auto simp: claim_stmt_def Let_def set_update_where claim_row_def scanDelivery_def split: if_splits)
  with claim_ids_deliverable [OF inv] show ?thesis by metis
qed

lemma perChannelLimit_pos: "1 \<le> op_concurrency (wk_opts w) \<Longrightarrow> 0 < perChannelLimit w"
  by (simp add: perChannelLimit_def max_def)

lemma slots_after_claim:
  assumes s: "slots_ok w s" and conc: "1 \<le> op_concurrency (wk_opts w)" and free: "sd_total s < op_concurrency (wk_opts w)"
    and len: "int (length ds) \<le> want w s" and skip: "\<forall>d \<in> set ds. da_channel_name d \<notin> set (skip_channels (perChannelLimit w) s)"
  shows "slots_ok w (foldl start s ds)"
proof -
  let ?l = "perChannelLimit w" and ?s' = "foldl start s ds"
  have l: "0 < ?l" using conc by (rule perChannelLimit_pos)
  note b = busiest_bound [OF l, where s = s]
  have sh: "distinct (map fst (sd_in_flight s))" "\<forall>(k, n) \<in> set (sd_in_flight s). 0 < n" "sd_total s = sum_list (map snd (sd_in_flight s))"
    "\<And>k n. (k, n) \<in> set (sd_in_flight s) \<Longrightarrow> n \<le> ?l"
    using s by (auto simp: slots_ok_def)
  note shape = starts_shape [OF sh(1-3), of ds]
  have "load ?s' k \<le> ?l" for k
  proof (cases "\<exists>n. (k, n) \<in> set (sd_in_flight s) \<and> ?l \<le> n")
    case True
    then obtain n where n: "(k, n) \<in> set (sd_in_flight s)" "?l \<le> n" by blast
    then have "k \<in> set (skip_channels ?l s)" by (force simp: skip_channels_def)
    with skip have "filter (\<lambda>d. da_channel_name d = k) ds = []" by (auto simp: filter_empty_conv)
    then show ?thesis using n sh(4) [OF n(1)] load_in_flight [OF sh(1) n(1)] by (simp add: load_starts)
  next
    case False
    have "load s k \<le> busiest ?l s"
    proof (cases "map_of (sd_in_flight s) k")
      case (Some n)
      then have "(k, n) \<in> set (sd_in_flight s)" by (rule map_of_SomeD)
      with False b(3) Some show ?thesis by (fastforce simp: load_def)
    qed (use b(1) in \<open>simp add: load_def\<close>)
    moreover have "int (length (filter (\<lambda>d. da_channel_name d = k) ds)) \<le> int (length ds)" by simp
    moreover have "want w s \<le> ?l - busiest ?l s" by (simp add: want_def)
    ultimately show ?thesis using len unfolding load_starts by linarith
  qed
  moreover have "load ?s' k = n" if "(k, n) \<in> set (sd_in_flight ?s')" for k n
    using shape that by (simp add: load_in_flight)
  moreover have "sd_total ?s' \<le> op_concurrency (wk_opts w)" using len by (simp add: total_starts want_def)
  ultimately show ?thesis using shape by (force simp: slots_ok_def)
qed

lemma want_pos: "slots_ok w s \<Longrightarrow> 1 \<le> op_concurrency (wk_opts w) \<Longrightarrow> sd_total s < op_concurrency (wk_opts w) \<Longrightarrow> 1 \<le> want w s"
  using busiest_bound(2) [OF perChannelLimit_pos [of w], where s = s] by (simp add: want_def)

lemma slots_finished:
  assumes "slots_ok w s" "load s name > 0"
  shows "slots_ok w (finished s name)"
proof -
  have un: "distinct (map fst m) \<Longrightarrow> \<forall>(k, n) \<in> set m. 0 < n \<and> n \<le> l \<Longrightarrow> map_of m name \<noteq> None \<Longrightarrow>
      distinct (map fst (unbump name m)) \<and> fst ` set (unbump name m) \<subseteq> fst ` set m \<and>
      (\<forall>(k, n) \<in> set (unbump name m). 0 < n \<and> n \<le> l) \<and>
      sum_list (map snd (unbump name m)) = sum_list (map snd m) - 1" for m and l :: int
  proof (induction m)
    case (Cons p m)
    obtain k n where p: "p = (k, n)" by force
    show ?case
    proof (cases "k = name")
      case True
      with Cons.prems show ?thesis by (auto simp: p)
    next
      case False
      with Cons show ?thesis by (auto simp: p)
    qed
  qed simp
  have "map_of (sd_in_flight s) name \<noteq> None" using assms(2) by (auto simp: load_def split: option.splits)
  with un [of "sd_in_flight s" "perChannelLimit w"] assms(1) show ?thesis by (auto simp: slots_ok_def finished_def)
qed

subsection \<open>The loop\<close>

lemma fill_loop_ensures:
  "slots_ok w s \<Longrightarrow> 1 \<le> op_concurrency (wk_opts w) \<Longrightarrow> nat (op_concurrency (wk_opts w) - sd_total s) < fuel \<Longrightarrow>
   ensures inv (fill_loop fuel k w clock stopped s started)
     (\<lambda>r. \<exists>ds. r = Some (foldl start s ds, started @ ds) \<and> slots_ok w (foldl start s ds))"
proof (induction fuel arbitrary: k s started)
  case (Suc fuel)
  show ?case
  proof (cases "sd_total s < op_concurrency (wk_opts w) \<and> \<not> stopped k")
    case True
    let ?cl = "claim_stmt (clock k) (want w s) (skip_channels (perChannelLimit w) s)"
    have w1: "1 \<le> want w s" using want_pos Suc.prems True by blast
    have claim: "ensures inv (atomic ?cl) (\<lambda>ds. slots_ok w (foldl start s ds))"
    proof (rule ensures_atomic)
      fix st assume inv: "inv st"
      have "int (length (fst (?cl st))) \<le> want w s" using claim_length [OF inv] w1 by simp
      then show "inv (snd (?cl st)) \<and> slots_ok w (foldl start s (fst (?cl st)))"
        using inv_claim [OF inv] slots_after_claim [OF Suc.prems(1,2)] claim_skips [OF inv] True by blast
    qed
    show ?thesis
      unfolding fill_loop.simps ClaimDue_def Let_def
      using True
    proof (simp only: if_True simp_thms, intro ensures_bind [OF claim])
      fix ds assume ds: "slots_ok w (foldl start s ds)"
      show "ensures inv (if int (length ds) < want w s then State_Monad.return (Some (foldl start s ds, started @ ds))
          else fill_loop fuel (k + 1) w clock stopped (foldl start s ds) (started @ ds))
        (\<lambda>r. \<exists>ds. r = Some (foldl start s ds, started @ ds) \<and> slots_ok w (foldl start s ds))"
      proof (cases "int (length ds) < want w s")
        case False
        then have "nat (op_concurrency (wk_opts w) - sd_total (foldl start s ds)) < fuel"
          using w1 Suc.prems(3) True by (simp add: total_starts) linarith
        from Suc.IH [OF ds Suc.prems(2) this, of "k + 1" "started @ ds"] False show ?thesis
          by (auto elim!: ensures_mono simp: foldl_append [symmetric] simp del: foldl_append)
      qed (use ds in \<open>auto intro: ensures_return\<close>)
    qed
  next
    case False
    then show ?thesis using Suc.prems(1) by (auto intro!: ensures_return exI [of _ "[]"])
  qed
qed simp

lemma pow2_pos: "0 < pow2 n"
  by (simp add: pow2_def)

lemma backoff_exp_bounds:
  assumes "0 < op_base_backoff o1" "0 < op_max_backoff o1"
  shows "0 < backoff_exp o1 a" "backoff_exp o1 a \<le> of_int (op_max_backoff o1)"
  using assms pow2_pos [of "a - 1"] by (auto simp: backoff_exp_def Let_def)

lemma raise_stale_bounds: "stale \<le> raise_stale r stale t"
  "registry_Get r (ct_name t) = Some ch \<Longrightarrow> 2 * attemptTimeout ch \<le> raise_stale r stale t"
  by (auto simp: raise_stale_def split: option.split)

lemma raise_stale_fold:
  "stale \<le> foldl (raise_stale r) stale ts \<and>
   (\<forall>t \<in> set ts. \<forall>ch. registry_Get r (ct_name t) = Some ch \<longrightarrow> 2 * attemptTimeout ch \<le> foldl (raise_stale r) stale ts)"
proof (induction ts arbitrary: stale)
  case (Cons t ts)
  show ?case
    using Cons.IH [of "raise_stale r stale t"] raise_stale_bounds [where stale = stale and r = r and t = t] by (auto intro: order_trans)
qed simp

lemma applyDefaults_pos:
  "1 \<le> op_concurrency (applyDefaults o1)" "0 < op_base_backoff (applyDefaults o1)" "0 < op_max_backoff (applyDefaults o1)"
  "0 < op_stale_after (applyDefaults o1)"
  by (auto simp: applyDefaults_def)

lemma NewWorker_opts:
  "op_concurrency (wk_opts (NewWorker r o1)) = op_concurrency (applyDefaults o1)"
  "op_base_backoff (wk_opts (NewWorker r o1)) = op_base_backoff (applyDefaults o1)"
  "op_max_backoff (wk_opts (NewWorker r o1)) = op_max_backoff (applyDefaults o1)"
  by (simp_all add: NewWorker_def Let_def)

subsection \<open>Properties\<close>

text \<open>
  C8: filling the slots always ends and, whatever other processes do to the queue meanwhile, leaves every channel within
  its share and the total within the worker's concurrency. With at least two channels and two slots no channel ever
  holds all slots, so a hung channel leaves one for the others.
\<close>

theorem fill_within_slots:
  assumes "inv st" "rely inv es" "slots_ok (NewWorker reg o1) s"
  shows "\<exists>s' started st' es'. run_state (fill (NewWorker reg o1) clock stopped s) (st, es) = (Some (s', started), st', es') \<and>
           inv st' \<and> slots_ok (NewWorker reg o1) s' \<and> s' = foldl start s started \<and>
           (2 \<le> registry_Len reg \<longrightarrow> 2 \<le> op_concurrency (wk_opts (NewWorker reg o1)) \<longrightarrow>
              (\<forall>name. load s' name < op_concurrency (wk_opts (NewWorker reg o1))))"
proof -
  let ?w = "NewWorker reg o1"
  have conc: "1 \<le> op_concurrency (wk_opts ?w)" by (simp add: NewWorker_opts applyDefaults_pos)
  have "ensures inv (fill ?w clock stopped s) (\<lambda>r. \<exists>ds. r = Some (foldl start s ds, [] @ ds) \<and> slots_ok ?w (foldl start s ds))"
    unfolding fill_def by (rule fill_loop_ensures [OF assms(3) conc]) simp
  then obtain ds st' es' where run: "run_state (fill ?w clock stopped s) (st, es) = (Some (foldl start s ds, ds), st', es')"
    and ok: "inv st'" "slots_ok ?w (foldl start s ds)"
    using assms(1,2) unfolding ensures_def by fastforce
  have "load (foldl start s ds) name \<le> max 0 (perChannelLimit ?w)" for name
  proof (cases "map_of (sd_in_flight (foldl start s ds)) name")
    case (Some n)
    then have "n \<le> perChannelLimit ?w" using ok(2) by (auto simp: slots_ok_def dest!: map_of_SomeD)
    with Some show ?thesis by (simp add: load_def)
  qed (simp add: load_def)
  then have "load (foldl start s ds) name < op_concurrency (wk_opts ?w)"
    if "2 \<le> registry_Len reg" "2 \<le> op_concurrency (wk_opts ?w)" for name
  proof -
    have "perChannelLimit ?w = op_concurrency (wk_opts ?w) - 1"
      using that by (simp add: perChannelLimit_def NewWorker_def Let_def max_def)
    with \<open>\<And>name. load (foldl start s ds) name \<le> max 0 (perChannelLimit ?w)\<close> [of name] that(2) show ?thesis by simp
  qed
  with run ok show ?thesis by blast
qed

text \<open>
  The delay before a retry is drawn from the upper half of the exponential delay and never exceeds the configured
  maximum: with a random number in \<open>[0, 1)\<close> it lies between half the capped exponential, rounded down, and the cap.
\<close>

theorem backoff_bounds:
  assumes "0 \<le> rand" "rand < 1"
  shows "\<lfloor>backoff_exp (wk_opts (NewWorker reg o1)) a / 2\<rfloor> \<le> backoff (wk_opts (NewWorker reg o1)) rand a \<and>
         of_int (backoff (wk_opts (NewWorker reg o1)) rand a) \<le> backoff_exp (wk_opts (NewWorker reg o1)) a \<and>
         backoff (wk_opts (NewWorker reg o1)) rand a \<le> op_max_backoff (wk_opts (NewWorker reg o1)) \<and>
         0 \<le> backoff (wk_opts (NewWorker reg o1)) rand a"
proof -
  let ?o = "wk_opts (NewWorker reg o1)"
  have b: "0 < backoff_exp ?o a" "backoff_exp ?o a \<le> of_int (op_max_backoff ?o)"
    by (rule backoff_exp_bounds; simp add: NewWorker_opts applyDefaults_pos)+
  define h where "h = backoff_exp ?o a / 2"
  have h: "0 < h" "backoff_exp ?o a = 2 * h" using b(1) by (simp_all add: h_def)
  have r: "0 \<le> rand * h" "rand * h \<le> h" using assms h(1) by (auto intro: mult_left_le_one_le mult_nonneg_nonneg)
  have d: "backoff ?o rand a = \<lfloor>h + rand * h\<rfloor>" by (simp add: backoff_def h_def Let_def)
  have up: "of_int \<lfloor>h + rand * h\<rfloor> \<le> 2 * h" using r of_int_floor_le [of "h + rand * h"] by linarith
  then have "(of_int \<lfloor>h + rand * h\<rfloor> :: rat) \<le> of_int (op_max_backoff ?o)" using b(2) h(2) by linarith
  then have "\<lfloor>h + rand * h\<rfloor> \<le> op_max_backoff ?o" by (simp only: of_int_le_iff)
  moreover have "\<lfloor>h\<rfloor> \<le> \<lfloor>h + rand * h\<rfloor>" using r by (intro floor_mono) simp
  moreover have "0 \<le> \<lfloor>h + rand * h\<rfloor>" using r h(1) by simp
  moreover have "backoff_exp ?o a / 2 = h" by (simp add: h_def)
  ultimately show ?thesis unfolding d h(2) using up by simp
qed

text \<open>
  The reaper never takes back a send that is still within its channel's timeout: the stale window of a new worker is at
  least twice the timeout of every registered channel, so an attempt claimed less than that long ago is not stuck.
\<close>

theorem stale_window_covers_timeouts:
  assumes "wf_registry reg" "registry_Get reg name = Some ch" "now - dr_updated_at r < 2 * attemptTimeout ch"
  shows "\<not> stuck (now - op_stale_after (wk_opts (NewWorker reg o1))) r"
proof -
  have "name \<in> set (map ct_name (Targets reg))"
    using assms(1,2) wf_Targets [OF assms(1)] by (simp add: wf_registry_def registry_Get_def)
  then obtain t where "t \<in> set (Targets reg)" "ct_name t = name" by auto
  then have "2 * attemptTimeout ch \<le> op_stale_after (wk_opts (NewWorker reg o1))"
    using raise_stale_fold [of "op_stale_after (applyDefaults o1)" reg "Targets reg"] assms(2)
    by (auto simp: NewWorker_def Let_def)
  with assms(3) show ?thesis by (simp add: stuck_def)
qed

end
