(* ===== verification/Evolution.thy ===== *)
theory Evolution
  imports Worker_Contract Service_Contract
begin

text \<open>
  How a single transaction may change what is stored. Rows are created under the identifiers it was given or evolve from a row
  that was there; the identity of a row never changes; an attempt that is \<^verbatim>\<open>sent\<close> or \<^verbatim>\<open>cancelled\<close> and an event that is
  \<^verbatim>\<open>resolved\<close> never change at all. Every transaction and statement of the store is such an evolution.
\<close>

definition final_row :: "delivery_row \<Rightarrow> bool" where
  "final_row r = (dr_state r = DeliverySent \<or> dr_state r = DeliveryCancelled)"

definition row_evolves :: "delivery_row \<Rightarrow> delivery_row \<Rightarrow> bool" where
  "row_evolves r r' = (same_job r r' \<and> (final_row r \<longrightarrow> r' = r))"

definition event_evolves :: "Event \<Rightarrow> Event \<Rightarrow> bool" where
  "event_evolves e e' =
     (ev_id e' = ev_id e \<and> ev_type e' = ev_type e \<and> ev_source e' = ev_source e \<and> ev_category e' = ev_category e \<and>
      ev_entity_type e' = ev_entity_type e \<and> ev_entity_id e' = ev_entity_id e \<and> ev_trace_id e' = ev_trace_id e \<and>
      ev_dedupe_key e' = ev_dedupe_key e \<and> ev_created_at e' = ev_created_at e \<and> (\<not> open_event e \<longrightarrow> e' = e))"

definition evolves :: "store \<Rightarrow> store \<Rightarrow> string set \<Rightarrow> bool" where
  "evolves st st' X =
     ((\<forall>r \<in> set (st_attempts st'). dr_id r \<in> X \<or> (\<exists>r0 \<in> set (st_attempts st). row_evolves r0 r)) \<and>
      (\<forall>e \<in> set (st_events st'). ev_id e \<in> X \<or> (\<exists>e0 \<in> set (st_events st). event_evolves e0 e)))"

lemma row_evolves_refl [simp]: "row_evolves r r"
  by (simp add: row_evolves_def)

lemma event_evolves_refl [simp]: "event_evolves e e"
  by (simp add: event_evolves_def)

lemma row_evolves_id: "row_evolves r r' \<Longrightarrow> dr_id r' = dr_id r"
  by (simp add: row_evolves_def same_job_def)

lemma event_evolves_id: "event_evolves e e' \<Longrightarrow> ev_id e' = ev_id e"
  by (simp add: event_evolves_def)

lemma row_evolves_trans: "row_evolves a b \<Longrightarrow> row_evolves b c \<Longrightarrow> row_evolves a c"
  by (auto simp: row_evolves_def same_job_def)

lemma event_evolves_trans: "event_evolves a b \<Longrightarrow> event_evolves b c \<Longrightarrow> event_evolves a c"
  by (auto simp: event_evolves_def)

lemma kept_row [intro]: "r \<in> set rows \<Longrightarrow> \<exists>r0 \<in> set rows. row_evolves r0 r"
  using row_evolves_refl by blast

lemma kept_event [intro]: "e \<in> set es \<Longrightarrow> \<exists>e0 \<in> set es. event_evolves e0 e"
  using event_evolves_refl by blast

lemma evolves_refl: "evolves st st X"
  unfolding evolves_def by blast

lemma evolvesI:
  assumes "\<And>r. r \<in> set (st_attempts st') \<Longrightarrow> dr_id r \<in> X \<or> (\<exists>r0 \<in> set (st_attempts st). row_evolves r0 r)"
    "\<And>e. e \<in> set (st_events st') \<Longrightarrow> ev_id e \<in> X \<or> (\<exists>e0 \<in> set (st_events st). event_evolves e0 e)"
  shows "evolves st st' X"
  using assms by (simp add: evolves_def)

lemma evolves_rowE:
  assumes "evolves st st' X" "r \<in> set (st_attempts st')" "dr_id r \<notin> X"
  obtains r0 where "r0 \<in> set (st_attempts st)" "row_evolves r0 r"
  using assms by (auto simp: evolves_def)

lemma evolves_eventE:
  assumes "evolves st st' X" "e \<in> set (st_events st')" "ev_id e \<notin> X"
  obtains e0 where "e0 \<in> set (st_events st)" "event_evolves e0 e"
  using assms by (auto simp: evolves_def)

lemma evolves_trans:
  assumes "evolves st st1 X" "evolves st1 st2 X"
  shows "evolves st st2 X"
proof (rule evolvesI)
  fix r assume "r \<in> set (st_attempts st2)"
  show "dr_id r \<in> X \<or> (\<exists>r0 \<in> set (st_attempts st). row_evolves r0 r)"
  proof (cases "dr_id r \<in> X")
    case False
    with assms(2) \<open>r \<in> set (st_attempts st2)\<close> obtain r1 where r1: "r1 \<in> set (st_attempts st1)" "row_evolves r1 r"
      by (rule evolves_rowE)
    with False have "dr_id r1 \<notin> X" using row_evolves_id by metis
    with assms(1) r1(1) obtain r0 where "r0 \<in> set (st_attempts st)" "row_evolves r0 r1" by (rule evolves_rowE)
    with r1(2) show ?thesis using row_evolves_trans by blast
  qed simp
next
  fix e assume "e \<in> set (st_events st2)"
  show "ev_id e \<in> X \<or> (\<exists>e0 \<in> set (st_events st). event_evolves e0 e)"
  proof (cases "ev_id e \<in> X")
    case False
    with assms(2) \<open>e \<in> set (st_events st2)\<close> obtain e1 where e1: "e1 \<in> set (st_events st1)" "event_evolves e1 e"
      by (rule evolves_eventE)
    with False have "ev_id e1 \<notin> X" using event_evolves_id by metis
    with assms(1) e1(1) obtain e0 where "e0 \<in> set (st_events st)" "event_evolves e0 e1" by (rule evolves_eventE)
    with e1(2) show ?thesis using event_evolves_trans by blast
  qed simp
qed

lemma evolves_heartbeat [simp]: "evolves st (st1\<lparr>st_heartbeat := h\<rparr>) X = evolves st st1 X"
  by (simp add: evolves_def)

lemma evolves_rows:
  assumes "\<And>r. r \<in> set (st_attempts st) \<Longrightarrow> P r \<Longrightarrow> row_evolves r (f r)"
  shows "evolves st (st\<lparr>st_attempts := update_where P f (st_attempts st)\<rparr>) X"
proof (rule evolvesI)
  fix r assume "r \<in> set (st_attempts (st\<lparr>st_attempts := update_where P f (st_attempts st)\<rparr>))"
  then have "r \<in> set (update_where P f (st_attempts st))" by simp
  then show "dr_id r \<in> X \<or> (\<exists>r0 \<in> set (st_attempts st). row_evolves r0 r)"
    using assms by (elim in_update_whereE) blast+
qed (simp, blast)

lemma evolves_events:
  assumes "\<And>e. e \<in> set (st_events st) \<Longrightarrow> P e \<Longrightarrow> event_evolves e (f e)"
  shows "evolves st (st\<lparr>st_events := update_where P f (st_events st)\<rparr>) X"
proof (rule evolvesI)
  fix e assume "e \<in> set (st_events (st\<lparr>st_events := update_where P f (st_events st)\<rparr>))"
  then have "e \<in> set (update_where P f (st_events st))" by simp
  then show "ev_id e \<in> X \<or> (\<exists>e0 \<in> set (st_events st). event_evolves e0 e)"
    using assms by (elim in_update_whereE) blast+
qed (simp, blast)

lemma evolves_append:
  assumes "\<forall>r \<in> set rows. dr_id r \<in> X"
  shows "evolves st (st\<lparr>st_attempts := st_attempts st @ rows\<rparr>) X"
  by (rule evolvesI) (use assms in \<open>simp, blast\<close>)+

lemma evolves_insert: "insertDelivery d st = Inr st' \<Longrightarrow> da_id d \<in> X \<Longrightarrow> evolves st st' X"
  using evolves_append [of "[deliveryArgs d]" X st] insertDelivery_InrD(1) [of d st st'] by simp

lemma evolves_inserts:
  assumes "insertDeliveries ds st = Inr st'" "da_id ` set ds \<subseteq> X"
  shows "evolves st st' X"
proof -
  have "\<forall>r \<in> set (map deliveryArgs ds). dr_id r \<in> X" using assms(2) by auto
  from evolves_append [OF this, of st] insertDeliveries_InrD [OF assms(1)] show ?thesis by simp
qed

subsection \<open>The transactions\<close>

lemma evolves_create: "create_tx e ds st = Inr (u, st') \<Longrightarrow> evolves st st' (insert (ev_id e) (da_id ` set ds))"
proof -
  assume c: "create_tx e ds st = Inr (u, st')"
  then obtain st1 where i: "insertEvent e st = Inr st1" and d: "insertDeliveries ds st1 = Inr st'"
    by (auto simp: create_tx_def split: sum.splits)
  have "evolves st st1 (insert (ev_id e) (da_id ` set ds))"
    unfolding insertEvent_InrD(1) [OF i] by (rule evolvesI) (simp, blast, auto)
  with evolves_inserts [OF d, of "insert (ev_id e) (da_id ` set ds)"] show ?thesis by (auto intro: evolves_trans)
qed

lemma row_evolves_functions:
  "waiting_alert i r \<Longrightarrow> row_evolves r (cancel_alert t r)"
  "dr_state r = DeliverySending \<Longrightarrow> row_evolves r (mark_row st t d r)"
  "dr_state r = DeliveryDeadLetter \<Longrightarrow> row_evolves r (replay_row t r)"
  "stuck stale r \<Longrightarrow> row_evolves r (requeue_row st t r)"
  "deliverableCond st t r \<Longrightarrow> row_evolves r (claim_row t r)"
  using same_job_rows
  by (auto simp: row_evolves_def final_row_def waiting_alert_def stuck_def deliverableCond_def)

lemma evolves_transition:
  assumes "transition_tx ids i c st = Inr (e, st')" "valid_change c"
  shows "evolves st st' (range ids)"
proof -
  define P where "P e = (ev_id e = i \<and> ev_state e = sc_from c)" for e :: Event
  let ?st1 = "st\<lparr>st_attempts := cancelled_rows i c (st_attempts st)\<rparr>"
  let ?st2 = "?st1\<lparr>st_events := update_where P (set_state c) (st_events ?st1)\<rparr>"
  let ?st3 = "?st2\<lparr>st_attempts := st_attempts ?st2 @ recovery_rows ids i c st\<rparr>"
  have "evolves st ?st1 (range ids)"
    using evolves_rows [of st "waiting_alert i" "cancel_alert (sc_at c)"] row_evolves_functions(1) evolves_refl
    by (simp add: cancelled_rows_def)
  moreover have "evolves ?st1 ?st2 (range ids)"
    by (rule evolves_events) (use assms(2) in \<open>auto simp: event_evolves_def set_state_def P_def valid_change_def open_event_def\<close>)
  moreover have "evolves ?st2 ?st3 (range ids)"
    by (rule evolves_append) (auto simp: recovery_rows_def recoveries_def recoveryOf_def)
  moreover have "evolves ?st3 st' (range ids)"
    using transition_tx_attempts [OF assms(1)] transition_tx_events [OF assms(1)] evolves_refl [of ?st3]
    by (simp add: evolves_def P_def [abs_def])
  ultimately show ?thesis by (blast intro: evolves_trans)
qed

lemma evolves_refresh:
  assumes "refresh_tx i u st = Inr (e, st')" "inv st"
  shows "evolves st st' (da_id ` set (eu_alerts_on_rise u))"
proof -
  let ?st1 = "st\<lparr>st_events := update_where (\<lambda>e. ev_id e = i) (refresh_event u) (st_events st)\<rparr>"
  let ?X = "da_id ` set (eu_alerts_on_rise u)"
  from assms(1) obtain old where old: "old \<in> set (st_events st)" "ev_id old = i" "open_event old"
    by (auto simp: refresh_tx_def split: option.splits dest!: find_SomeD)
  have "evolves st ?st1 ?X"
    by (rule evolves_events) (use event_unique [OF assms(2) old(1)] old in \<open>auto simp: event_evolves_def refresh_event_def\<close>)
  moreover have "st' = ?st1 \<or> (\<exists>Q. insertDeliveries (filter Q (eu_alerts_on_rise u)) ?st1 = Inr st')"
    using assms(1) by (auto simp: refresh_tx_def insertMissingAlerts_def Let_def split: option.splits if_splits sum.splits)
  ultimately show ?thesis by (auto intro: evolves_trans elim!: evolves_inserts)
qed

lemma evolves_mark:
  assumes "mark_tx now newID d f st = Inr (a, st')" "newID \<in> X" "\<And>g. f = Some g \<Longrightarrow> da_id g \<in> X"
  shows "evolves st st' X"
proof -
  let ?st1 = "\<lambda>t. st\<lparr>st_attempts := update_where (\<lambda>r. dr_id r = da_id d \<and> dr_state r = DeliverySending) (mark_row st t d) (st_attempts st)\<rparr>"
  have up: "evolves st (?st1 t) X" for t
    by (rule evolves_rows) (simp add: row_evolves_functions(2))
  have q: "evolves s s' X" if "queueFallback newID i g s = Inr (b, s')" "da_id g \<in> X" for i g b s s'
  proof -
    have i1: "evolves s s1 X" if "insertDelivery (g\<lparr>da_fallback_of := l\<rparr>) s = Inr s1" for l s1
      using evolves_insert [OF that] \<open>da_id g \<in> X\<close> by simp
    have i2: "evolves s s2 X" if "insertDelivery (g\<lparr>da_fallback_of := l\<rparr>) s = Inr s1"
      "insertDelivery (recoveryOf newID x y c n m t) s1 = Inr s2" for l s1 s2 x y c n m t
      using evolves_trans [OF i1 [OF that(1)] evolves_insert [OF that(2)]] assms(2) by (simp add: recoveryOf_def)
    show ?thesis
      using that(1) by (auto simp: queueFallback_def Let_def split: if_splits sum.splits option.splits intro: i1 i2 evolves_refl)
  qed
  show ?thesis
    using assms(1,3) up evolves_trans [OF up q]
    by (auto simp: mark_tx_def Let_def split: option.splits if_splits sum.splits)
qed

lemma evolves_claim: "inv st \<Longrightarrow> evolves st (snd (claim_stmt now limit skip st)) X"
  using evolves_rows [of st "\<lambda>r. dr_id r \<in> set (claim_ids now limit skip st)" "claim_row now" X]
    claim_ids_deliverable row_evolves_functions(5) by (fastforce simp: claim_stmt_def Let_def)

lemma evolves_replay: "evolves st (snd (replay_stmt i t st)) X"
  using evolves_rows [of st "\<lambda>r. dr_id r = i \<and> dr_state r = DeliveryDeadLetter" "replay_row t" X] row_evolves_functions(3)
  by (simp add: replay_stmt_def)

lemma evolves_requeue: "evolves st (snd (requeue_stmt now stale st)) X"
  using evolves_rows [of st "stuck stale" "requeue_row st now" X] row_evolves_functions(4) by (simp add: requeue_stmt_def)

lemma evolves_tick: "evolves st (snd (tick_stmt t st)) X"
  using evolves_refl by (simp add: tick_stmt_def split: option.split)

lemma evolves_delete: "evolves st (snd (delete_events_stmt cutoff st)) X"
  unfolding delete_events_stmt_def Let_def by (rule evolvesI) (simp, blast)+

end
