(* ===== verification/System.thy ===== *)
theory System
  imports Evolution
begin

text \<open>
  The whole system as a step relation at the granularity of database transactions: any number of API processes, workers,
  reapers and retention loops, interleaved in any order. A state is the store, the copies of claimed attempts the workers
  hold, the identifiers drawn so far and the attempts an operator has replayed. A worker that dies is one that never
  writes its copy back. An identifier that is drawn is new, which is what \<^verbatim>\<open>uuid.NewString\<close> promises.
\<close>

record sys =
  sy_store :: store
  sy_held :: "DeliveryAttempt list"
  sy_used :: "string set"
  sy_replayed :: "string set"

definition sys_init :: sys where
  "sys_init = \<lparr>sy_store = empty_store, sy_held = [], sy_used = {}, sy_replayed = {}\<rparr>"

inductive step :: "sys \<Rightarrow> sys \<Rightarrow> bool" where
  create: "create_tx e ds (sy_store s) = Inr (u, st') \<Longrightarrow> new_event e \<Longrightarrow> ev_state e = StateNew \<Longrightarrow>
     \<forall>d \<in> set ds. new_alert d \<and> da_event_id d = ev_id e \<Longrightarrow>
     insert (ev_id e) (da_id ` set ds) \<inter> sy_used s = {} \<Longrightarrow>
     step s (s\<lparr>sy_store := st', sy_used := sy_used s \<union> insert (ev_id e) (da_id ` set ds)\<rparr>)"
| transition: "transition_tx ids i c (sy_store s) = Inr (e, st') \<Longrightarrow> valid_change c \<Longrightarrow> range ids \<inter> sy_used s = {} \<Longrightarrow>
     step s (s\<lparr>sy_store := st', sy_used := sy_used s \<union> range ids\<rparr>)"
| refresh: "refresh_tx i u (sy_store s) = Inr (e, st') \<Longrightarrow> \<forall>d \<in> set (eu_alerts_on_rise u). new_alert d \<and> da_event_id d = i \<Longrightarrow>
     da_id ` set (eu_alerts_on_rise u) \<inter> sy_used s = {} \<Longrightarrow>
     step s (s\<lparr>sy_store := st', sy_used := sy_used s \<union> da_id ` set (eu_alerts_on_rise u)\<rparr>)"
| claim: "claim_stmt now limit skip (sy_store s) = (ds, st') \<Longrightarrow>
     step s (s\<lparr>sy_store := st', sy_held := sy_held s @ ds\<rparr>)"
| mark: "att \<in> set (sy_held s) \<Longrightarrow> outcome w dw stopping att x = (d, f) \<Longrightarrow>
     mark_tx now (dw_recovery_id dw) (d\<lparr>da_updated_at := dw_save_now dw\<rparr>) f (sy_store s) = Inr (a, st') \<Longrightarrow>
     dw_recovery_id dw \<notin> sy_used s \<Longrightarrow> dw_fallback_id dw \<notin> sy_used s \<Longrightarrow> dw_recovery_id dw \<noteq> dw_fallback_id dw \<Longrightarrow>
     step s (s\<lparr>sy_store := st', sy_held := remove1 att (sy_held s), sy_used := sy_used s \<union> {dw_recovery_id dw, dw_fallback_id dw}\<rparr>)"
| lost: "att \<in> set (sy_held s) \<Longrightarrow> step s (s\<lparr>sy_held := remove1 att (sy_held s)\<rparr>)"
| replay: "replay_stmt i t (sy_store s) = (n, st') \<Longrightarrow> step s (s\<lparr>sy_store := st', sy_replayed := insert i (sy_replayed s)\<rparr>)"
| requeue: "requeue_stmt now stale (sy_store s) = (n, st') \<Longrightarrow> step s (s\<lparr>sy_store := st'\<rparr>)"
| retention: "delete_events_stmt cutoff (sy_store s) = (n, st') \<Longrightarrow> step s (s\<lparr>sy_store := st'\<rparr>)"
| orphans: "delete_orphans_stmt cutoff (sy_store s) = (n, st') \<Longrightarrow> step s (s\<lparr>sy_store := st'\<rparr>)"
| tick: "tick_stmt t (sy_store s) = (u, st') \<Longrightarrow> step s (s\<lparr>sy_store := st'\<rparr>)"

inductive reachable :: "sys \<Rightarrow> bool" where
  init: "reachable sys_init"
| step: "reachable s \<Longrightarrow> step s s' \<Longrightarrow> reachable s'"

subsection \<open>Invariants by induction\<close>

locale system_invariant =
  fixes J :: "sys \<Rightarrow> bool"
  assumes base: "J sys_init" and keep: "reachable s \<Longrightarrow> J s \<Longrightarrow> step s s' \<Longrightarrow> J s'"
begin

lemma everywhere: "reachable s \<Longrightarrow> J s"
  by (induction rule: reachable.induct) (auto intro: base keep)

end

subsection \<open>The invariant of the system\<close>

definition sys_inv :: "sys \<Rightarrow> bool" where
  "sys_inv s =
     (inv (sy_store s) \<and> (\<forall>d \<in> set (sy_held s). held d (sy_store s) \<and> da_id d \<in> sy_used s) \<and>
      (\<forall>r \<in> set (st_attempts (sy_store s)). dr_id r \<in> sy_used s) \<and>
      (\<forall>e \<in> set (st_events (sy_store s)). ev_id e \<in> sy_used s))"

text \<open>A copy that is held stays held: the rows keep their identity and new rows have other identifiers.\<close>

lemma held_adds:
  assumes "held d st" "evolves st st' X" "da_id d \<notin> X"
  shows "held d st'"
  unfolding held_def
proof (intro conjI ballI impI)
  fix r assume "r \<in> set (st_attempts st')" "dr_id r = da_id d"
  with assms(2,3) obtain r0 where "r0 \<in> set (st_attempts st)" "same_job r0 r" by (auto simp: evolves_def row_evolves_def)
  with assms(1) \<open>dr_id r = da_id d\<close>
  show "dr_max_attempts r = da_max_attempts d" "dr_event_id r = da_event_id d" "dr_kind r = OrAlert (da_kind d)"
    "(dr_fallback_of r = None) = (da_fallback_of d = None)"
    by (auto simp: held_def same_job_def)
qed (use assms(1) in \<open>auto simp: held_def\<close>)

lemma sys_inv_adds:
  assumes s: "sys_inv s" and st': "inv st'" and a: "evolves (sy_store s) st' X" and X: "X \<inter> sy_used s = {}"
    and h: "set hs \<subseteq> set (sy_held s)"
  shows "sys_inv (s\<lparr>sy_store := st', sy_held := hs, sy_used := sy_used s \<union> X\<rparr>)"
proof -
  have "held d st' \<and> da_id d \<in> sy_used s" if "d \<in> set hs" for d
    using s h that X held_adds [OF _ a, of d] by (auto simp: sys_inv_def)
  moreover have "dr_id r \<in> sy_used s \<union> X" if "r \<in> set (st_attempts st')" for r
    using a s that unfolding evolves_def sys_inv_def by (metis Un_iff row_evolves_id)
  moreover have "ev_id e \<in> sy_used s \<union> X" if "e \<in> set (st_events st')" for e
    using a s that unfolding evolves_def sys_inv_def by (metis Un_iff event_evolves_id)
  ultimately show ?thesis using st' by (auto simp: sys_inv_def)
qed

lemma sys_inv_same_held:
  assumes "sys_inv s" "inv st'" "evolves (sy_store s) st' X" "X \<inter> sy_used s = {}"
  shows "sys_inv (s\<lparr>sy_store := st', sy_used := sy_used s \<union> X\<rparr>)"
  using sys_inv_adds [OF assms subset_refl] by simp

lemma sys_inv_statement:
  assumes "sys_inv s" "inv st'" "evolves (sy_store s) st' {}"
  shows "sys_inv (s\<lparr>sy_store := st'\<rparr>)"
  using sys_inv_same_held [OF assms] by simp

lemma sys_inv_claim:
  assumes s: "sys_inv s" and c: "claim_stmt now limit skip (sy_store s) = (ds, st')"
  shows "sys_inv (s\<lparr>sy_store := st', sy_held := sy_held s @ ds\<rparr>)"
proof -
  have inv: "inv (sy_store s)" using s by (simp add: sys_inv_def)
  have "sys_inv (s\<lparr>sy_store := st'\<rparr>)"
    using sys_inv_statement [OF s] inv_claim [OF inv] evolves_claim [OF inv] by (metis c snd_conv)
  moreover have "held d st'" if "d \<in> set ds" for d
    using claim_returns_held [OF inv] that c by (metis fst_conv snd_conv)
  moreover have "da_id d \<in> sy_used s" if "d \<in> set ds" for d
  proof -
    from that c obtain r where "r \<in> set (st_attempts st')" "da_id d = dr_id r"
      by (auto simp: claim_stmt_def Let_def scanDelivery_def)
    with \<open>sys_inv (s\<lparr>sy_store := st'\<rparr>)\<close> show ?thesis by (auto simp: sys_inv_def)
  qed
  ultimately show ?thesis by (auto simp: sys_inv_def)
qed

lemma sys_inv_mark:
  assumes s: "sys_inv s" and att: "att \<in> set (sy_held s)" and o: "outcome w dw stopping att x = (d, f)"
    and m: "mark_tx now (dw_recovery_id dw) (d\<lparr>da_updated_at := dw_save_now dw\<rparr>) f (sy_store s) = Inr (a, st')"
    and fr: "dw_recovery_id dw \<notin> sy_used s" "dw_fallback_id dw \<notin> sy_used s"
  shows "sys_inv (s\<lparr>sy_store := st', sy_held := remove1 att (sy_held s), sy_used := sy_used s \<union> {dw_recovery_id dw, dw_fallback_id dw}\<rparr>)"
proof (rule sys_inv_adds [OF s])
  have inv: "inv (sy_store s)" and h: "held att (sy_store s)" using s att by (auto simp: sys_inv_def)
  have i: "da_id (d\<lparr>da_updated_at := dw_save_now dw\<rparr>) = da_id att"
    using o by (auto simp: outcome_def Let_def split: option.splits if_splits)
  show "inv st'"
    by (rule inv_mark_tx [OF inv _ _ m]) (use outcome_ok_outcome(1) [OF h _ o] fallback_for_outcome(1) [OF h] o i in auto)
  show "evolves (sy_store s) st' {dw_recovery_id dw, dw_fallback_id dw}"
    by (rule evolves_mark [OF m]) (use o in \<open>auto simp: outcome_def fallbackFor_def Let_def split: option.splits if_splits\<close>)
qed (use fr in \<open>auto dest: subsetD [OF set_remove1_subset]\<close>)

lemma sys_inv_step: "step s s' \<Longrightarrow> sys_inv s \<Longrightarrow> sys_inv s'"
proof (induction rule: step.induct)
  case (create e ds s u st')
  then show ?case by (intro sys_inv_same_held) (auto simp: sys_inv_def intro: inv_create_tx evolves_create)
next
  case (transition ids i c s e st')
  then show ?case by (intro sys_inv_same_held) (auto simp: sys_inv_def intro: inv_transition_tx evolves_transition)
next
  case (refresh i u s e st')
  then show ?case by (intro sys_inv_same_held) (auto simp: sys_inv_def intro: inv_refresh_tx evolves_refresh)
next
  case (claim now limit skip s ds st')
  then show ?case by (intro sys_inv_claim) auto
next
  case (mark att s w dw stopping x d f now a st')
  then show ?case by (intro sys_inv_mark) auto
next
  case (lost att s)
  then show ?case by (auto simp: sys_inv_def dest: in_set_remove1)
next
  case (replay i t s n st')
  then have "sys_inv (s\<lparr>sy_store := st'\<rparr>)"
    using inv_replay [of "sy_store s" i t] evolves_replay [of "sy_store s" i t "{}"]
    by (intro sys_inv_statement) (auto simp: sys_inv_def)
  then show ?case by (simp add: sys_inv_def)
next
  case (requeue now stale s n st')
  then show ?case
    using inv_requeue [of "sy_store s" now stale] evolves_requeue [of "sy_store s" now stale "{}"]
    by (intro sys_inv_statement) (auto simp: sys_inv_def)
next
  case (retention cutoff s n st')
  then show ?case
    using inv_delete_events_stmt [of "sy_store s" cutoff] evolves_delete [of "sy_store s" cutoff "{}"]
    by (intro sys_inv_statement) (auto simp: sys_inv_def)
next
  case (orphans cutoff s n st')
  then show ?case using delete_orphans_id [of "sy_store s" cutoff] by (auto simp: sys_inv_def)
next
  case (tick t s u st')
  then show ?case
    using inv_tick [of "sy_store s" t] evolves_tick [of "sy_store s" t "{}"]
    by (intro sys_inv_statement) (auto simp: sys_inv_def)
qed

interpretation core: system_invariant sys_inv
proof
  show "sys_inv sys_init"
    by (simp add: sys_inv_def sys_init_def inv_empty) (simp add: empty_store_def)
qed (rule sys_inv_step)

subsection \<open>Evolution along a run\<close>

inductive_cases stepE: "step s s'"

lemma evolves_mono: "evolves st st' X \<Longrightarrow> X \<subseteq> Y \<Longrightarrow> evolves st st' Y"
  unfolding evolves_def by blast

lemma step_evolves:
  "step s s' \<Longrightarrow> sys_inv s \<Longrightarrow>
   \<exists>X. X \<inter> sy_used s = {} \<and> sy_used s' = sy_used s \<union> X \<and> evolves (sy_store s) (sy_store s') X"
proof (induction rule: step.induct)
  case (create e ds s u st')
  then show ?case using evolves_create by (intro exI [of _ "insert (ev_id e) (da_id ` set ds)"]) auto
next
  case (transition ids i c s e st')
  then show ?case using evolves_transition by (intro exI [of _ "range ids"]) auto
next
  case (refresh i u s e st')
  then show ?case using evolves_refresh by (intro exI [of _ "da_id ` set (eu_alerts_on_rise u)"]) (auto simp: sys_inv_def)
next
  case (claim now limit skip s ds st')
  then show ?case using evolves_claim [of "sy_store s" now limit skip "{}"] by (intro exI [of _ "{}"]) (auto simp: sys_inv_def)
next
  case (mark att s w dw stopping x d f now a st')
  have "evolves (sy_store s) st' {dw_recovery_id dw, dw_fallback_id dw}"
    by (rule evolves_mark [OF mark(3)])
      (use mark(2) in \<open>auto simp: outcome_def fallbackFor_def Let_def split: option.splits if_splits\<close>)
  with mark show ?case by (intro exI [of _ "{dw_recovery_id dw, dw_fallback_id dw}"]) auto
next
  case (replay i t s n st')
  then show ?case using evolves_replay [of "sy_store s" i t "{}"] by (intro exI [of _ "{}"]) auto
next
  case (requeue now stale s n st')
  then show ?case using evolves_requeue [of "sy_store s" now stale "{}"] by (intro exI [of _ "{}"]) auto
next
  case (retention cutoff s n st')
  then show ?case using evolves_delete [of "sy_store s" cutoff "{}"] by (intro exI [of _ "{}"]) auto
next
  case (orphans cutoff s n st')
  then show ?case using delete_orphans_id [of "sy_store s" cutoff] evolves_refl by (intro exI [of _ "{}"]) (auto simp: sys_inv_def)
next
  case (tick t s u st')
  then show ?case using evolves_tick [of "sy_store s" t "{}"] by (intro exI [of _ "{}"]) auto
qed (auto intro: evolves_refl)

lemma run_evolves:
  assumes "step\<^sup>*\<^sup>* s s'" "sys_inv s"
  shows "sys_inv s' \<and> sy_used s \<subseteq> sy_used s' \<and> (\<exists>X. X \<inter> sy_used s = {} \<and> evolves (sy_store s) (sy_store s') X)"
  using assms(1)
proof (induction rule: rtranclp_induct)
  case base
  show ?case using assms(2) evolves_refl by blast
next
  case (step s1 s2)
  then obtain X where inv1: "sys_inv s1" and used: "sy_used s \<subseteq> sy_used s1"
    and X: "X \<inter> sy_used s = {}" "evolves (sy_store s) (sy_store s1) X" by blast
  obtain Y where Y: "Y \<inter> sy_used s1 = {}" "sy_used s2 = sy_used s1 \<union> Y" "evolves (sy_store s1) (sy_store s2) Y"
    using step_evolves [OF step.hyps(2) inv1] by blast
  have "evolves (sy_store s) (sy_store s2) (X \<union> Y)"
    by (rule evolves_trans [OF evolves_mono [OF X(2)] evolves_mono [OF Y(3)]]) simp_all
  moreover have "(X \<union> Y) \<inter> sy_used s = {}" using X(1) Y(1) used by blast
  moreover have "sy_used s \<subseteq> sy_used s2" using used Y(2) by blast
  ultimately show ?case using sys_inv_step [OF step.hyps(2) inv1] by blast
qed

subsection \<open>Muted incidents\<close>

definition queued_alert :: "delivery_row \<Rightarrow> bool" where
  "queued_alert r = (dr_kind r = KindAlert \<and> (dr_state r = DeliveryPending \<or> dr_state r = DeliveryFailed))"

definition muted_quiet :: "sys \<Rightarrow> bool" where
  "muted_quiet s =
     (\<forall>r \<in> set (st_attempts (sy_store s)). queued_alert r \<longrightarrow> event_muted (sy_store s) (dr_event_id r) \<longrightarrow> dr_id r \<in> sy_replayed s)"

lemma event_muted_iff: "inv st \<Longrightarrow> event_muted st i \<longleftrightarrow> (\<exists>e \<in> set (st_events st). ev_id e = i \<and> ev_state e = StateMuted)"
proof
  assume "inv st" and "\<exists>e \<in> set (st_events st). ev_id e = i \<and> ev_state e = StateMuted"
  then obtain e where "e \<in> set (st_events st)" "ev_id e = i" "ev_state e = StateMuted" by blast
  moreover from this have "event_by_id st i = Some e"
    using find_by_key [OF invD(1) [OF \<open>inv st\<close>]] by (auto simp: event_by_id_def)
  ultimately show "event_muted st i" by (simp add: event_muted_def)
qed (auto simp: event_muted_def event_by_id_def split: option.splits dest!: find_SomeD)

lemma event_muted_cong: "st_events st' = st_events st \<Longrightarrow> event_muted st' i = event_muted st i"
  by (simp add: event_muted_def event_by_id_def)

lemma mark_tx_rows:
  assumes "mark_tx now newID d f st = Inr (a, st')"
  obtains t r0 where "st_events st' = st_events st" "claimed_row st (da_id d) r0"
    "\<And>r. r \<in> set (st_attempts st') \<Longrightarrow> r \<in> set (update_where (\<lambda>r. dr_id r = da_id d \<and> dr_state r = DeliverySending) (mark_row st t d) (st_attempts st)) \<or>
       dr_kind r = KindRecovery \<or> (\<exists>g. f = Some g \<and> dr_event_id r = da_event_id g \<and> dr_state (mark_row st t d r0) = DeliveryDeadLetter)"
proof -
  define t where "t = (if da_updated_at d = 0 then now else da_updated_at d)"
  define P where "P r = (dr_id r = da_id d \<and> dr_state r = DeliverySending)" for r :: delivery_row
  define st1 where "st1 = st\<lparr>st_attempts := update_where P (mark_row st t d) (st_attempts st)\<rparr>"
  from assms obtain r0 where r0: "find P (st_attempts st) = Some r0"
    and cs: "st' = st1 \<or> (\<exists>g b. f = Some g \<and> dr_state (mark_row st t d r0) = DeliveryDeadLetter \<and> queueFallback newID (da_id d) g st1 = Inr (b, st'))"
    by (auto simp: mark_tx_def Let_def P_def [abs_def] st1_def t_def split: option.splits if_splits sum.splits)
  have q: "st_events s' = st_events s \<and> (\<forall>r \<in> set (st_attempts s'). r \<in> set (st_attempts s) \<or> dr_kind r = KindRecovery \<or> dr_event_id r = da_event_id g)"
    if "queueFallback newID i g s = Inr (b, s')" for i g s b s'
    using that by (auto simp: queueFallback_def Let_def recoveryOf_def split: if_splits sum.splits option.splits dest!: insertDelivery_InrD(1))
  show ?thesis
  proof (rule that)
    show "st_events st' = st_events st" using cs q by (auto simp: st1_def)
    show "claimed_row st (da_id d) r0" using r0 by (auto simp: claimed_row_def P_def dest: find_SomeD)
    fix r assume "r \<in> set (st_attempts st')"
    then show "r \<in> set (update_where (\<lambda>r. dr_id r = da_id d \<and> dr_state r = DeliverySending) (mark_row st t d) (st_attempts st)) \<or>
       dr_kind r = KindRecovery \<or> (\<exists>g. f = Some g \<and> dr_event_id r = da_event_id g \<and> dr_state (mark_row st t d r0) = DeliveryDeadLetter)"
      using cs q by (fastforce simp: st1_def P_def [abs_def])
  qed
qed

text \<open>
  One lemma per kind of step: what is queued for a muted incident afterwards was queued for it before.
\<close>

lemma quietI:
  assumes "muted_quiet s" "sy_replayed s \<subseteq> sy_replayed s'"
    and "\<And>r. r \<in> set (st_attempts (sy_store s')) \<Longrightarrow> queued_alert r \<Longrightarrow> event_muted (sy_store s') (dr_event_id r) \<Longrightarrow>
      dr_id r \<in> sy_replayed s' \<or> (\<exists>r0 \<in> set (st_attempts (sy_store s)). queued_alert r0 \<and> dr_id r0 = dr_id r \<and> event_muted (sy_store s) (dr_event_id r0))"
  shows "muted_quiet s'"
  using assms unfolding muted_quiet_def by (metis subsetD)

lemma quiet_create:
  assumes "create_tx e ds st = Inr (u, st')" "inv st" "inv st'" "ev_state e = StateNew" "\<forall>d \<in> set ds. da_event_id d = ev_id e"
    and r: "r \<in> set (st_attempts st')" "event_muted st' (dr_event_id r)"
  shows "r \<in> set (st_attempts st) \<and> event_muted st (dr_event_id r)"
proof -
  have ev: "st_events st' = st_events st @ [event_row e]" by (rule create_tx_events [OF assms(1)])
  note at = create_tx_attempts(1) [OF assms(1)] and new = create_tx_attempts(2) [OF assms(1)]
  from r(2) obtain x where x: "x \<in> set (st_events st')" "ev_id x = dr_event_id r" "ev_state x = StateMuted"
    by (auto simp: event_muted_iff [OF assms(3)])
  with ev assms(4) have xs: "x \<in> set (st_events st)" by auto
  with x have m: "event_muted st (dr_event_id r)" by (auto simp: event_muted_iff [OF assms(2)])
  have "dr_event_id r \<noteq> ev_id e" using new xs x(2) by (auto simp: event_exists_def)
  with r(1) at assms(5) have "r \<in> set (st_attempts st)" by auto
  with m show ?thesis by simp
qed

lemma quiet_transition:
  assumes t: "transition_tx ids i c st = Inr (e, st')" and "inv st" "inv st'" "valid_change c"
    and r: "r \<in> set (st_attempts st')" "queued_alert r" "event_muted st' (dr_event_id r)"
  shows "r \<in> set (st_attempts st) \<and> event_muted st (dr_event_id r)"
proof -
  note at = transition_tx_attempts [OF t]
  have rows: "r \<in> set (cancelled_rows i c (st_attempts st))"
    using r(1,2) by (auto simp: at recovery_rows_def recoveries_def recoveryOf_def queued_alert_def)
  have keep: "r \<in> set (st_attempts st)"
    using rows r(2) by (auto simp: cancelled_rows_def set_update_where cancel_alert_def queued_alert_def split: if_splits)
  from r(3) obtain x where x: "x \<in> set (st_events st')" "ev_id x = dr_event_id r" "ev_state x = StateMuted"
    by (auto simp: event_muted_iff [OF assms(3)])
  have "x \<in> set (st_events st)"
  proof (rule ccontr)
    assume "x \<notin> set (st_events st)"
    with x(1) transition_tx_events [OF t] have "ev_id x = i" "sc_to c = StateMuted"
      using x(3) by (auto simp: set_update_where set_state_def split: if_splits)
    with assms(4) have "sc_cancel_alerts c" "waiting_alert i r"
      using r(2) x(2) by (auto simp: valid_change_def waiting_alert_def queued_alert_def)
    with rows r(2) show False
      by (auto simp: cancelled_rows_def set_update_where cancel_alert_def queued_alert_def split: if_splits)
  qed
  with x keep show ?thesis by (auto simp: event_muted_iff [OF assms(2)])
qed

lemma quiet_refresh:
  assumes t: "refresh_tx i u st = Inr (e, st')" and "inv st" "inv st'" "\<forall>d \<in> set (eu_alerts_on_rise u). da_event_id d = i"
    and r: "r \<in> set (st_attempts st')" "event_muted st' (dr_event_id r)"
  shows "r \<in> set (st_attempts st) \<and> event_muted st (dr_event_id r)"
proof -
  from r(2) obtain x where x: "x \<in> set (st_events st')" "ev_id x = dr_event_id r" "ev_state x = StateMuted"
    by (auto simp: event_muted_iff [OF assms(3)])
  with refresh_tx_events [OF t] have "\<exists>y \<in> set (st_events st). ev_id y = dr_event_id r \<and> ev_state y = StateMuted"
    by (auto simp: set_update_where refresh_event_def split: if_splits)
  then have m: "event_muted st (dr_event_id r)" by (auto simp: event_muted_iff [OF assms(2)])
  have "dr_event_id r \<noteq> i" if "rise_alerts i u st \<noteq> []"
  proof
    assume "dr_event_id r = i"
    with m obtain y where y: "y \<in> set (st_events st)" "ev_id y = i" "ev_state y = StateMuted"
      by (auto simp: event_muted_iff [OF assms(2)])
    from that obtain old where old: "find (\<lambda>e. ev_id e = i \<and> open_event e) (st_events st) = Some old" "ev_state old \<noteq> StateMuted"
      by (auto simp: rise_alerts_def split: option.splits if_splits)
    from find_SomeD [OF old(1)] event_unique [OF assms(2)] y old(2) show False by metis
  qed
  moreover have "dr_event_id r = i \<and> rise_alerts i u st \<noteq> []" if "r \<in> set (map deliveryArgs (rise_alerts i u st))"
  proof
    have "set (rise_alerts i u st) \<subseteq> set (eu_alerts_on_rise u)" by (auto simp: rise_alerts_def split: option.split)
    with that assms(4) show "dr_event_id r = i" by auto
    show "rise_alerts i u st \<noteq> []" using that by auto
  qed
  ultimately show ?thesis using r(1) m refresh_tx_attempts [OF t] by (metis Un_iff set_append)
qed

lemma quiet_mark:
  assumes m: "mark_tx now newID d f st = Inr (a, st')"
    and fb: "\<And>r g. claimed_row st (da_id d) r \<Longrightarrow> f = Some g \<Longrightarrow> fallback_for g r"
    and r: "r \<in> set (st_attempts st')" "queued_alert r" "event_muted st' (dr_event_id r)"
  shows "r \<in> set (st_attempts st) \<and> event_muted st (dr_event_id r)"
proof -
  obtain t r0 where ev: "st_events st' = st_events st" and r0: "claimed_row st (da_id d) r0"
    and rows: "\<And>r. r \<in> set (st_attempts st') \<Longrightarrow> r \<in> set (update_where (\<lambda>r. dr_id r = da_id d \<and> dr_state r = DeliverySending) (mark_row st t d) (st_attempts st)) \<or>
       dr_kind r = KindRecovery \<or> (\<exists>g. f = Some g \<and> dr_event_id r = da_event_id g \<and> dr_state (mark_row st t d r0) = DeliveryDeadLetter)"
    by (rule mark_tx_rows [OF m]) blast
  have mu: "event_muted st (dr_event_id r)" using r(3) event_muted_cong [OF ev] by simp
  have "\<not> (\<exists>g. f = Some g \<and> dr_event_id r = da_event_id g \<and> dr_state (mark_row st t d r0) = DeliveryDeadLetter)"
    using fb [OF r0] mu by (auto simp: mark_row_def Let_def mutedAlertCond_def fallback_for_def split: if_splits)
  with rows [OF r(1)] r(2) have "r \<in> set (update_where (\<lambda>r. dr_id r = da_id d \<and> dr_state r = DeliverySending) (mark_row st t d) (st_attempts st))"
    by (auto simp: queued_alert_def)
  then show ?thesis
    using r(2) mu by (auto elim!: in_update_whereE simp: mark_row_def Let_def queued_alert_def mutedAlertCond_def split: if_splits)
qed

lemma muted_quiet_step:
  assumes "step s s'" "sys_inv s" "muted_quiet s"
  shows "muted_quiet s'"
  using assms
proof (induction rule: step.induct)
  case (create e ds s u st')
  then have "inv (sy_store s)" "inv st'" by (auto simp: sys_inv_def intro: inv_create_tx)
  with create show ?case by (intro quietI [OF create(7)]) (auto dest!: quiet_create)
next
  case (transition ids i c s e st')
  then have "inv (sy_store s)" "inv st'" by (auto simp: sys_inv_def intro: inv_transition_tx)
  with transition show ?case by (intro quietI [OF transition(5)]) (auto dest!: quiet_transition)
next
  case (refresh i u s e st')
  then have "inv (sy_store s)" "inv st'" by (auto simp: sys_inv_def intro: inv_refresh_tx)
  with refresh show ?case by (intro quietI [OF refresh(5)]) (auto dest!: quiet_refresh)
next
  case (claim now limit skip s ds st')
  then show ?case
    by (intro quietI [OF claim(3)])
      (auto simp: claim_stmt_def Let_def event_muted_def event_by_id_def queued_alert_def claim_row_def set_update_where split: if_splits)
next
  case (mark att s w dw stopping x d f now a st')
  then have h: "held att (sy_store s)" by (auto simp: sys_inv_def)
  have i: "da_id (d\<lparr>da_updated_at := dw_save_now dw\<rparr>) = da_id att"
    using mark(2) by (auto simp: outcome_def Let_def split: option.splits if_splits)
  show ?case
    using quiet_mark [OF mark(3)] fallback_for_outcome(1) [OF h] mark(2) i
    by (intro quietI [OF mark(8)]) fastforce+
next
  case (replay i t s n st')
  then show ?case
    by (intro quietI [OF replay(3)])
      (auto simp: replay_stmt_def event_muted_def event_by_id_def set_update_where replay_row_def split: if_splits)
next
  case (requeue now stale s n st')
  then show ?case
    by (intro quietI [OF requeue(3)])
      (auto simp: requeue_stmt_def event_muted_def event_by_id_def queued_alert_def requeue_row_def mutedAlertCond_def set_update_where split: if_splits)
next
  case (retention cutoff s n st')
  then have "inv (sy_store s)" "inv st'"
    using inv_delete_events_stmt [of "sy_store s" cutoff] by (auto simp: sys_inv_def)
  with retention show ?case
    by (intro quietI [OF retention(3)]) (auto simp: delete_events_stmt_def Let_def event_muted_iff)
next
  case (orphans cutoff s n st')
  then show ?case using delete_orphans_id [of "sy_store s" cutoff] by (auto simp: sys_inv_def)
next
  case (tick t s u st')
  then have "st_events st' = st_events (sy_store s)" "st_attempts st' = st_attempts (sy_store s)"
    by (auto simp: tick_stmt_def split: option.splits if_splits)
  with tick show ?case by (simp add: muted_quiet_def event_muted_cong [of st' "sy_store s"])
qed (auto simp: muted_quiet_def)

interpretation quiet: system_invariant muted_quiet
proof
  show "muted_quiet sys_init" by (simp add: muted_quiet_def sys_init_def empty_store_def)
qed (use core.everywhere muted_quiet_step in blast)

end
