(* ===== verification/Examples.thy ===== *)
theory Examples
  imports System Worker_Slots
begin

text \<open>
  A concrete run of the system, used where a property is applied to a state that is reached: an incident is created with one
  alert, the alert is claimed and sent, the incident is resolved, and the recovery it queued is claimed.
\<close>

definition ex_ops :: ChannelTarget where
  "ex_ops = \<lparr>ct_type = ChannelSlack, ct_name = ''ops''\<rparr>"

definition ex_alert :: DeliveryAttempt where
  "ex_alert = buildDelivery 2 ''e1'' 10 ''a1'' ex_ops"

definition ex_registry :: Registry where
  "ex_registry = NewRegistry [Some \<lparr>ch_type = ChannelSlack, ch_name = ''ops'', ch_timeout = 0\<rparr>,
                              Some \<lparr>ch_type = ChannelNtfy, ch_name = ''log'', ch_timeout = 7\<rparr>]"

definition ex_options :: Options where
  "ex_options = \<lparr>op_concurrency = 2, op_poll_interval = 0, op_base_backoff = 4, op_max_backoff = 10, op_stale_after = 0,
     op_shutdown_grace = 0, op_fallbacks = [''ops'' \<mapsto> ''log''], op_public_url = []\<rparr>"

definition ex_worker :: Worker where
  "ex_worker = NewWorker ex_registry ex_options"

definition ex_draw :: draw where
  "ex_draw = \<lparr>dw_retry_now = 30, dw_fallback_now = 30, dw_save_now = 30, dw_rand = 0,
     dw_fallback_id = ''f1'', dw_recovery_id = ''q1''\<rparr>"

definition ex_ids :: "nat \<Rightarrow> string" where
  "ex_ids k = CHR ''r'' # replicate k (CHR ''x'')"

definition ex_close :: StateChange where
  "ex_close = state_change (Some 3) demo_event StateResolved 40"

text \<open>The rows as they are stored.\<close>

definition ex_event :: Event where
  "ex_event = demo_event\<lparr>ev_payload := ''{}''\<rparr>"

definition ex_row :: delivery_row where
  "ex_row = \<lparr>dr_id = ''a1'', dr_event_id = ''e1'', dr_channel = ChannelSlack, dr_channel_name = ''ops'', dr_kind = KindAlert, dr_state = DeliveryPending,
     dr_attempts = 0, dr_max_attempts = 2, dr_next_retry_at = None, dr_last_error = [], dr_created_at = 10, dr_updated_at = 10, dr_fallback_of = None,
     dr_recovery_for = None\<rparr>"

definition ex_notice :: delivery_row where
  "ex_notice = ex_row\<lparr>dr_id := ''r'', dr_kind := KindRecovery, dr_max_attempts := 3, dr_created_at := 40, dr_updated_at := 40, dr_recovery_for := Some ''a1''\<rparr>"

definition ex_closed :: Event where
  "ex_closed = ex_event\<lparr>ev_state := StateResolved, ev_updated_at := 40, ev_resolved_at := Some 40\<rparr>"

definition ex_st1 :: store where
  "ex_st1 = \<lparr>st_events = [ex_event], st_attempts = [ex_row], st_heartbeat = None\<rparr>"

definition ex_st2 :: store where
  "ex_st2 = \<lparr>st_events = [ex_event], st_attempts = [ex_row\<lparr>dr_state := DeliverySending, dr_updated_at := 20\<rparr>], st_heartbeat = None\<rparr>"

definition ex_claimed :: DeliveryAttempt where
  "ex_claimed = ex_alert\<lparr>da_kind := KindAlert, da_state := DeliverySending, da_updated_at := 20\<rparr>"

definition ex_outcome :: DeliveryAttempt where
  "ex_outcome = fst (outcome ex_worker ex_draw False ex_claimed None)"

definition ex_st3 :: store where
  "ex_st3 = \<lparr>st_events = [ex_event], st_attempts = [ex_row\<lparr>dr_state := DeliverySent, dr_attempts := 1, dr_updated_at := 30\<rparr>], st_heartbeat = None\<rparr>"

definition ex_st4 :: store where
  "ex_st4 = \<lparr>st_events = [ex_closed], st_attempts = [ex_row\<lparr>dr_state := DeliverySent, dr_attempts := 1, dr_updated_at := 30\<rparr>, ex_notice], st_heartbeat = None\<rparr>"

definition ex_st5 :: store where
  "ex_st5 = \<lparr>st_events = [ex_closed], st_attempts = [ex_row\<lparr>dr_state := DeliverySent, dr_attempts := 1, dr_updated_at := 30\<rparr>, ex_notice\<lparr>dr_state := DeliverySending, dr_updated_at := 50\<rparr>], st_heartbeat = None\<rparr>"

definition ex_recovery :: delivery_row where
  "ex_recovery = st_attempts ex_st5 ! 1"

lemma ex_create: "create_tx demo_event [ex_alert] empty_store = Inr ((), ex_st1)"
  by code_simp

lemma ex_claim1: "claim_stmt 20 1 [] ex_st1 = ([ex_claimed], ex_st2)"
  by code_simp

lemma ex_mark: "mark_tx 30 ''q1'' (ex_outcome\<lparr>da_updated_at := 30\<rparr>) None ex_st2 = Inr ((ex_outcome\<lparr>da_updated_at := 30\<rparr>, False), ex_st3)"
  by code_simp

lemma ex_transition: "\<exists>e. transition_tx ex_ids ''e1'' ex_close ex_st3 = Inr (e, ex_st4)"
  by (rule exI [of _ "case transition_tx ex_ids ''e1'' ex_close ex_st3 of Inr (e, _) \<Rightarrow> e | Inl _ \<Rightarrow> demo_event"]) code_simp

lemma ex_claim5: "snd (claim_stmt 50 1 [] ex_st4) = ex_st5"
  by code_simp

lemma ex_recovery_row:
  "ex_recovery \<in> set (st_attempts ex_st5)" "dr_kind ex_recovery = KindRecovery" "dr_state ex_recovery = DeliverySending"
  by code_simp+

definition ex_s1 :: sys where
  "ex_s1 = \<lparr>sy_store = ex_st1, sy_held = [], sy_used = {''e1'', ''a1''}, sy_replayed = {}\<rparr>"

definition ex_s2 :: sys where
  "ex_s2 = ex_s1\<lparr>sy_store := ex_st2, sy_held := [ex_claimed]\<rparr>"

definition ex_s3 :: sys where
  "ex_s3 = ex_s2\<lparr>sy_store := ex_st3, sy_held := [], sy_used := {''e1'', ''a1''} \<union> {''q1'', ''f1''}\<rparr>"

definition ex_s4 :: sys where
  "ex_s4 = ex_s3\<lparr>sy_store := ex_st4, sy_used := sy_used ex_s3 \<union> range ex_ids\<rparr>"

definition ex_s5 :: sys where
  "ex_s5 = ex_s4\<lparr>sy_store := ex_st5, sy_held := fst (claim_stmt 50 1 [] ex_st4)\<rparr>"

lemma ex_run1: "reachable ex_s1"
proof -
  have "step sys_init (sys_init\<lparr>sy_store := ex_st1, sy_used := sy_used sys_init \<union> insert (ev_id demo_event) (da_id ` set [ex_alert])\<rparr>)"
    by (rule step.create [of demo_event "[ex_alert]" _ "()"])
      (simp_all add: sys_init_def ex_create, simp_all add: demo_event_def new_event_def open_event_def ex_alert_def buildDelivery_def new_alert_def OrAlert_def)
  moreover have "sys_init\<lparr>sy_store := ex_st1, sy_used := sy_used sys_init \<union> insert (ev_id demo_event) (da_id ` set [ex_alert])\<rparr> = ex_s1"
    by (simp add: sys_init_def ex_s1_def demo_event_def ex_alert_def buildDelivery_def insert_commute)
  ultimately show ?thesis using reachable.init reachable.step by metis
qed

lemma ex_run2: "reachable ex_s2"
proof -
  have "step ex_s1 (ex_s1\<lparr>sy_store := ex_st2, sy_held := sy_held ex_s1 @ [ex_claimed]\<rparr>)"
    by (rule step.claim [of 20 1 "[]"]) (simp add: ex_s1_def ex_claim1)
  then show ?thesis using ex_run1 reachable.step by (fastforce simp: ex_s2_def ex_s1_def)
qed

lemma ex_step3: "step ex_s2 ex_s3"
proof -
  have "step ex_s2 (ex_s2\<lparr>sy_store := ex_st3, sy_held := remove1 ex_claimed (sy_held ex_s2),
      sy_used := sy_used ex_s2 \<union> {dw_recovery_id ex_draw, dw_fallback_id ex_draw}\<rparr>)"
  proof (rule step.mark [of ex_claimed ex_s2 ex_worker ex_draw False None ex_outcome None 30])
    show "outcome ex_worker ex_draw False ex_claimed None = (ex_outcome, None)" by (simp add: ex_outcome_def outcome_def)
    show "mark_tx 30 (dw_recovery_id ex_draw) (ex_outcome\<lparr>da_updated_at := dw_save_now ex_draw\<rparr>) None (sy_store ex_s2) =
        Inr ((ex_outcome\<lparr>da_updated_at := 30\<rparr>, False), ex_st3)"
      using ex_mark by (simp add: ex_draw_def ex_s2_def)
  qed (simp_all add: ex_s2_def ex_s1_def ex_draw_def)
  then show ?thesis by (simp add: ex_s3_def ex_s2_def ex_s1_def ex_draw_def)
qed

lemma ex_run3: "reachable ex_s3"
  by (rule reachable.step [OF ex_run2 ex_step3])

lemma ex_step4: "step ex_s3 ex_s4"
proof -
  obtain e where "transition_tx ex_ids ''e1'' ex_close (sy_store ex_s3) = Inr (e, ex_st4)"
    using ex_transition by (auto simp: ex_s3_def)
  then have "step ex_s3 (ex_s3\<lparr>sy_store := ex_st4, sy_used := sy_used ex_s3 \<union> range ex_ids\<rparr>)"
    by (rule step.transition)
      (auto simp: ex_close_def state_change_def valid_change_def demo_event_def ex_s3_def ex_ids_def)
  then show ?thesis by (simp add: ex_s4_def)
qed

lemma ex_run5: "reachable ex_s5"
proof -
  have "step ex_s4 (ex_s4\<lparr>sy_store := ex_st5, sy_held := sy_held ex_s4 @ fst (claim_stmt 50 1 [] ex_st4)\<rparr>)"
    by (rule step.claim [of 50 1 "[]"]) (simp add: ex_s4_def ex_claim5 [symmetric])
  moreover have "ex_s4\<lparr>sy_store := ex_st5, sy_held := sy_held ex_s4 @ fst (claim_stmt 50 1 [] ex_st4)\<rparr> = ex_s5"
    by (simp add: ex_s5_def ex_s4_def ex_s3_def)
  ultimately show ?thesis using reachable.step [OF reachable.step [OF ex_run3 ex_step4]] by metis
qed

lemma ex_run34: "step\<^sup>*\<^sup>* ex_s3 ex_s4"
  by (rule r_into_rtranclp) (rule ex_step4)

text \<open>
  A second run: the only try of an alert fails, the alert is dead-lettered and copied to the fallback channel, the incident is
  muted, which cancels the copy, and an operator replays the dead letter.
\<close>

definition mx_alert :: DeliveryAttempt where
  "mx_alert = buildDelivery 1 ''e1'' 10 ''a1'' ex_ops"

definition mx_failed :: delivery_row where
  "mx_failed = ex_row\<lparr>dr_max_attempts := 1, dr_state := DeliveryDeadLetter, dr_attempts := 1, dr_last_error := ''timeout'', dr_updated_at := 30\<rparr>"

definition mx_copy :: delivery_row where
  "mx_copy = \<lparr>dr_id = ''f1'', dr_event_id = ''e1'', dr_channel = ChannelNtfy, dr_channel_name = ''log'', dr_kind = KindAlert, dr_state = DeliveryPending,
     dr_attempts = 0, dr_max_attempts = 1, dr_next_retry_at = None, dr_last_error = [], dr_created_at = 30, dr_updated_at = 30, dr_fallback_of = Some ''a1'',
     dr_recovery_for = None\<rparr>"

definition mx_st1 :: store where
  "mx_st1 = \<lparr>st_events = [ex_event], st_attempts = [ex_row\<lparr>dr_max_attempts := 1\<rparr>], st_heartbeat = None\<rparr>"

definition mx_claimed :: DeliveryAttempt where
  "mx_claimed = mx_alert\<lparr>da_kind := KindAlert, da_state := DeliverySending, da_updated_at := 20\<rparr>"

definition mx_st2 :: store where
  "mx_st2 = \<lparr>st_events = [ex_event], st_attempts = [ex_row\<lparr>dr_max_attempts := 1, dr_state := DeliverySending, dr_updated_at := 20\<rparr>], st_heartbeat = None\<rparr>"

definition mx_error :: send_error where
  "mx_error = \<lparr>se_text = ''timeout'', se_canceled = False\<rparr>"

definition mx_fallback :: DeliveryAttempt where
  "mx_fallback = \<lparr>da_id = ''f1'', da_event_id = ''e1'', da_channel = ChannelNtfy, da_channel_name = ''log'', da_kind = KindAlert, da_state = DeliveryPending,
     da_attempts = 0, da_max_attempts = 1, da_next_retry_at = None, da_last_error = [], da_created_at = 30, da_updated_at = 30, da_fallback_of = None,
     da_fallback_to = None, da_recovery_for = None\<rparr>"

definition mx_dead :: DeliveryAttempt where
  "mx_dead = mx_claimed\<lparr>da_state := DeliveryDeadLetter, da_attempts := 1, da_last_error := ''timeout''\<rparr>"

definition mx_st3 :: store where
  "mx_st3 = \<lparr>st_events = [ex_event], st_attempts = [mx_failed, mx_copy], st_heartbeat = None\<rparr>"

definition mx_mute :: StateChange where
  "mx_mute = state_change (Some 3) demo_event StateMuted 40"

definition mx_st4 :: store where
  "mx_st4 = \<lparr>st_events = [ex_event\<lparr>ev_state := StateMuted, ev_updated_at := 40\<rparr>], st_attempts = [mx_failed, mx_copy\<lparr>dr_state := DeliveryCancelled, dr_updated_at := 40\<rparr>], st_heartbeat = None\<rparr>"

definition mx_st5 :: store where
  "mx_st5 = \<lparr>st_events = [ex_event\<lparr>ev_state := StateMuted, ev_updated_at := 40\<rparr>], st_attempts = [ex_row\<lparr>dr_max_attempts := 1, dr_next_retry_at := Some 60, dr_updated_at := 60\<rparr>, mx_copy\<lparr>dr_state := DeliveryCancelled, dr_updated_at := 40\<rparr>], st_heartbeat = None\<rparr>"

lemma mx_create: "create_tx demo_event [mx_alert] empty_store = Inr ((), mx_st1)"
  by code_simp

lemma mx_claim: "claim_stmt 20 1 [] mx_st1 = ([mx_claimed], mx_st2)"
  by code_simp

lemma mx_outcome: "outcome ex_worker ex_draw False mx_claimed (Some mx_error) = (mx_dead, Some mx_fallback)"
  by code_simp

lemma mx_mark: "mark_tx 30 ''q1'' (mx_dead\<lparr>da_updated_at := 30\<rparr>) (Some mx_fallback) mx_st2 = Inr ((mx_dead\<lparr>da_updated_at := 30\<rparr>, True), mx_st3)"
  by code_simp

lemma mx_replay: "snd (replay_stmt ''a1'' 60 mx_st4) = mx_st5"
  by code_simp

lemma mx_transition: "\<exists>e. transition_tx ex_ids ''e1'' mx_mute mx_st3 = Inr (e, mx_st4)"
  by (rule exI [of _ "case transition_tx ex_ids ''e1'' mx_mute mx_st3 of Inr (e, _) \<Rightarrow> e | Inl _ \<Rightarrow> demo_event"]) code_simp

lemma mx_states:
  "map dr_state (st_attempts mx_st3) = [DeliveryDeadLetter, DeliveryPending]"
  "map dr_state (st_attempts mx_st4) = [DeliveryDeadLetter, DeliveryCancelled]"
  "map dr_state (st_attempts mx_st5) = [DeliveryPending, DeliveryCancelled]"
  by code_simp+

lemma mx_muted: "event_muted mx_st5 (dr_event_id (hd (st_attempts mx_st5)))"
  by code_simp

lemma mx_queued: "queued_alert (hd (st_attempts mx_st5))"
  by code_simp

lemma mx_row: "hd (st_attempts mx_st5) \<in> set (st_attempts mx_st5)" "queued_alert (hd (st_attempts mx_st5))"
proof -
  have "st_attempts mx_st5 \<noteq> []" using mx_states(3) by auto
  then show "hd (st_attempts mx_st5) \<in> set (st_attempts mx_st5)" by simp
qed (rule mx_queued)

definition mx_s1 :: sys where
  "mx_s1 = \<lparr>sy_store = mx_st1, sy_held = [], sy_used = {''e1'', ''a1''}, sy_replayed = {}\<rparr>"

definition mx_s2 :: sys where
  "mx_s2 = mx_s1\<lparr>sy_store := mx_st2, sy_held := [mx_claimed]\<rparr>"

definition mx_s3 :: sys where
  "mx_s3 = mx_s2\<lparr>sy_store := mx_st3, sy_held := [], sy_used := {''e1'', ''a1''} \<union> {''q1'', ''f1''}\<rparr>"

definition mx_s4 :: sys where
  "mx_s4 = mx_s3\<lparr>sy_store := mx_st4, sy_used := sy_used mx_s3 \<union> range ex_ids\<rparr>"

definition mx_s5 :: sys where
  "mx_s5 = mx_s4\<lparr>sy_store := mx_st5, sy_replayed := {''a1''}\<rparr>"

lemma mx_run2: "reachable mx_s2"
proof -
  have "step sys_init (sys_init\<lparr>sy_store := mx_st1, sy_used := sy_used sys_init \<union> insert (ev_id demo_event) (da_id ` set [mx_alert])\<rparr>)"
    by (rule step.create [of demo_event "[mx_alert]" _ "()"])
      (simp_all add: sys_init_def mx_create, simp_all add: demo_event_def new_event_def open_event_def mx_alert_def buildDelivery_def new_alert_def OrAlert_def)
  moreover have "sys_init\<lparr>sy_store := mx_st1, sy_used := sy_used sys_init \<union> insert (ev_id demo_event) (da_id ` set [mx_alert])\<rparr> = mx_s1"
    by (simp add: sys_init_def mx_s1_def demo_event_def mx_alert_def buildDelivery_def insert_commute)
  ultimately have "reachable mx_s1" using reachable.init reachable.step by metis
  moreover have "step mx_s1 (mx_s1\<lparr>sy_store := mx_st2, sy_held := sy_held mx_s1 @ [mx_claimed]\<rparr>)"
    by (rule step.claim [of 20 1 "[]"]) (simp add: mx_s1_def mx_claim)
  ultimately show ?thesis using reachable.step by (fastforce simp: mx_s2_def mx_s1_def)
qed

lemma mx_run3: "reachable mx_s3"
proof -
  have "step mx_s2 (mx_s2\<lparr>sy_store := mx_st3, sy_held := remove1 mx_claimed (sy_held mx_s2),
      sy_used := sy_used mx_s2 \<union> {dw_recovery_id ex_draw, dw_fallback_id ex_draw}\<rparr>)"
  proof (rule step.mark [of mx_claimed mx_s2 ex_worker ex_draw False "Some mx_error" mx_dead "Some mx_fallback" 30])
    show "outcome ex_worker ex_draw False mx_claimed (Some mx_error) = (mx_dead, Some mx_fallback)" by (rule mx_outcome)
    show "mark_tx 30 (dw_recovery_id ex_draw) (mx_dead\<lparr>da_updated_at := dw_save_now ex_draw\<rparr>) (Some mx_fallback) (sy_store mx_s2) =
        Inr ((mx_dead\<lparr>da_updated_at := 30\<rparr>, True), mx_st3)"
      using mx_mark by (simp add: ex_draw_def mx_s2_def)
  qed (simp_all add: mx_s2_def mx_s1_def ex_draw_def)
  then have "step mx_s2 mx_s3" by (simp add: mx_s3_def mx_s2_def mx_s1_def ex_draw_def)
  with mx_run2 show ?thesis by (rule reachable.step)
qed

lemma mx_run5: "reachable mx_s5"
proof -
  obtain e where "transition_tx ex_ids ''e1'' mx_mute (sy_store mx_s3) = Inr (e, mx_st4)"
    using mx_transition by (auto simp: mx_s3_def)
  then have "step mx_s3 (mx_s3\<lparr>sy_store := mx_st4, sy_used := sy_used mx_s3 \<union> range ex_ids\<rparr>)"
    by (rule step.transition)
      (auto simp: mx_mute_def state_change_def valid_change_def demo_event_def mx_s3_def ex_ids_def)
  then have "reachable mx_s4" using reachable.step [OF mx_run3] by (simp add: mx_s4_def)
  moreover have "step mx_s4 (mx_s4\<lparr>sy_store := mx_st5, sy_replayed := insert ''a1'' (sy_replayed mx_s4)\<rparr>)"
    by (rule step.replay [of _ 60 _ "fst (replay_stmt ''a1'' 60 mx_st4)"]) (simp add: mx_s4_def mx_replay [symmetric])
  moreover have "mx_s4\<lparr>sy_store := mx_st5, sy_replayed := insert ''a1'' (sy_replayed mx_s4)\<rparr> = mx_s5"
    by (simp add: mx_s5_def mx_s4_def mx_s3_def mx_s2_def mx_s1_def)
  ultimately show ?thesis using reachable.step by metis
qed

subsection \<open>The worker's properties on the example\<close>

text \<open>The worker of the example fills its slots from the store with one due alert.\<close>

theorem fill_within_slots_witness:
  "\<exists>s' started st' es'. run_state (fill ex_worker (\<lambda>_. 20) (\<lambda>_. False) newScheduler) (ex_st1, []) = (Some (s', started), st', es') \<and>
     slots_ok ex_worker s' \<and> (\<forall>name. load s' name < 2)"
proof -
  have inv: "inv ex_st1" using core.everywhere [OF ex_run1] by (simp add: sys_inv_def ex_s1_def)
  have s: "slots_ok (NewWorker ex_registry ex_options) newScheduler" by code_simp
  have n: "2 \<le> registry_Len ex_registry" "op_concurrency (wk_opts (NewWorker ex_registry ex_options)) = 2" by code_simp+
  show ?thesis
    using fill_within_slots [OF inv rely_Nil s, of "\<lambda>_. 20" "\<lambda>_. False"] n unfolding ex_worker_def by force
qed

theorem backoff_bounds_witness:
  "backoff (wk_opts (NewWorker ex_registry ex_options)) (1 / 2) 2 \<le> op_max_backoff (wk_opts (NewWorker ex_registry ex_options)) \<and>
   backoff (wk_opts (NewWorker ex_registry ex_options)) (1 / 2) 2 = 6"
proof
  show "backoff (wk_opts (NewWorker ex_registry ex_options)) (1 / 2) 2 \<le> op_max_backoff (wk_opts (NewWorker ex_registry ex_options))"
    using backoff_bounds [of "1 / 2" ex_registry ex_options 2] by simp
qed code_simp

theorem stale_window_covers_timeouts_witness:
  "\<not> stuck (100 - op_stale_after (wk_opts (NewWorker ex_registry ex_options))) ((st_attempts ex_st2 ! 0)\<lparr>dr_updated_at := 90\<rparr>)"
proof (rule stale_window_covers_timeouts [of ex_registry "''log''" "\<lparr>ch_type = ChannelNtfy, ch_name = ''log'', ch_timeout = 7\<rparr>"])
  show "wf_registry ex_registry" unfolding ex_registry_def by (rule wf_NewRegistry)
  show "registry_Get ex_registry ''log'' = Some \<lparr>ch_type = ChannelNtfy, ch_name = ''log'', ch_timeout = 7\<rparr>" by code_simp
  show "100 - dr_updated_at ((st_attempts ex_st2 ! 0)\<lparr>dr_updated_at := 90\<rparr>)
      < 2 * attemptTimeout \<lparr>ch_type = ChannelNtfy, ch_name = ''log'', ch_timeout = 7\<rparr>" by (simp add: attemptTimeout_def)
qed

end
