(* ===== verification/Go_Encode.thy ===== *)
theory Go_Encode
  imports Go_Text
begin

text \<open>
  The parts of Go's \<^verbatim>\<open>encoding/base64\<close>, \<^verbatim>\<open>strconv\<close>, \<^verbatim>\<open>strings\<close> and \<^verbatim>\<open>fmt\<close> that password hashes, session
  tokens and list cursors are written and read with: unpadded base64, decimal numbers, splitting at a byte and the
  scanner behind \<^verbatim>\<open>fmt.Sscanf\<close> for \<^verbatim>\<open>%d\<close>. Each reader is shown to undo its writer.
\<close>

subsection \<open>Base64 without padding\<close>

definition RawStdEncoding :: string where
  "RawStdEncoding = ''ABCDEFGHIJKLMNOPQRSTUVWXYZabcdefghijklmnopqrstuvwxyz0123456789+/''"

definition RawURLEncoding :: string where
  "RawURLEncoding = ''ABCDEFGHIJKLMNOPQRSTUVWXYZabcdefghijklmnopqrstuvwxyz0123456789-_''"

fun EncodeToString :: "string \<Rightarrow> string \<Rightarrow> string" where
  "EncodeToString al [] = []"
| "EncodeToString al [a] =
     (let x = (of_char a :: nat) in [al ! (x div 4), al ! ((x mod 4) * 16)])"
| "EncodeToString al [a, b] =
     (let x = (of_char a :: nat); y = (of_char b :: nat) in
      [al ! (x div 4), al ! ((x mod 4) * 16 + y div 16), al ! ((y mod 16) * 4)])"
| "EncodeToString al (a # b # c # r) =
     (let x = (of_char a :: nat); y = (of_char b :: nat); z = (of_char c :: nat) in
      [al ! (x div 4), al ! ((x mod 4) * 16 + y div 16), al ! ((y mod 16) * 4 + z div 64), al ! (z mod 64)]
      @ EncodeToString al r)"

text \<open>
  The decoder skips line breaks and ignores the unused bits of the last character. A byte outside the alphabet and a
  last group of one character are errors.
\<close>

definition byte1 :: "nat \<Rightarrow> nat \<Rightarrow> char" where "byte1 v w = char_of (v * 4 + w div 16)"
definition byte2 :: "nat \<Rightarrow> nat \<Rightarrow> char" where "byte2 v w = char_of ((v mod 16) * 16 + w div 4)"
definition byte3 :: "nat \<Rightarrow> nat \<Rightarrow> char" where "byte3 v w = char_of ((v mod 4) * 64 + w)"

fun decode_values :: "nat list \<Rightarrow> string option" where
  "decode_values [] = Some []"
| "decode_values [v] = None"
| "decode_values [v, w] = Some [byte1 v w]"
| "decode_values [v, w, x] = Some [byte1 v w, byte2 w x]"
| "decode_values (v # w # x # y # r) = map_option (\<lambda>t. byte1 v w # byte2 w x # byte3 x y # t) (decode_values r)"

definition line_break :: "char \<Rightarrow> bool" where
  "line_break c = (c = CHR 0x0A \<or> c = CHR 0x0D)"

definition DecodeString :: "string \<Rightarrow> string \<Rightarrow> string option" where
  "DecodeString al s =
     (let vs = map (IndexByte al) (filter (\<lambda>c. \<not> line_break c) s) in
      if None \<in> set vs then None else decode_values (map the vs))"

definition alphabet :: "string \<Rightarrow> bool" where
  "alphabet al = (length al = 64 \<and> distinct al \<and> list_all (\<lambda>c. \<not> line_break c) al)"

lemma alphabets [simp]: "alphabet RawStdEncoding" "alphabet RawURLEncoding"
  by code_simp+

lemma IndexByte_nth: "distinct al \<Longrightarrow> i < length al \<Longrightarrow> IndexByte al (al ! i) = Some i"
proof (induction al arbitrary: i)
  case (Cons x al)
  then show ?case by (cases i) auto
qed simp

lemma of_char_lt: "(of_char c :: nat) < 256"
  using nat_of_char_less_256 [of c] by simp

text \<open>The six-bit values an encoder writes, and the text they stand for.\<close>

fun encode_values :: "string \<Rightarrow> nat list" where
  "encode_values [] = []"
| "encode_values [a] = (let x = (of_char a :: nat) in [x div 4, (x mod 4) * 16])"
| "encode_values [a, b] =
     (let x = (of_char a :: nat); y = (of_char b :: nat) in [x div 4, (x mod 4) * 16 + y div 16, (y mod 16) * 4])"
| "encode_values (a # b # c # r) =
     (let x = (of_char a :: nat); y = (of_char b :: nat); z = (of_char c :: nat) in
      [x div 4, (x mod 4) * 16 + y div 16, (y mod 16) * 4 + z div 64, z mod 64] @ encode_values r)"

lemma Encode_values: "EncodeToString al s = map ((!) al) (encode_values s)"
  by (induction s rule: encode_values.induct) (simp_all add: Let_def)

lemma six_bits:
  assumes "x < 256" "y < 256" "z < (256 :: nat)"
  shows "x div 4 < 64" "(x mod 4) * 16 < 64" "(x mod 4) * 16 + y div 16 < 64" "(y mod 16) * 4 < 64"
    "(y mod 16) * 4 + z div 64 < 64" "z mod 64 < 64"
  using assms by (auto simp: less_mult_imp_div_less)

lemma encode_values_bound: "v \<in> set (encode_values s) \<Longrightarrow> v < 64"
proof (induction s rule: encode_values.induct)
  case (2 a)
  then show ?case using six_bits(1,2) [OF of_char_lt of_char_lt of_char_lt] by (auto simp: Let_def)
next
  case (3 a b)
  then show ?case using six_bits [OF of_char_lt of_char_lt of_char_lt] by (auto simp: Let_def)
next
  case (4 a b c r)
  then show ?case using six_bits [OF of_char_lt of_char_lt of_char_lt] by (auto simp: Let_def)
qed simp

lemma bytes_back:
  "byte1 (of_char a div 4) ((of_char a mod 4) * 16 + of_char b div 16) = a"
  "byte1 (of_char a div 4) ((of_char a mod 4) * 16) = a"
  "byte2 ((of_char a mod 4) * 16 + of_char b div 16) ((of_char b mod 16) * 4 + of_char c div 64) = b"
  "byte2 ((of_char a mod 4) * 16 + of_char b div 16) ((of_char b mod 16) * 4) = b"
  "byte3 ((of_char b mod 16) * 4 + of_char c div 64) (of_char c mod 64) = c"
proof -
  have q: "y div 16 < 16" "z div 64 < 4" if "y < (256 :: nat)" "z < (256 :: nat)" for y z
    using that by (simp_all add: less_mult_imp_div_less)
  have ar: "x div 4 * 4 + ((x mod 4) * 16 + y div 16) div 16 = x" "x div 4 * 4 + ((x mod 4) * 16) div 16 = x"
    "((x mod 4) * 16 + y div 16) mod 16 * 16 + ((y mod 16) * 4 + z div 64) div 4 = y"
    "((x mod 4) * 16 + y div 16) mod 16 * 16 + ((y mod 16) * 4) div 4 = y"
    "((y mod 16) * 4 + z div 64) mod 4 * 64 + z mod 64 = z"
    if "x < 256" "y < 256" "z < (256 :: nat)" for x y z
    using q [OF that(2,3)] by (simp_all only: div_mult_self3 mod_mult_self3 div_less mod_less) simp_all
  note ar [OF of_char_lt [of a] of_char_lt [of b] of_char_lt [of c]]
  then show "byte1 (of_char a div 4) ((of_char a mod 4) * 16 + of_char b div 16) = a"
    "byte1 (of_char a div 4) ((of_char a mod 4) * 16) = a"
    "byte2 ((of_char a mod 4) * 16 + of_char b div 16) ((of_char b mod 16) * 4 + of_char c div 64) = b"
    "byte2 ((of_char a mod 4) * 16 + of_char b div 16) ((of_char b mod 16) * 4) = b"
    "byte3 ((of_char b mod 16) * 4 + of_char c div 64) (of_char c mod 64) = c"
    by (simp_all only: byte1_def byte2_def byte3_def char_of_char)
qed

lemma decode_encode_values: "decode_values (encode_values s) = Some s"
  by (induction s rule: encode_values.induct) (simp_all add: Let_def bytes_back)

lemma set_Encode: "alphabet al \<Longrightarrow> set (EncodeToString al s) \<subseteq> set al"
  using encode_values_bound by (auto simp: Encode_values alphabet_def)

lemma Decode_Encode [simp]:
  assumes "alphabet al"
  shows "DecodeString al (EncodeToString al s) = Some s"
proof -
  have "filter (\<lambda>c. \<not> line_break c) (EncodeToString al s) = EncodeToString al s"
    using set_Encode [OF assms] assms by (auto simp: filter_id_conv alphabet_def list_all_iff)
  moreover have "map (IndexByte al) (EncodeToString al s) = map Some (encode_values s)"
    using encode_values_bound assms by (auto simp: Encode_values alphabet_def IndexByte_nth)
  ultimately show ?thesis by (simp add: DecodeString_def decode_encode_values comp_def)
qed

lemma length_Encode: "length (EncodeToString al s) = (4 * length s + 2) div 3"
  by (induction al s rule: EncodeToString.induct) (simp_all add: Let_def)

subsection \<open>Decimal numbers\<close>

definition digit_char :: "nat \<Rightarrow> char" where
  "digit_char n = char_of (48 + n)"

definition is_digit :: "char \<Rightarrow> bool" where
  "is_digit c = (let n = (of_char c :: nat) in 48 \<le> n \<and> n \<le> 57)"

fun Itoa :: "nat \<Rightarrow> string" where
  "Itoa n = (if n < 10 then [digit_char n] else Itoa (n div 10) @ [digit_char (n mod 10)])"

declare Itoa.simps [simp del]

definition dec_value :: "string \<Rightarrow> nat" where
  "dec_value s = foldl (\<lambda>v c. 10 * v + (of_char c - 48)) 0 s"

lemma digit_char_props: "n < 10 \<Longrightarrow> is_digit (digit_char n)" "n < 10 \<Longrightarrow> of_char (digit_char n) = 48 + n"
  by (simp_all add: digit_char_def is_digit_def)

lemma Itoa_digits: "c \<in> set (Itoa n) \<Longrightarrow> is_digit c"
  by (induction n rule: Itoa.induct) (subst (asm) (2) Itoa.simps, auto simp: digit_char_props split: if_splits)

lemma Itoa_nonempty [simp]: "Itoa n \<noteq> []"
  by (subst Itoa.simps) simp

lemma dec_value_Itoa [simp]: "dec_value (Itoa n) = n"
proof (induction n rule: Itoa.induct)
  case (1 n)
  show ?case
  proof (cases "n < 10")
    case True
    then show ?thesis by (subst Itoa.simps) (simp add: dec_value_def digit_char_props)
  next
    case False
    then have "dec_value (Itoa n) = 10 * dec_value (Itoa (n div 10)) + n mod 10"
      by (subst Itoa.simps) (simp add: dec_value_def digit_char_props)
    with 1 False show ?thesis by simp
  qed
qed

subsection \<open>Splitting\<close>

fun Split :: "char \<Rightarrow> string \<Rightarrow> string list" where
  "Split c [] = [[]]"
| "Split c (x # xs) =
     (if x = c then [] # Split c xs
      else (case Split c xs of [] \<Rightarrow> [[x]] | p # ps \<Rightarrow> (x # p) # ps))"

definition SplitN2 :: "char \<Rightarrow> string \<Rightarrow> string list" where
  "SplitN2 c s = (case IndexByte s c of None \<Rightarrow> [s] | Some i \<Rightarrow> [take i s, drop (Suc i) s])"

lemma Split_none: "c \<notin> set p \<Longrightarrow> Split c p = [p]"
  by (induction p) auto

lemma Split_append: "c \<notin> set p \<Longrightarrow> Split c (p @ c # s) = p # Split c s"
  by (induction p) auto

lemma Split_append_sep: "Split c (p @ c # s) = Split c p @ Split c s"
proof (induction p)
  case (Cons x p)
  have "Split c p \<noteq> []" by (cases p) (auto split: list.split)
  with Cons show ?case by (auto split: list.split)
qed simp

lemma IndexByte_append: "c \<notin> set p \<Longrightarrow> IndexByte (p @ c # s) c = Some (length p)"
  by (induction p) auto

lemma SplitN2_append: "c \<notin> set p \<Longrightarrow> SplitN2 c (p @ c # s) = [p, s]"
  by (simp add: SplitN2_def IndexByte_append)

subsection \<open>Scanning\<close>

text \<open>
  \<^verbatim>\<open>SkipSpace\<close> of the scanner: a line break is an error, other white space is skipped.
\<close>

function skip_space :: "string \<Rightarrow> string option" where
  "skip_space s =
     (if HasPrefix s [CHR 0x0A] then None
      else (case strip_any spaces s of None \<Rightarrow> Some s | Some t \<Rightarrow> skip_space t))"
  by pat_completeness auto
termination
  by (relation "measure length") (auto dest: strip_any_shorter)

declare skip_space.simps [simp del]

definition scan_literal :: "string \<Rightarrow> string \<Rightarrow> string option" where
  "scan_literal p s = (if HasPrefix s p then Some (drop (length p) s) else None)"

text \<open>\<^verbatim>\<open>%d\<close> into an unsigned variable whose largest value is \<open>m\<close>, and into an \<^verbatim>\<open>int\<close>.\<close>

definition scan_uint :: "nat \<Rightarrow> string \<Rightarrow> (nat \<times> string) option" where
  "scan_uint m s =
     (case skip_space s of
        None \<Rightarrow> None
      | Some t \<Rightarrow>
         (let ds = takeWhile is_digit t in
          if ds = [] \<or> m < dec_value ds then None else Some (dec_value ds, dropWhile is_digit t)))"

definition scan_int :: "string \<Rightarrow> (int \<times> string) option" where
  "scan_int s =
     (case skip_space s of
        None \<Rightarrow> None
      | Some t \<Rightarrow>
         (let neg = HasPrefix t ''-''; u = (if neg \<or> HasPrefix t ''+'' then tl t else t); ds = takeWhile is_digit u;
              v = (if neg then - int (dec_value ds) else int (dec_value ds)) in
          if ds = [] \<or> v < - (2 ^ 63) \<or> 2 ^ 63 \<le> v then None else Some (v, dropWhile is_digit u)))"

lemma spaces_no_digit: "list_all (\<lambda>p. p \<noteq> [] \<and> \<not> is_digit (hd p)) spaces" "\<not> is_digit (CHR 0x0A)"
  by code_simp+

lemma skip_space_digit:
  assumes "is_digit c"
  shows "skip_space (c # s) = Some (c # s)"
proof -
  have "strip_any spaces (c # s) = None"
  proof (rule strip_any_NoneI)
    fix p assume p: "p \<in> set spaces" "p \<noteq> []"
    then have "hd p \<noteq> c" using spaces_no_digit(1) assms by (auto simp: list_all_iff)
    with p(2) show "take (length p) (c # s) \<noteq> p" by (cases p) auto
  qed
  moreover have "\<not> HasPrefix (c # s) [CHR 0x0A]" using assms spaces_no_digit(2) by (auto simp: HasPrefix_def)
  ultimately show ?thesis by (subst skip_space.simps) simp
qed

lemma takeWhile_digits:
  "(\<And>c. c \<in> set ds \<Longrightarrow> is_digit c) \<Longrightarrow> (s = [] \<or> \<not> is_digit (hd s)) \<Longrightarrow>
   takeWhile is_digit (ds @ s) = ds \<and> dropWhile is_digit (ds @ s) = s"
  by (induction ds) (cases s, auto)

lemma scan_uint_Itoa:
  assumes "n \<le> m" "s = [] \<or> \<not> is_digit (hd s)"
  shows "scan_uint m (Itoa n @ s) = Some (n, s)"
proof -
  obtain c ds where i: "Itoa n = c # ds" by (cases "Itoa n") auto
  then have "is_digit c" using Itoa_digits [of c n] by simp
  with i have "skip_space (Itoa n @ s) = Some (Itoa n @ s)" by (simp add: skip_space_digit)
  moreover have "takeWhile is_digit (Itoa n @ s) = Itoa n" "dropWhile is_digit (Itoa n @ s) = s"
    using takeWhile_digits [of "Itoa n" s] Itoa_digits assms(2) by blast+
  ultimately show ?thesis using assms(1) by (simp add: scan_uint_def)
qed

lemma scan_int_Itoa:
  assumes "n < 2 ^ 63" "s = [] \<or> \<not> is_digit (hd s)"
  shows "scan_int (Itoa n @ s) = Some (int n, s)"
proof -
  obtain c ds where i: "Itoa n = c # ds" by (cases "Itoa n") auto
  then have c: "is_digit c" using Itoa_digits [of c n] by simp
  with i have "skip_space (Itoa n @ s) = Some (Itoa n @ s)" by (simp add: skip_space_digit)
  moreover have "takeWhile is_digit (Itoa n @ s) = Itoa n" "dropWhile is_digit (Itoa n @ s) = s"
    using takeWhile_digits [of "Itoa n" s] Itoa_digits assms(2) by blast+
  moreover have "\<not> is_digit (CHR ''-'')" "\<not> is_digit (CHR ''+'')" by code_simp+
  then have "\<not> HasPrefix (Itoa n @ s) ''-''" "\<not> HasPrefix (Itoa n @ s) ''+''" using c i by (auto simp: HasPrefix_def)
  moreover have "int n < 2 ^ 63" using assms(1) by simp
  moreover have "- (2 ^ 63) \<le> int n" by simp
  ultimately show ?thesis unfolding scan_int_def Let_def by simp
qed

end
