(* ===== verification/Go_Time.thy ===== *)
theory Go_Time
  imports Go_Encode
begin

text \<open>
  Timestamps as the store writes them. \<^verbatim>\<open>formatTime\<close> prints an instant in UTC with a fixed-width layout, so that comparing two
  stored texts byte by byte compares the instants. This is what lets the other theories keep instants in the rows instead
  of texts, and \<open>formatTime_mono\<close> is the proof of it for every instant from the year 1 to the year 9999.
\<close>

subsection \<open>The calendar\<close>

definition leap :: "int \<Rightarrow> bool" where
  "leap y = (y mod 4 = 0 \<and> (y mod 100 \<noteq> 0 \<or> y mod 400 = 0))"

definition month_lengths :: "int \<Rightarrow> int list" where
  "month_lengths y = [31, if leap y then 29 else 28, 31, 30, 31, 30, 31, 31, 30, 31, 30, 31]"

definition year_days :: "int \<Rightarrow> int" where
  "year_days y = (if leap y then 366 else 365)"

text \<open>The year and the day of the year, the month and the day of the month, all days counted from zero.\<close>

function civil_year :: "int \<Rightarrow> int \<Rightarrow> int \<times> int" where
  "civil_year y d = (if d < year_days y then (y, d) else civil_year (y + 1) (d - year_days y))"
  by pat_completeness auto
termination
  by (relation "measure (\<lambda>(y, d). nat d)") (auto simp: year_days_def split: if_splits)

declare civil_year.simps [simp del]

fun civil_month :: "int \<Rightarrow> int list \<Rightarrow> int \<Rightarrow> int \<times> int" where
  "civil_month m [] d = (m, d)"
| "civil_month m (l # ls) d = (if d < l then (m, d) else civil_month (m + 1) ls (d - l))"

subsection \<open>Fixed-width numbers\<close>

fun pad :: "nat \<Rightarrow> int \<Rightarrow> string" where
  "pad 0 n = []"
| "pad (Suc w) n = pad w (n div 10) @ [digit_char (nat (n mod 10))]"

text \<open>\<^verbatim>\<open>appendInt\<close> of package \<^verbatim>\<open>time\<close>: zeros up to the width, and more digits when the number does not fit.\<close>

definition appendInt :: "nat \<Rightarrow> int \<Rightarrow> string" where
  "appendInt w n = (if n < 10 ^ w then pad w n else Itoa (nat n))"

subsection \<open>The layout\<close>

definition year_of :: "time \<Rightarrow> int" where
  "year_of t = fst (civil_year 1 (t div (24 * Hour)))"

definition format_date :: "int \<Rightarrow> string" where
  "format_date d =
     (let (y, yd) = civil_year 1 d; (m, md) = civil_month 1 (month_lengths y) yd in
      appendInt 4 y @ ''-'' @ appendInt 2 m @ ''-'' @ appendInt 2 (md + 1))"

definition format_seconds :: "int \<Rightarrow> string" where
  "format_seconds r = appendInt 2 (r div Second) @ ''.'' @ appendInt 9 (r mod Second)"

definition format_minutes :: "int \<Rightarrow> string" where
  "format_minutes r = appendInt 2 (r div Minute) @ '':'' @ format_seconds (r mod Minute)"

definition format_clock :: "int \<Rightarrow> string" where
  "format_clock r = appendInt 2 (r div Hour) @ '':'' @ format_minutes (r mod Hour)"

definition formatTime :: "time \<Rightarrow> string" where
  "formatTime t = format_date (t div (24 * Hour)) @ ''T'' @ format_clock (t mod (24 * Hour)) @ ''Z''"

subsection \<open>Texts in the order of the numbers\<close>

definition text_mono :: "int \<Rightarrow> (int \<Rightarrow> string) \<Rightarrow> bool" where
  "text_mono n f = (\<forall>i j. 0 \<le> i \<longrightarrow> i < n \<longrightarrow> 0 \<le> j \<longrightarrow> j < n \<longrightarrow> length (f i) = length (f j) \<and> (i < j \<longrightarrow> f i < f j))"

lemma lex_append_less: "a < b \<Longrightarrow> length a = length b \<Longrightarrow> a @ x < b @ (y :: 'a :: linorder list)"
proof (induction a b rule: list_induct2')
  case (4 a as b bs)
  then show ?case by (auto simp: Cons_less_Cons)
qed auto

lemma lex_append_same: "a @ x < a @ y \<longleftrightarrow> x < (y :: 'a :: linorder list)"
  by (induction a) (auto simp: Cons_less_Cons)

lemma text_monoD:
  assumes "text_mono n f" "0 \<le> i" "i < n" "0 \<le> j" "j < n"
  shows "length (f i) = length (f j)" "i < j \<Longrightarrow> f i < f j"
  using assms unfolding text_mono_def by blast+

lemma text_mono_sub:
  assumes "text_mono n f" "m \<le> n" "\<And>i. 0 \<le> i \<Longrightarrow> i < m \<Longrightarrow> g i = f i"
  shows "text_mono m g"
  unfolding text_mono_def
proof (intro allI impI)
  fix i j assume ij: "0 \<le> i" "i < m" "0 \<le> j" "j < m"
  with assms(2) have "i < n" "j < n" by simp_all
  from text_monoD [OF assms(1) ij(1) this(1) ij(3) this(2)] show "length (g i) = length (g j) \<and> (i < j \<longrightarrow> g i < g j)"
    by (simp add: assms(3) ij)
qed

lemma div_bounds:
  assumes "0 < k" "0 \<le> i" "i < n * (k :: int)"
  shows "0 \<le> i div k" "i div k < n"
proof -
  have "i div k * k \<le> i" using assms(1) by (simp flip: minus_mod_eq_div_mult)
  with assms(3) have "i div k * k < n * k" by simp
  with assms(1) show "i div k < n" by (simp add: mult_less_cancel_right_pos)
  show "0 \<le> i div k" using assms(1,2) by (simp add: pos_imp_zdiv_nonneg_iff)
qed

lemma text_mono_div:
  assumes A: "text_mono n A" and B: "text_mono k B" and k: "0 < k"
  shows "text_mono (n * k) (\<lambda>t. A (t div k) @ sep @ B (t mod k))"
  unfolding text_mono_def
proof (intro allI impI)
  fix i j :: int assume ij: "0 \<le> i" "i < n * k" "0 \<le> j" "j < n * k"
  have d: "0 \<le> i div k" "i div k < n" "0 \<le> j div k" "j div k < n"
    using div_bounds [OF k] ij by blast+
  have m: "0 \<le> i mod k" "i mod k < k" "0 \<le> j mod k" "j mod k < k" using k by simp_all
  note a = text_monoD [OF A d] and b = text_monoD [OF B m]
  have "A (i div k) @ sep @ B (i mod k) < A (j div k) @ sep @ B (j mod k)" if "i < j"
  proof (cases "i div k = j div k")
    case True
    then have "i mod k < j mod k" using that by (metis add_less_cancel_left div_mult_mod_eq)
    with b(2) True show ?thesis by (simp add: lex_append_same)
  next
    case False
    moreover have "i div k \<le> j div k" using that k by (simp add: zdiv_mono1)
    ultimately show ?thesis using a by (simp add: lex_append_less)
  qed
  with a(1) b(1) show "length (A (i div k) @ sep @ B (i mod k)) = length (A (j div k) @ sep @ B (j mod k)) \<and>
      (i < j \<longrightarrow> A (i div k) @ sep @ B (i mod k) < A (j div k) @ sep @ B (j mod k))" by simp
qed

lemma digit_char_less: "i < j \<Longrightarrow> j < 10 \<Longrightarrow> digit_char i < digit_char j"
  by (simp add: digit_char_def less_char_def)

lemma length_pad [simp]: "length (pad w n) = w"
  by (induction w arbitrary: n) simp_all

lemma text_mono_digit: "text_mono 10 (\<lambda>n. [digit_char (nat n)])"
  by (auto simp: text_mono_def digit_char_less)

lemma text_mono_pad: "text_mono (10 ^ w) (pad w)"
proof (induction w)
  case (Suc w)
  then show ?case using text_mono_div [OF Suc text_mono_digit, of "[]"] by (simp add: mult.commute)
qed (simp add: text_mono_def)

lemma text_mono_appendInt: "n \<le> 10 ^ w \<Longrightarrow> text_mono n (appendInt w)"
  by (rule text_mono_sub [OF text_mono_pad]) (auto simp: appendInt_def)

subsection \<open>The clock\<close>

lemma text_mono_clock: "text_mono (24 * Hour) format_clock"
proof -
  have s: "text_mono (60 * Second) format_seconds"
    unfolding format_seconds_def by (rule text_mono_div; (rule text_mono_appendInt)?) simp_all
  have m: "text_mono (60 * Minute) format_minutes"
    unfolding format_minutes_def by (rule text_mono_div [OF _ s]; (rule text_mono_appendInt)?) simp_all
  show ?thesis
    unfolding format_clock_def by (rule text_mono_div [OF _ m]; (rule text_mono_appendInt)?) simp_all
qed

subsection \<open>The date\<close>

lemma year_days_pos: "0 < year_days y"
  by (simp add: year_days_def)

lemma civil_year_if:
  "d < year_days y \<Longrightarrow> civil_year y d = (y, d)"
  "\<not> d < year_days y \<Longrightarrow> civil_year y d = civil_year (y + 1) (d - year_days y)"
  by (subst civil_year.simps, simp)+

lemma civil_year_bounds:
  "0 \<le> d \<Longrightarrow> y \<le> fst (civil_year y d) \<and> 0 \<le> snd (civil_year y d) \<and> snd (civil_year y d) < year_days (fst (civil_year y d))"
proof (induction y d rule: civil_year.induct)
  case (1 y d)
  then show ?case by (cases "d < year_days y") (auto simp: civil_year_if)
qed

lemma civil_year_mono:
  "0 \<le> d \<Longrightarrow> d < d' \<Longrightarrow>
   fst (civil_year y d) < fst (civil_year y d') \<or>
   fst (civil_year y d) = fst (civil_year y d') \<and> snd (civil_year y d) < snd (civil_year y d')"
proof (induction y d arbitrary: d' rule: civil_year.induct)
  case (1 y d)
  show ?case
  proof (cases "d < year_days y")
    case True
    show ?thesis
    proof (cases "d' < year_days y")
      case False
      then have "y + 1 \<le> fst (civil_year (y + 1) (d' - year_days y))"
        using civil_year_bounds [of "d' - year_days y" "y + 1"] by simp
      with True False show ?thesis by (simp add: civil_year_if)
    qed (use True 1 in \<open>simp add: civil_year_if\<close>)
  next
    case False
    with 1 have "\<not> d' < year_days y" by simp
    moreover have "d - year_days y < d' - year_days y" "0 \<le> d - year_days y" using 1 False by simp_all
    ultimately show ?thesis using False 1(1) [OF False] by (simp add: civil_year_if)
  qed
qed

lemma civil_month_bounds:
  "0 \<le> d \<Longrightarrow> d < sum_list ls \<Longrightarrow>
   m \<le> fst (civil_month m ls d) \<and> fst (civil_month m ls d) < m + int (length ls) \<and>
   0 \<le> snd (civil_month m ls d) \<and> (\<exists>l \<in> set ls. snd (civil_month m ls d) < l)"
proof (induction ls arbitrary: m d)
  case (Cons l ls)
  show ?case
  proof (cases "d < l")
    case False
    with Cons.prems Cons.IH [of "d - l" "m + 1"] show ?thesis by auto
  qed (use Cons.prems in auto)
qed simp

lemma civil_month_mono:
  "0 \<le> d \<Longrightarrow> d < d' \<Longrightarrow> d' < sum_list ls \<Longrightarrow>
   fst (civil_month m ls d) < fst (civil_month m ls d') \<or>
   fst (civil_month m ls d) = fst (civil_month m ls d') \<and> snd (civil_month m ls d) < snd (civil_month m ls d')"
proof (induction ls arbitrary: m d d')
  case (Cons l ls)
  show ?case
  proof (cases "d < l")
    case True
    then show ?thesis using Cons.prems civil_month_bounds [of "d' - l" ls "m + 1"] by auto
  next
    case False
    with Cons.prems Cons.IH [of "d - l" "d' - l" "m + 1"] show ?thesis by auto
  qed
qed simp

lemma month_lengths_sum [simp]: "sum_list (month_lengths y) = year_days y" "length (month_lengths y) = 12"
  by (simp_all add: month_lengths_def year_days_def)

lemma month_lengths_le: "l \<in> set (month_lengths y) \<Longrightarrow> l \<le> 31"
  by (auto simp: month_lengths_def)

text \<open>The date of a day as three numbers within their widths.\<close>

definition civil :: "int \<Rightarrow> int \<times> int \<times> int" where
  "civil d = (let (y, yd) = civil_year 1 d; (m, md) = civil_month 1 (month_lengths y) yd in (y, m, md + 1))"

lemma civil_bounds:
  assumes "0 \<le> d" "civil d = (y, m, k)"
  shows "1 \<le> y" "1 \<le> m" "m \<le> 12" "1 \<le> k" "k \<le> 31" "y = fst (civil_year 1 d)"
proof -
  obtain yd where yd: "civil_year 1 d = (y, yd)" using assms(2) by (auto simp: civil_def split: prod.splits)
  have b: "1 \<le> y" "0 \<le> yd" "yd < year_days y" using civil_year_bounds [OF assms(1), of 1] yd by simp_all
  obtain md where md: "civil_month 1 (month_lengths y) yd = (m, md)" "k = md + 1"
    using assms(2) yd by (auto simp: civil_def split: prod.splits)
  have c: "1 \<le> m \<and> m < 1 + 12 \<and> 0 \<le> md \<and> (\<exists>l \<in> set (month_lengths y). md < l)"
    using civil_month_bounds [of yd "month_lengths y" 1] b md by simp
  then show "1 \<le> y" "1 \<le> m" "m \<le> 12" "1 \<le> k" "k \<le> 31" "y = fst (civil_year 1 d)"
    using b(1) md(2) yd by (auto dest!: month_lengths_le)
qed

lemma civil_mono:
  assumes "0 \<le> d" "d < d'" "civil d = (y, m, k)" "civil d' = (y', m', k')"
  shows "y < y' \<or> y = y' \<and> (m < m' \<or> m = m' \<and> k < k')"
proof -
  obtain yd md where a: "civil_year 1 d = (y, yd)" "civil_month 1 (month_lengths y) yd = (m, md)" "k = md + 1"
    using assms(3) by (auto simp: civil_def split: prod.splits)
  obtain yd' md' where b: "civil_year 1 d' = (y', yd')" "civil_month 1 (month_lengths y') yd' = (m', md')" "k' = md' + 1"
    using assms(4) by (auto simp: civil_def split: prod.splits)
  have "0 \<le> yd" "yd' < year_days y'" using civil_year_bounds [of d 1] civil_year_bounds [of d' 1] a(1) b(1) assms(1,2) by auto
  moreover have "y < y' \<or> y = y' \<and> yd < yd'" using civil_year_mono [OF assms(1,2), of 1] a(1) b(1) by simp
  ultimately show ?thesis using civil_month_mono [of yd yd' "month_lengths y'" 1] a(2,3) b(2,3) by auto
qed

lemma format_date_civil: "format_date d = (case civil d of (y, m, k) \<Rightarrow> appendInt 4 y @ ''-'' @ appendInt 2 m @ ''-'' @ appendInt 2 k)"
  by (simp add: format_date_def civil_def split: prod.split)

lemma format_date_mono:
  assumes "0 \<le> d" "d \<le> d'" "fst (civil_year 1 d') \<le> 9999"
  shows "length (format_date d) = length (format_date d')" "d < d' \<Longrightarrow> format_date d < format_date d'"
proof -
  obtain y m k y' m' k' where c: "civil d = (y, m, k)" "civil d' = (y', m', k')" using prod_cases3 by metis
  note b = civil_bounds [OF assms(1) c(1)] and b' = civil_bounds [OF order_trans [OF assms(1,2)] c(2)]
  have yle: "y \<le> y'" using civil_year_mono [OF assms(1), of d' 1] assms(2) b(6) b'(6) by (cases "d = d'") auto
  note Y = text_monoD [OF text_mono_appendInt [of 10000 4], of y y'] and M = text_monoD [OF text_mono_appendInt [of 100 2], of m m']
    and K = text_monoD [OF text_mono_appendInt [of 100 2], of k k']
  have len: "length (appendInt 4 y) = length (appendInt 4 y')" "length (appendInt 2 m) = length (appendInt 2 m')"
    "length (appendInt 2 k) = length (appendInt 2 k')"
    using Y(1) M(1) K(1) b b' yle assms(3) by simp_all
  then show "length (format_date d) = length (format_date d')" by (simp add: format_date_civil c)
  assume "d < d'"
  then consider "y < y'" | "y = y'" "m < m'" | "y = y'" "m = m'" "k < k'"
    using civil_mono [OF assms(1) _ c] by blast
  then show "format_date d < format_date d'"
  proof cases
    case 1
    then have "appendInt 4 y < appendInt 4 y'" using Y(2) b b' assms(3) by simp
    then show ?thesis using len(1) by (simp add: format_date_civil c lex_append_less)
  next
    case 2
    then have "appendInt 2 m < appendInt 2 m'" using M(2) b b' by simp
    then show ?thesis using 2 len(2) by (simp add: format_date_civil c lex_append_same lex_append_less)
  next
    case 3
    then have "appendInt 2 k < appendInt 2 k'" using K(2) b b' by simp
    then show ?thesis using 3 by (simp add: format_date_civil c lex_append_same)
  qed
qed

subsection \<open>Stored texts compare like instants\<close>

lemma formatTime_less:
  assumes "0 \<le> t" "t < u" "year_of u \<le> 9999"
  shows "formatTime t < formatTime u"
proof -
  let ?D = "24 * Hour :: int"
  have d: "0 \<le> t div ?D" "t div ?D \<le> u div ?D" using assms(1,2) by (auto simp: zdiv_mono1 pos_imp_zdiv_nonneg_iff)
  have m: "0 \<le> t mod ?D" "t mod ?D < ?D" "0 \<le> u mod ?D" "u mod ?D < ?D" by simp_all
  note date = format_date_mono [OF d assms(3) [unfolded year_of_def]] and clock = text_monoD [OF text_mono_clock m]
  show ?thesis
  proof (cases "t div ?D = u div ?D")
    case True
    then have "t mod ?D < u mod ?D" using assms(2) by (metis add_less_cancel_left div_mult_mod_eq)
    with clock show ?thesis using True by (simp only: formatTime_def lex_append_same lex_append_less)
  next
    case False
    with d(2) have "format_date (t div ?D) < format_date (u div ?D)" by (intro date(2)) simp
    then show ?thesis unfolding formatTime_def by (rule lex_append_less) (rule date(1))
  qed
qed

lemma year_of_mono: "0 \<le> t \<Longrightarrow> t \<le> u \<Longrightarrow> year_of t \<le> year_of u"
  using civil_year_mono [of "t div (24 * Hour)" "u div (24 * Hour)" 1]
  by (cases "t div (24 * Hour) = u div (24 * Hour)") (auto simp: year_of_def zdiv_mono1 pos_imp_zdiv_nonneg_iff order_less_le)

text \<open>
  Stored timestamps compare like the instants. For two instants between the years 1 and 9999 the texts the store writes
  are in the byte order in which the instants are, and equal texts are equal instants.
\<close>

theorem formatTime_mono:
  assumes "0 \<le> t" "0 \<le> u" "year_of t \<le> 9999" "year_of u \<le> 9999"
  shows "(formatTime t < formatTime u \<longleftrightarrow> t < u) \<and> (formatTime t = formatTime u \<longleftrightarrow> t = u)"
  using formatTime_less [of t u] formatTime_less [of u t] assms by (metis less_asym less_irrefl linorder_less_linear)

theorem formatTime_mono_witness: "formatTime 59000000000 < formatTime (60 * Second) \<and> formatTime (60 * Second) = ''0001-01-01T00:01:00.000000000Z''"
proof -
  have "year_of 59000000000 = 1" "year_of (60 * Second) = 1" by (simp_all add: year_of_def civil_year.simps year_days_def)
  moreover have "formatTime (60 * Second) = ''0001-01-01T00:01:00.000000000Z''" by code_simp
  ultimately show ?thesis using formatTime_mono [of 59000000000 "60 * Second"] by simp
qed

end
