(* ===== verification/Store_Users.thy ===== *)
theory Store_Users
  imports Db
begin

text \<open>
  \<^verbatim>\<open>internal/storage/users.go\<close>: console users and their sessions. The record \<open>accounts\<close> holds the two tables; it is extended in
  the theory of the console by the state the server keeps in memory, so the operations are written for any extension of it.
  A method that is one statement or one transaction is a function on the tables, \<open>SessionUser\<close>, which is two
  statements, is a program.

  \<open>accounts_ok\<close> collects what the schema promises: unique user identifiers, logins and session identifiers, and a user for every
  session; \<open>accounts_writes_ok\<close> shows that every write keeps it.
\<close>

record User =
  us_id :: string
  us_login :: string
  us_password_hash :: string
  us_created_at :: time
  us_disabled_at :: "time option"
  us_last_login_at :: "time option"

record Session =
  ss_id :: string
  ss_user_id :: string
  ss_created_at :: time
  ss_last_seen_at :: time
  ss_expires_at :: time
  ss_ip :: string
  ss_user_agent :: string

record accounts =
  ac_users :: "User list"
  ac_sessions :: "Session list"

subsection \<open>Users\<close>

definition CountUsers :: "'z accounts_scheme \<Rightarrow> nat" where
  "CountUsers a = length (ac_users a)"

text \<open>The columns an insert names; the others are \<^verbatim>\<open>NULL\<close>.\<close>

definition user_row :: "User \<Rightarrow> User" where
  "user_row u = u\<lparr>us_disabled_at := None, us_last_login_at := None\<rparr>"

definition insert_user :: "User \<Rightarrow> 'z accounts_scheme \<Rightarrow> (unit \<times> 'z accounts_scheme) result" where
  "insert_user u a =
     (if \<exists>x \<in> set (ac_users a). us_id x = us_id u \<or> us_login x = us_login u then Inl ErrUniqueViolation
      else Inr ((), a\<lparr>ac_users := ac_users a @ [user_row u]\<rparr>))"

definition CreateUser :: "User \<Rightarrow> 'z accounts_scheme \<Rightarrow> (unit \<times> 'z accounts_scheme) result" where
  "CreateUser u a =
     (case insert_user u a of
        Inl x \<Rightarrow> Inl (if isUniqueViolation x then ErrLoginTaken else x)
      | Inr r \<Rightarrow> Inr r)"

text \<open>The advisory lock (PostgreSQL) and the single connection (SQLite) make this one atomic step.\<close>

definition CreateFirstUser :: "User \<Rightarrow> 'z accounts_scheme \<Rightarrow> (unit \<times> 'z accounts_scheme) result" where
  "CreateFirstUser u a =
     (if ac_users a \<noteq> [] then Inl ErrUsersExist
      else (case insert_user u a of
              Inl x \<Rightarrow> Inl (if isUniqueViolation x then ErrUsersExist else x)
            | Inr r \<Rightarrow> Inr r))"

definition one_user :: "User option \<Rightarrow> User result" where
  "one_user r = (case r of Some u \<Rightarrow> Inr u | None \<Rightarrow> Inl ErrNotFound)"

definition GetUser :: "string \<Rightarrow> 'z accounts_scheme \<Rightarrow> User result" where
  "GetUser i a = one_user (find (\<lambda>u. us_id u = i) (ac_users a))"

definition UserByLogin :: "string \<Rightarrow> 'z accounts_scheme \<Rightarrow> User result" where
  "UserByLogin l a = one_user (find (\<lambda>u. us_login u = l) (ac_users a))"

definition ListUsers :: "'z accounts_scheme \<Rightarrow> User list" where
  "ListUsers a = sort_key us_login (ac_users a)"

text \<open>\<open>execOne\<close>: an update that touches no row is \<open>ErrNotFound\<close>.\<close>

definition update_user :: "string \<Rightarrow> (User \<Rightarrow> User) \<Rightarrow> 'z accounts_scheme \<Rightarrow> 'z accounts_scheme result" where
  "update_user i f a =
     (if \<exists>u \<in> set (ac_users a). us_id u = i
      then Inr (a\<lparr>ac_users := update_where (\<lambda>u. us_id u = i) f (ac_users a)\<rparr>)
      else Inl ErrNotFound)"

definition delete_sessions :: "(Session \<Rightarrow> bool) \<Rightarrow> 'z accounts_scheme \<Rightarrow> 'z accounts_scheme" where
  "delete_sessions P a = a\<lparr>ac_sessions := delete_where P (ac_sessions a)\<rparr>"

definition SetUserPassword :: "string \<Rightarrow> string \<Rightarrow> string \<Rightarrow> 'z accounts_scheme \<Rightarrow> (unit \<times> 'z accounts_scheme) result" where
  "SetUserPassword userID hash keepSession a =
     (case update_user userID (\<lambda>u. u\<lparr>us_password_hash := hash\<rparr>) a of
        Inl x \<Rightarrow> Inl x
      | Inr a1 \<Rightarrow> Inr ((), delete_sessions (\<lambda>s. ss_user_id s = userID \<and> ss_id s \<noteq> keepSession) a1))"

definition disable_row :: "time \<Rightarrow> User \<Rightarrow> User" where
  "disable_row at u = u\<lparr>us_disabled_at := (case us_disabled_at u of Some t \<Rightarrow> Some t | None \<Rightarrow> Some at)\<rparr>"

definition DisableUser :: "string \<Rightarrow> time \<Rightarrow> 'z accounts_scheme \<Rightarrow> (unit \<times> 'z accounts_scheme) result" where
  "DisableUser userID at a =
     (case update_user userID (disable_row at) a of
        Inl x \<Rightarrow> Inl x
      | Inr a1 \<Rightarrow> Inr ((), delete_sessions (\<lambda>s. ss_user_id s = userID) a1))"

definition EnableUser :: "string \<Rightarrow> 'z accounts_scheme \<Rightarrow> (unit \<times> 'z accounts_scheme) result" where
  "EnableUser userID a = map_sum id (\<lambda>a1. ((), a1)) (update_user userID (\<lambda>u. u\<lparr>us_disabled_at := None\<rparr>) a)"

subsection \<open>Sessions\<close>

definition insert_session :: "Session \<Rightarrow> 'z accounts_scheme \<Rightarrow> 'z accounts_scheme result" where
  "insert_session s a =
     (if \<exists>x \<in> set (ac_sessions a). ss_id x = ss_id s then Inl ErrUniqueViolation
      else if \<not> (\<exists>u \<in> set (ac_users a). us_id u = ss_user_id s) then Inl ErrForeignKey
      else Inr (a\<lparr>ac_sessions := ac_sessions a @ [s]\<rparr>))"

definition CreateSession :: "Session \<Rightarrow> 'z accounts_scheme \<Rightarrow> (unit \<times> 'z accounts_scheme) result" where
  "CreateSession s a =
     (case insert_session s a of
        Inl x \<Rightarrow> Inl x
      | Inr a1 \<Rightarrow> map_sum id (\<lambda>a2. ((), a2)) (update_user (ss_user_id s) (\<lambda>u. u\<lparr>us_last_login_at := Some (ss_created_at s)\<rparr>) a1))"

definition touchEvery :: duration where
  "touchEvery = Minute"

definition live_session :: "time \<Rightarrow> time \<Rightarrow> Session \<Rightarrow> bool" where
  "live_session now idleSince s = (now < ss_expires_at s \<and> idleSince < ss_last_seen_at s)"

text \<open>The join of the session with its user, as the query of \<open>SessionUser\<close> reads it: the time last seen and the user.\<close>

definition session_user :: "string \<Rightarrow> time \<Rightarrow> time \<Rightarrow> 'z accounts_scheme \<Rightarrow> (time \<times> User) result" where
  "session_user i now idleSince a =
     (case find (\<lambda>s. ss_id s = i \<and> live_session now idleSince s) (ac_sessions a) of
        None \<Rightarrow> Inl ErrNotFound
      | Some s \<Rightarrow>
         (case find (\<lambda>u. us_id u = ss_user_id s \<and> us_disabled_at u = None) (ac_users a) of
            None \<Rightarrow> Inl ErrNotFound
          | Some u \<Rightarrow> Inr (ss_last_seen_at s, u)))"

definition touch_session :: "string \<Rightarrow> time \<Rightarrow> 'z accounts_scheme \<Rightarrow> unit \<times> 'z accounts_scheme" where
  "touch_session i now a =
     ((), a\<lparr>ac_sessions := update_where (\<lambda>s. ss_id s = i) (\<lambda>s. s\<lparr>ss_last_seen_at := now\<rparr>) (ac_sessions a)\<rparr>)"

definition SessionUser :: "string \<Rightarrow> time \<Rightarrow> time \<Rightarrow> ('z accounts_scheme, User result) prog" where
  "SessionUser i now idleSince = do {
     r \<leftarrow> query (session_user i now idleSince);
     (case r of
        Inl x \<Rightarrow> State_Monad.return (Inl x)
      | Inr (lastSeen, u) \<Rightarrow>
          if now - lastSeen \<ge> touchEvery then do {
            _ \<leftarrow> atomic (touch_session i now);
            State_Monad.return (Inr u)
          }
          else State_Monad.return (Inr u))
   }"

definition DeleteSession :: "string \<Rightarrow> 'z accounts_scheme \<Rightarrow> unit \<times> 'z accounts_scheme" where
  "DeleteSession i a = ((), delete_sessions (\<lambda>s. ss_id s = i) a)"

definition DeleteUserSessions :: "string \<Rightarrow> 'z accounts_scheme \<Rightarrow> unit \<times> 'z accounts_scheme" where
  "DeleteUserSessions userID a = ((), delete_sessions (\<lambda>s. ss_user_id s = userID) a)"

definition DeleteExpiredSessions :: "time \<Rightarrow> time \<Rightarrow> 'z accounts_scheme \<Rightarrow> nat \<times> 'z accounts_scheme" where
  "DeleteExpiredSessions now idleSince a =
     (let gone = (\<lambda>s. ss_expires_at s \<le> now \<or> ss_last_seen_at s \<le> idleSince) in
      (length (filter gone (ac_sessions a)), delete_sessions gone a))"

subsection \<open>The invariant of the tables\<close>

definition accounts_ok :: "'z accounts_scheme \<Rightarrow> bool" where
  "accounts_ok a =
     (distinct (map us_id (ac_users a)) \<and> distinct (map us_login (ac_users a)) \<and> distinct (map ss_id (ac_sessions a)) \<and>
      (\<forall>s \<in> set (ac_sessions a). \<exists>u \<in> set (ac_users a). us_id u = ss_user_id s))"

text \<open>An update of users keeps who they are.\<close>

definition same_user :: "(User \<Rightarrow> User) \<Rightarrow> bool" where
  "same_user f = (\<forall>u. us_id (f u) = us_id u \<and> us_login (f u) = us_login u)"

lemma same_user_simps [simp]:
  "same_user (\<lambda>u. u\<lparr>us_password_hash := h\<rparr>)" "same_user (\<lambda>u. u\<lparr>us_disabled_at := d\<rparr>)"
  "same_user (\<lambda>u. u\<lparr>us_last_login_at := l\<rparr>)" "same_user (disable_row at)"
  by (simp_all add: same_user_def disable_row_def)

lemma bex_key: "(\<exists>u \<in> set rows. k u = i) \<longleftrightarrow> i \<in> set (map k rows)"
  by auto

lemma accounts_ok_users:
  assumes "accounts_ok a" "same_user f"
  shows "accounts_ok (a\<lparr>ac_users := update_where P f (ac_users a)\<rparr>)"
proof -
  have "map us_id (update_where P f (ac_users a)) = map us_id (ac_users a)" "map us_login (update_where P f (ac_users a)) = map us_login (ac_users a)"
    using assms(2) by (simp_all add: map_update_where same_user_def)
  with assms(1) show ?thesis by (simp add: accounts_ok_def bex_key del: set_map)
qed

lemma accounts_ok_delete: "accounts_ok a \<Longrightarrow> accounts_ok (delete_sessions P a)"
  by (auto simp: accounts_ok_def delete_sessions_def distinct_map_delete_where)

lemma update_user_InrD: "update_user i f a = Inr a' \<Longrightarrow> a' = a\<lparr>ac_users := update_where (\<lambda>u. us_id u = i) f (ac_users a)\<rparr> \<and> (\<exists>u \<in> set (ac_users a). us_id u = i)"
  by (auto simp: update_user_def split: if_splits)

lemma update_user_ok: "accounts_ok a \<Longrightarrow> same_user f \<Longrightarrow> update_user i f a = Inr a' \<Longrightarrow> accounts_ok a'"
  by (auto dest!: update_user_InrD intro: accounts_ok_users)

lemma insert_session_ok: "accounts_ok a \<Longrightarrow> insert_session s a = Inr a' \<Longrightarrow> accounts_ok a'"
  by (auto simp: insert_session_def accounts_ok_def image_iff split: if_splits) metis

lemma insert_user_ok:
  assumes "accounts_ok a" "insert_user u a = Inr (x, a')"
  shows "accounts_ok a'"
proof -
  from assms(2) have a': "a' = a\<lparr>ac_users := ac_users a @ [user_row u]\<rparr>" and
    new: "us_id u \<notin> us_id ` set (ac_users a)" "us_login u \<notin> us_login ` set (ac_users a)"
    by (auto simp: insert_user_def split: if_splits)
  have "us_id (user_row u) = us_id u" "us_login (user_row u) = us_login u" by (simp_all add: user_row_def)
  with assms(1) new show ?thesis by (auto simp: a' accounts_ok_def)
qed

text \<open>Every write of the two tables keeps the invariant.\<close>

lemma user_writes_ok:
  "accounts_ok a \<Longrightarrow> CreateUser u a = Inr (x, a') \<Longrightarrow> accounts_ok a'"
  "accounts_ok a \<Longrightarrow> CreateFirstUser u a = Inr (x, a') \<Longrightarrow> accounts_ok a'"
  by (auto simp: CreateUser_def CreateFirstUser_def split: sum.splits if_splits intro: insert_user_ok)

lemma session_writes_ok:
  "accounts_ok a \<Longrightarrow> SetUserPassword i h k a = Inr (x, a') \<Longrightarrow> accounts_ok a'"
  "accounts_ok a \<Longrightarrow> DisableUser i t a = Inr (x, a') \<Longrightarrow> accounts_ok a'"
  "accounts_ok a \<Longrightarrow> EnableUser i a = Inr (x, a') \<Longrightarrow> accounts_ok a'"
  unfolding SetUserPassword_def DisableUser_def EnableUser_def
  by (auto split: sum.splits intro!: accounts_ok_delete elim: update_user_ok [OF _ same_user_simps(1)] update_user_ok [OF _ same_user_simps(2)]
      update_user_ok [OF _ same_user_simps(4)])

lemma CreateSession_ok: "accounts_ok a \<Longrightarrow> CreateSession s a = Inr (x, a') \<Longrightarrow> accounts_ok a'"
  unfolding CreateSession_def
  by (auto split: sum.splits elim: update_user_ok [OF _ same_user_simps(3), OF insert_session_ok])

lemma session_deletes_ok:
  "accounts_ok a \<Longrightarrow> accounts_ok (snd (DeleteSession i a))" "accounts_ok a \<Longrightarrow> accounts_ok (snd (DeleteUserSessions i a))"
  "accounts_ok a \<Longrightarrow> accounts_ok (snd (DeleteExpiredSessions t t' a))"
  by (simp_all add: DeleteSession_def DeleteUserSessions_def DeleteExpiredSessions_def Let_def accounts_ok_delete)

lemma touch_session_ok: "accounts_ok a \<Longrightarrow> accounts_ok (snd (touch_session i t a))"
  by (auto simp: touch_session_def accounts_ok_def map_update_where set_update_where)

lemmas accounts_writes_ok = user_writes_ok session_writes_ok CreateSession_ok session_deletes_ok touch_session_ok

end
