(* ===== verification/Keyed_Table.thy ===== *)
theory Keyed_Table
  imports Prelude
begin

text \<open>
  Go maps that the server keeps in memory and whose size matters: an association list with one pair per key. The locale
  \<open>keyed_table\<close> states what a client relies on, lookup after put and remove and the size of the result; the interpretation
  \<open>pairs\<close> shows it of the association lists that the throttle and the rate limiter use.
\<close>

definition drop_key :: "'k \<Rightarrow> ('k \<times> 'v) list \<Rightarrow> ('k \<times> 'v) list" where
  "drop_key k t = filter (\<lambda>p. fst p \<noteq> k) t"

definition put_key :: "'k \<Rightarrow> 'v \<Rightarrow> ('k \<times> 'v) list \<Rightarrow> ('k \<times> 'v) list" where
  "put_key k v t = (k, v) # drop_key k t"

locale keyed_table =
  fixes get :: "'t \<Rightarrow> 'k \<Rightarrow> 'v option" and put :: "'k \<Rightarrow> 'v \<Rightarrow> 't \<Rightarrow> 't" and remove :: "'k \<Rightarrow> 't \<Rightarrow> 't" and sz :: "'t \<Rightarrow> nat" and ok :: "'t \<Rightarrow> bool"
  assumes get_put: "get (put k v t) k' = (if k' = k then Some v else get t k')"
    and get_remove: "get (remove k t) k' = (if k' = k then None else get t k')"
    and ok_put: "ok t \<Longrightarrow> ok (put k v t)"
    and ok_remove: "ok t \<Longrightarrow> ok (remove k t)"
    and sz_put: "ok t \<Longrightarrow> sz (put k v t) = (if get t k = None then sz t + 1 else sz t)"
    and sz_remove: "ok t \<Longrightarrow> sz (remove k t) = (if get t k = None then sz t else sz t - 1)"
begin

lemma put_bounded: "ok t \<Longrightarrow> sz t \<le> m \<Longrightarrow> get t k \<noteq> None \<or> sz t < m \<Longrightarrow> sz (put k v t) \<le> m"
  by (auto simp: sz_put)

lemma remove_bounded: "ok t \<Longrightarrow> sz (remove k t) \<le> sz t"
  by (simp add: sz_remove)

lemma get_put_other: "k' \<noteq> k \<Longrightarrow> get (put k v t) k' = get t k'"
  by (simp add: get_put)

end

lemma map_of_drop_key: "map_of (drop_key k t) k' = (if k' = k then None else map_of t k')"
  by (induction t) (auto simp: drop_key_def)

lemma drop_key_absent: "map_of t k = None \<Longrightarrow> drop_key k t = t"
  by (induction t) (auto simp: drop_key_def split: if_splits)

lemma distinct_drop_key: "distinct (map fst t) \<Longrightarrow> distinct (map fst (drop_key k t))"
  by (simp add: drop_key_def distinct_map_filter)

lemma length_drop_key: "distinct (map fst t) \<Longrightarrow> map_of t k \<noteq> None \<Longrightarrow> length (drop_key k t) = length t - 1"
proof (induction t)
  case (Cons p t)
  then show ?case
  proof (cases "fst p = k")
    case True
    with Cons.prems have "map_of t k = None" by (auto simp: map_of_eq_None_iff)
    with True show ?thesis using drop_key_absent [of t k] by (simp add: drop_key_def)
  next
    case False
    with Cons have "length (drop_key k t) = length t - 1" "t \<noteq> []" by (auto split: if_splits)
    with False show ?thesis by (simp add: drop_key_def Suc_diff_1)
  qed
qed simp

lemma key_notin_drop: "k \<notin> fst ` set (drop_key k t)"
  by (auto simp: drop_key_def)

interpretation pairs: keyed_table map_of put_key drop_key length "\<lambda>t. distinct (map fst t)"
proof unfold_locales
  fix k k' :: 'a and v :: 'b and t :: "('a \<times> 'b) list"
  show "map_of (put_key k v t) k' = (if k' = k then Some v else map_of t k')" by (simp add: put_key_def map_of_drop_key)
  show "map_of (drop_key k t) k' = (if k' = k then None else map_of t k')" by (rule map_of_drop_key)
next
  fix k :: 'a and v :: 'b and t :: "('a \<times> 'b) list"
  assume d: "distinct (map fst t)"
  show "distinct (map fst (put_key k v t))" using distinct_drop_key [OF d] key_notin_drop [of k t] by (simp add: put_key_def)
  show "distinct (map fst (drop_key k t))" by (rule distinct_drop_key [OF d])
  show dl: "length (drop_key k t) = (if map_of t k = None then length t else length t - 1)"
    using length_drop_key [OF d] drop_key_absent by (auto simp: drop_key_absent)
  have "map_of t k \<noteq> None \<Longrightarrow> 0 < length t" by (cases t) auto
  with dl show "length (put_key k v t) = (if map_of t k = None then length t + 1 else length t)" by (auto simp: put_key_def)
qed

end
