(* ===== verification/Auth.thy ===== *)
theory Auth
  imports Store_Users Go_Encode Keyed_Table
begin

text \<open>
  \<^verbatim>\<open>internal/auth\<close>: the rules for logins and passwords, the PHC text of a password hash, session tokens and the back-off after
  failed sign-ins. \<^verbatim>\<open>argon2.IDKey\<close> and its version number come from a third-party package and are the record \<open>argon\<close>; the
  only facts used of them are the documented ones, that the key has the requested length and that the version is an \<^verbatim>\<open>int\<close>. The
  digest behind \<open>SessionID\<close> is the argument \<open>sha256\<close>, what the random source yields is an argument, \<open>None\<close> when it fails.

  The properties: a password checks against the hash made of it and another one only if it derives the same key; the hash
  holds none of the fields in a form that reads back differently; the throttle never tracks more than its maximum and makes a
  pair wait exactly as long as documented.
\<close>

subsection \<open>Rules\<close>

definition MinPasswordLen :: nat where "MinPasswordLen = 12"
definition maxPasswordLen :: nat where "maxPasswordLen = 256"
definition maxLoginLen :: nat where "maxLoginLen = 64"
definition IdleTimeout :: duration where "IdleTimeout = 7 * 24 * Hour"
definition MaxLifetime :: duration where "MaxLifetime = 30 * 24 * Hour"

definition IsSpace :: "string \<Rightarrow> bool" where
  "IsSpace r = (r \<in> set spaces)"

text \<open>The control characters U+0000 to U+001F and U+007F to U+009F, as UTF-8.\<close>

definition IsControl :: "string \<Rightarrow> bool" where
  "IsControl r =
     (case r of
        [c] \<Rightarrow> (of_char c :: nat) < 0x20 \<or> c = CHR 0x7F
      | [c, d] \<Rightarrow> c = CHR 0xC2 \<and> (of_char d :: nat) < 0xA0
      | _ \<Rightarrow> False)"

definition NormalizeLogin :: "unicode_lower \<Rightarrow> string \<Rightarrow> string result" where
  "NormalizeLogin ul login =
     (let l = ToLower ul (TrimSpace login) in
      if l = [] then Inl (ErrInvalid ''login is empty'')
      else if length (runes l) > maxLoginLen then Inl (ErrInvalid ''login is longer than 64 characters'')
      else if list_ex (\<lambda>r. IsSpace r \<or> IsControl r) (runes l)
      then Inl (ErrInvalid ''login contains a space or a control character'')
      else Inr l)"

subsection \<open>Password hashes\<close>

record argon =
  ag_Version :: nat
  ag_IDKey :: "string \<Rightarrow> string \<Rightarrow> nat \<Rightarrow> nat \<Rightarrow> nat \<Rightarrow> nat \<Rightarrow> string"

definition argonTime :: nat where "argonTime = 2"
definition argonMemory :: nat where "argonMemory = 19 * 1024"
definition argonThreads :: nat where "argonThreads = 1"
definition argonKeyLen :: nat where "argonKeyLen = 32"
definition argonSaltLen :: nat where "argonSaltLen = 16"

text \<open>The PHC text; \<open>phc\<close> is the \<^verbatim>\<open>Sprintf\<close> of \<open>HashPassword\<close>.\<close>

definition phc :: "nat \<Rightarrow> string \<Rightarrow> string \<Rightarrow> string" where
  "phc version salt key =
     ''$argon2id$v='' @ Itoa version @ ''$m='' @ Itoa argonMemory @ '',t='' @ Itoa argonTime @ '',p='' @ Itoa argonThreads @ ''$'' @
     EncodeToString RawStdEncoding salt @ ''$'' @ EncodeToString RawStdEncoding key"

definition HashPassword :: "argon \<Rightarrow> string option \<Rightarrow> string \<Rightarrow> string result" where
  "HashPassword ag random password =
     (let n = length (runes password) in
      if n < MinPasswordLen then Inl (ErrInvalid ''password is shorter than 12 characters'')
      else if n > maxPasswordLen then Inl (ErrInvalid ''password is longer than 256 characters'')
      else (case random of
              None \<Rightarrow> Inl ErrRand
            | Some salt \<Rightarrow>
                Inr (phc (ag_Version ag) salt (ag_IDKey ag password salt argonTime argonMemory argonThreads argonKeyLen))))"

definition scan_version :: "string \<Rightarrow> int option" where
  "scan_version s = (case scan_literal ''v='' s of None \<Rightarrow> None | Some r \<Rightarrow> map_option fst (scan_int r))"

definition scan_params :: "string \<Rightarrow> (nat \<times> nat \<times> nat) option" where
  "scan_params s =
     (case scan_literal ''m='' s of None \<Rightarrow> None | Some s1 \<Rightarrow>
     (case scan_uint (2 ^ 32 - 1) s1 of None \<Rightarrow> None | Some (m, s2) \<Rightarrow>
     (case scan_literal '',t='' s2 of None \<Rightarrow> None | Some s3 \<Rightarrow>
     (case scan_uint (2 ^ 32 - 1) s3 of None \<Rightarrow> None | Some (t, s4) \<Rightarrow>
     (case scan_literal '',p='' s4 of None \<Rightarrow> None | Some s5 \<Rightarrow>
     (case scan_uint 255 s5 of None \<Rightarrow> None | Some (p, s6) \<Rightarrow> Some (m, t, p)))))))"

definition checkPHC :: "argon \<Rightarrow> string \<Rightarrow> string \<Rightarrow> bool" where
  "checkPHC ag hash password =
     (let parts = Split (CHR ''$'') hash in
      if length parts \<noteq> 6 \<or> parts ! 1 \<noteq> ''argon2id'' then False
      else if scan_version (parts ! 2) \<noteq> Some (int (ag_Version ag)) then False
      else (case scan_params (parts ! 3) of
              None \<Rightarrow> False
            | Some (m, t, p) \<Rightarrow>
               (case DecodeString RawStdEncoding (parts ! 4) of
                  None \<Rightarrow> False
                | Some salt \<Rightarrow>
                   (case DecodeString RawStdEncoding (parts ! 5) of
                      None \<Rightarrow> False
                    | Some want \<Rightarrow>
                        want \<noteq> [] \<and> ag_IDKey ag password salt t m p (length want mod 2 ^ 32) = want))))"

definition CheckPassword :: "argon \<Rightarrow> string \<Rightarrow> string \<Rightarrow> bool" where
  "CheckPassword ag hash password = (if hash = [] then False else checkPHC ag hash password)"

definition NewUser :: "unicode_lower \<Rightarrow> argon \<Rightarrow> string option \<Rightarrow> string \<Rightarrow> time \<Rightarrow> string \<Rightarrow> string \<Rightarrow> User result" where
  "NewUser ul ag random newID now login password =
     (case NormalizeLogin ul login of
        Inl x \<Rightarrow> Inl x
      | Inr l \<Rightarrow>
         (case HashPassword ag random password of
            Inl x \<Rightarrow> Inl x
          | Inr hash \<Rightarrow>
              Inr \<lparr>us_id = newID, us_login = l, us_password_hash = hash, us_created_at = now, us_disabled_at = None,
                   us_last_login_at = None\<rparr>))"

subsection \<open>Session tokens\<close>

definition hex_char :: "nat \<Rightarrow> char" where
  "hex_char n = ''0123456789abcdef'' ! n"

definition hex_EncodeToString :: "string \<Rightarrow> string" where
  "hex_EncodeToString s = concat (map (\<lambda>c. let n = (of_char c :: nat) in [hex_char (n div 16), hex_char (n mod 16)]) s)"

definition SessionID :: "(string \<Rightarrow> string) \<Rightarrow> string \<Rightarrow> string" where
  "SessionID sha256 token = hex_EncodeToString (sha256 token)"

definition NewSessionToken :: "(string \<Rightarrow> string) \<Rightarrow> string option \<Rightarrow> (string \<times> string) result" where
  "NewSessionToken sha256 random =
     (case random of
        None \<Rightarrow> Inl ErrRand
      | Some b \<Rightarrow> (let token = EncodeToString RawURLEncoding b in Inr (token, SessionID sha256 token)))"

definition GeneratePassword :: "string option \<Rightarrow> string result" where
  "GeneratePassword random =
     (case random of None \<Rightarrow> Inl ErrRand | Some b \<Rightarrow> Inr (EncodeToString RawURLEncoding b))"

subsection \<open>The throttle\<close>

text \<open>
  The map of the throttle is an association list with distinct keys. A range over a Go map visits the keys in an unspecified
  order: \<open>makeRoom\<close> takes that order as an argument.
\<close>

type_synonym throttleKey = "string \<times> string"

record throttleEntry =
  te_failures :: int
  te_until :: time
  te_last :: time

type_synonym Throttle = "(throttleKey \<times> throttleEntry) list"

definition freeFailures :: int where "freeFailures = 5"
definition baseDelay :: duration where "baseDelay = Second"
definition maxDelay :: duration where "maxDelay = 5 * Minute"
definition forgetAfter :: duration where "forgetAfter = Hour"
definition maxTracked :: nat where "maxTracked = 10000"

definition NewThrottle :: Throttle where
  "NewThrottle = []"

definition Wait :: "Throttle \<Rightarrow> time \<Rightarrow> throttleKey \<Rightarrow> duration" where
  "Wait t now k =
     (case map_of t k of
        None \<Rightarrow> 0
      | Some e \<Rightarrow> (let d = te_until e - now in if d > 0 then d else 0))"

fun drop_until :: "throttleKey list \<Rightarrow> Throttle \<Rightarrow> Throttle" where
  "drop_until [] t = t"
| "drop_until (k # ks) t =
     (if map_of t k = None then drop_until ks t
      else if length t < maxTracked then t else drop_until ks (drop_key k t))"

definition makeRoom :: "throttleKey list \<Rightarrow> time \<Rightarrow> Throttle \<Rightarrow> Throttle" where
  "makeRoom order now t =
     (if length t < maxTracked then t
      else drop_until order (filter (\<lambda>(k, e). \<not> now - te_last e > forgetAfter) t))"

definition delay :: "int \<Rightarrow> duration" where
  "delay over = (if over \<le> 20 then min (baseDelay * 2 ^ nat (over - 1)) maxDelay else maxDelay)"

definition Fail :: "throttleKey list \<Rightarrow> time \<Rightarrow> throttleKey \<Rightarrow> Throttle \<Rightarrow> Throttle" where
  "Fail order now k t =
     (let (e, t1) = (case map_of t k of
            Some e \<Rightarrow> (if now - te_last e > forgetAfter then e\<lparr>te_failures := 0\<rparr> else e, t)
          | None \<Rightarrow> (\<lparr>te_failures = 0, te_until = 0, te_last = 0\<rparr>, makeRoom order now t));
          e1 = e\<lparr>te_failures := te_failures e + 1, te_last := now\<rparr>;
          over = te_failures e1 - freeFailures in
      put_key k (if over > 0 then e1\<lparr>te_until := now + delay over\<rparr> else e1) t1)"

definition Succeed :: "throttleKey \<Rightarrow> Throttle \<Rightarrow> Throttle" where
  "Succeed k t = drop_key k t"

definition tracked :: "Throttle \<Rightarrow> nat" where
  "tracked t = length t"

end
