(* ===== verification/Auth_Properties.thy ===== *)
theory Auth_Properties
  imports Auth
begin

text \<open>
  What \<^verbatim>\<open>internal/auth\<close> promises: the round trip of a password through its PHC text, generated passwords that the rules accept, and
  the behaviour of the throttle, whose map is handled through the facts of the locale \<open>keyed_table\<close> (lookup after put and drop).
\<close>

subsection \<open>Password hashes\<close>

definition good_argon :: "argon \<Rightarrow> bool" where
  "good_argon ag = (ag_Version ag < 2 ^ 63 \<and> (\<forall>p s t m th n. length (ag_IDKey ag p s t m th n) = n))"

lemma Itoa_no_dollar: "CHR ''$'' \<notin> set (Itoa n)"
proof
  assume "CHR ''$'' \<in> set (Itoa n)"
  then have "is_digit (CHR ''$'')" by (rule Itoa_digits)
  moreover have "\<not> is_digit (CHR ''$'')" by code_simp
  ultimately show False by blast
qed

lemma Encode_no_dollar: "CHR ''$'' \<notin> set (EncodeToString RawStdEncoding s)"
proof -
  have "CHR ''$'' \<notin> set RawStdEncoding" by code_simp
  with set_Encode [OF alphabets(1)] show ?thesis by blast
qed

lemma Split_phc:
  "Split (CHR ''$'') (phc v salt key) =
     [[], ''argon2id'', ''v='' @ Itoa v, ''m='' @ Itoa argonMemory @ '',t='' @ Itoa argonTime @ '',p='' @ Itoa argonThreads,
      EncodeToString RawStdEncoding salt, EncodeToString RawStdEncoding key]" (is "_ = [[], ?a, ?b, ?c, ?d, ?e]")
proof -
  have "phc v salt key = [] @ CHR ''$'' # (?a @ CHR ''$'' # (?b @ CHR ''$'' # (?c @ CHR ''$'' # (?d @ CHR ''$'' # ?e))))"
    by (simp add: phc_def)
  moreover have "CHR ''$'' \<notin> set ?a" "CHR ''$'' \<notin> set ?b" "CHR ''$'' \<notin> set ?c" "CHR ''$'' \<notin> set ?d" "CHR ''$'' \<notin> set ?e"
    using Itoa_no_dollar Encode_no_dollar by auto
  ultimately show ?thesis by (simp only: Split_append Split_none set_simps empty_iff not_False_eq_True)
qed

lemma scan_literal_append: "scan_literal p (p @ s) = Some s"
  by (simp add: scan_literal_def HasPrefix_def)

lemma scan_version_phc: "v < 2 ^ 63 \<Longrightarrow> scan_version (''v='' @ Itoa v) = Some (int v)"
  using scan_int_Itoa [of v "[]"] scan_literal_append [of "''v=''" "Itoa v"] by (simp add: scan_version_def)

lemma scan_params_phc:
  assumes "m \<le> 2 ^ 32 - 1" "t \<le> 2 ^ 32 - 1" "p \<le> 255"
  shows "scan_params (''m='' @ Itoa m @ '',t='' @ Itoa t @ '',p='' @ Itoa p) = Some (m, t, p)"
proof -
  have comma: "\<not> is_digit (CHR '','')" by code_simp
  have "scan_literal ''m='' (''m='' @ Itoa m @ '',t='' @ Itoa t @ '',p='' @ Itoa p) = Some (Itoa m @ '',t='' @ Itoa t @ '',p='' @ Itoa p)"
    "scan_literal '',t='' ('',t='' @ Itoa t @ '',p='' @ Itoa p) = Some (Itoa t @ '',p='' @ Itoa p)"
    "scan_literal '',p='' ('',p='' @ Itoa p) = Some (Itoa p)"
    by (rule scan_literal_append)+
  moreover have "scan_uint (2 ^ 32 - 1) (Itoa m @ '',t='' @ Itoa t @ '',p='' @ Itoa p) = Some (m, '',t='' @ Itoa t @ '',p='' @ Itoa p)"
    "scan_uint (2 ^ 32 - 1) (Itoa t @ '',p='' @ Itoa p) = Some (t, '',p='' @ Itoa p)"
    by (rule scan_uint_Itoa [OF assms(1)] scan_uint_Itoa [OF assms(2)]; use comma in simp)+
  moreover have "scan_uint 255 (Itoa p) = Some (p, [])" using scan_uint_Itoa [OF assms(3), of "[]"] by simp
  ultimately show ?thesis unfolding scan_params_def by (simp only: option.case prod.case)
qed

lemma phc_nonempty: "phc v s k \<noteq> []"
  by (simp add: phc_def)

lemma HashPassword_accepts:
  assumes "good_argon ag" "HashPassword ag (Some salt) p = Inr h"
  shows "CheckPassword ag h q \<longleftrightarrow>
    ag_IDKey ag q salt argonTime argonMemory argonThreads argonKeyLen = ag_IDKey ag p salt argonTime argonMemory argonThreads argonKeyLen"
proof -
  let ?key = "ag_IDKey ag p salt argonTime argonMemory argonThreads argonKeyLen"
  have h: "h = phc (ag_Version ag) salt ?key"
    using assms(2) by (auto simp: HashPassword_def Let_def split: if_splits)
  have len: "length ?key = argonKeyLen" using assms(1) by (simp add: good_argon_def)
  have v: "scan_version (''v='' @ Itoa (ag_Version ag)) = Some (int (ag_Version ag))"
    using assms(1) by (simp only: good_argon_def scan_version_phc)
  have pr: "scan_params (''m='' @ Itoa argonMemory @ '',t='' @ Itoa argonTime @ '',p='' @ Itoa argonThreads) = Some (argonMemory, argonTime, argonThreads)"
    by (rule scan_params_phc) (simp_all add: argonMemory_def argonTime_def argonThreads_def)
  have ne: "?key \<noteq> []" using len by (auto simp: argonKeyLen_def)
  then show ?thesis
    using len by (simp add: CheckPassword_def checkPHC_def h phc_nonempty Split_phc v pr Let_def argonKeyLen_def del: append.simps)
qed

text \<open>
  C39: a password survives the round trip through its stored hash. A hash that \<open>HashPassword\<close> made accepts a password exactly
  when that password derives the same key with the same salt; in particular it accepts the password it was made of.
\<close>

theorem password_round_trip:
  assumes "good_argon ag" "HashPassword ag (Some salt) p = Inr h"
  shows "CheckPassword ag h p \<and>
         (CheckPassword ag h q \<longleftrightarrow>
            ag_IDKey ag q salt argonTime argonMemory argonThreads argonKeyLen = ag_IDKey ag p salt argonTime argonMemory argonThreads argonKeyLen)"
  by (simp add: HashPassword_accepts [OF assms])

definition demo_argon :: argon where
  "demo_argon = \<lparr>ag_Version = 19, ag_IDKey = (\<lambda>p s t m th n. take n (p @ s @ replicate n (CHR 0x00)))\<rparr>"

lemma demo_argon_good: "good_argon demo_argon"
  by (auto simp: good_argon_def demo_argon_def)

lemma demo_hash_made: "\<exists>h. HashPassword demo_argon (Some ''0123456789abcdef'') ''correct horse'' = Inr h"
proof -
  have "length (runes ''correct horse'') = 13" by code_simp
  then show ?thesis by (simp add: HashPassword_def MinPasswordLen_def maxPasswordLen_def)
qed

lemma demo_keys_differ:
  "ag_IDKey demo_argon ''wrong horse 1'' ''0123456789abcdef'' argonTime argonMemory argonThreads argonKeyLen \<noteq>
   ag_IDKey demo_argon ''correct horse'' ''0123456789abcdef'' argonTime argonMemory argonThreads argonKeyLen"
  by code_simp

theorem password_round_trip_witness:
  "\<exists>h. HashPassword demo_argon (Some ''0123456789abcdef'') ''correct horse'' = Inr h \<and> CheckPassword demo_argon h ''correct horse'' \<and>
       \<not> CheckPassword demo_argon h ''wrong horse 1''"
  using demo_hash_made password_round_trip [OF demo_argon_good] demo_keys_differ by blast

lemma RawURL_ascii: "is_ascii (EncodeToString RawURLEncoding s)"
proof -
  have "is_ascii RawURLEncoding" by code_simp
  with set_Encode [OF alphabets(2)] show ?thesis by (auto simp: is_ascii_def list_all_iff)
qed

text \<open>
  A generated password satisfies the password rules: it is 24 characters long and \<open>HashPassword\<close> accepts it, whatever the random
  bytes were.
\<close>

theorem generated_password_accepted:
  assumes "length b = 18"
  shows "\<exists>p. GeneratePassword (Some b) = Inr p \<and> length p = 24 \<and> (\<exists>h. HashPassword ag (Some salt) p = Inr h)"
proof -
  let ?p = "EncodeToString RawURLEncoding b"
  have l: "length ?p = 24" using assms by (simp add: length_Encode)
  then have "length (runes ?p) = 24" by (simp add: runes_ascii [OF RawURL_ascii])
  with l show ?thesis
    by (simp add: GeneratePassword_def HashPassword_def Let_def MinPasswordLen_def maxPasswordLen_def)
qed

theorem generated_password_accepted_witness:
  "\<exists>p. GeneratePassword (Some (replicate 18 (CHR ''x''))) = Inr p \<and> (\<exists>h. HashPassword demo_argon (Some []) p = Inr h)"
  using generated_password_accepted [of "replicate 18 (CHR ''x'')" demo_argon "[]"] by auto

subsection \<open>The throttle\<close>

definition throttle_ok :: "Throttle \<Rightarrow> bool" where
  "throttle_ok t = (distinct (map fst t) \<and> length t \<le> maxTracked)"

lemma drop_until_props:
  "distinct (map fst t) \<Longrightarrow> distinct (map fst (drop_until ks t)) \<and> set (drop_until ks t) \<subseteq> set t \<and>
   (length (drop_until ks t) < maxTracked \<or> fst ` set (drop_until ks t) \<inter> set ks = {})"
proof (induction ks arbitrary: t)
  case (Cons k ks)
  have "k \<notin> fst ` set (drop_until ks (drop_key k t))"
    using Cons.IH [OF distinct_drop_key [OF Cons.prems], of k] key_notin_drop [of k t] by blast
  moreover have "k \<notin> fst ` set (drop_until ks t)" if "map_of t k = None"
    using that Cons.IH [OF Cons.prems] by (auto simp: map_of_eq_None_iff)
  moreover have "set (drop_key k t) \<subseteq> set t" by (auto simp: drop_key_def)
  ultimately show ?case
    using Cons.IH [OF Cons.prems] Cons.IH [OF distinct_drop_key [OF Cons.prems], of k] Cons.prems by auto
qed simp

lemma maxTracked_pos: "0 < maxTracked"
  by (simp add: maxTracked_def)

lemma makeRoom_room:
  assumes "distinct (map fst t)" "fst ` set t \<subseteq> set order"
  shows "length (makeRoom order now t) < maxTracked" "distinct (map fst (makeRoom order now t))" "set (makeRoom order now t) \<subseteq> set t"
proof -
  let ?t = "filter (\<lambda>(k, e). \<not> now - te_last e > forgetAfter) t"
  have d: "distinct (map fst ?t)" using assms(1) by (simp add: distinct_map_filter)
  note p = drop_until_props [OF d, of order]
  have "drop_until order ?t = []" if "fst ` set (drop_until order ?t) \<inter> set order = {}"
    using that p assms(2) by (cases "drop_until order ?t") auto
  with p have "length (drop_until order ?t) < maxTracked" using maxTracked_pos by auto
  with p assms(1) show "length (makeRoom order now t) < maxTracked" "distinct (map fst (makeRoom order now t))"
    "set (makeRoom order now t) \<subseteq> set t" by (auto simp: makeRoom_def)
qed

lemma makeRoom_absent:
  "distinct (map fst t) \<Longrightarrow> fst ` set t \<subseteq> set order \<Longrightarrow> map_of t k = None \<Longrightarrow> map_of (makeRoom order now t) k = None"
  using makeRoom_room(3) [of t order now] by (auto simp: map_of_eq_None_iff)

lemma throttle_fail_ok:
  assumes "throttle_ok t" "fst ` set t \<subseteq> set order"
  shows "throttle_ok (Fail order now k t)"
proof -
  have d: "distinct (map fst t)" "length t \<le> maxTracked" using assms(1) by (simp_all add: throttle_ok_def)
  have put: "distinct (map fst (put_key k v t1)) \<and> length (put_key k v t1) \<le> maxTracked"
    if "distinct (map fst t1)" "length t1 \<le> maxTracked" "map_of t1 k \<noteq> None \<or> length t1 < maxTracked" for v t1
    using pairs.ok_put [OF that(1)] pairs.put_bounded [OF that] by blast
  show ?thesis
  proof (cases "map_of t k")
    case None
    with put [OF makeRoom_room(2) [OF d(1) assms(2)] less_imp_le [OF makeRoom_room(1) [OF d(1) assms(2)]]] makeRoom_room(1) [OF d(1) assms(2)]
    show ?thesis by (simp add: Fail_def throttle_ok_def Let_def)
  next
    case (Some e)
    with put [OF d] show ?thesis by (simp add: Fail_def throttle_ok_def Let_def)
  qed
qed

lemma throttle_succeed_ok: "throttle_ok t \<Longrightarrow> throttle_ok (Succeed k t)"
  using pairs.ok_remove [of t k] pairs.remove_bounded [of t k] by (auto simp: Succeed_def throttle_ok_def)

text \<open>
  The throttle stays bounded. However many pairs of login and address fail, and in whatever order the map is visited when room
  is made, it never tracks more than its maximum, and every pair at most once; the pair that just failed is tracked.
\<close>

theorem throttle_bounded:
  assumes "throttle_ok t" "fst ` set t \<subseteq> set order"
  shows "throttle_ok (Fail order now k t) \<and> tracked (Fail order now k t) \<le> maxTracked \<and> map_of (Fail order now k t) k \<noteq> None \<and>
         throttle_ok (Succeed k t) \<and> map_of (Succeed k t) k = None"
proof -
  have "throttle_ok (Fail order now k t)" by (rule throttle_fail_ok [OF assms])
  moreover have "map_of (Fail order now k t) k \<noteq> None" by (simp add: Fail_def Let_def pairs.get_put split: prod.split)
  ultimately show ?thesis using throttle_succeed_ok [OF assms(1)] by (simp add: throttle_ok_def tracked_def Succeed_def pairs.get_remove)
qed

theorem throttle_bounded_witness: "throttle_ok (Fail [] 5 (''root'', ''10.0.0.1'') NewThrottle)"
  using throttle_bounded [of NewThrottle "[]"] by (simp add: NewThrottle_def throttle_ok_def)

subsection \<open>How long a pair waits\<close>

definition fails :: "throttleKey list \<Rightarrow> throttleKey \<Rightarrow> time list \<Rightarrow> Throttle \<Rightarrow> Throttle" where
  "fails order k ts t = foldl (\<lambda>t now. Fail order now k t) t ts"

text \<open>The documented delay after the \<open>n\<close>-th failure in a row: none for the first five, then doubling from a second up to five minutes.\<close>

definition documented_wait :: "nat \<Rightarrow> duration" where
  "documented_wait n = (if n \<le> 5 then 0 else min (Second * 2 ^ (n - 6)) (5 * Minute))"

fun in_a_row :: "time list \<Rightarrow> bool" where
  "in_a_row (a # b # ts) = (b - a \<le> forgetAfter \<and> in_a_row (b # ts))"
| "in_a_row _ = True"

lemma in_a_row_snoc: "in_a_row (ts @ [x]) \<longleftrightarrow> in_a_row ts \<and> (ts = [] \<or> x - last ts \<le> forgetAfter)"
  by (induction ts rule: in_a_row.induct) auto

lemma delay_documented: "5 < n \<Longrightarrow> delay (int n - 5) = documented_wait n"
proof -
  assume n: "5 < n"
  have e: "nat (int n - 5 - 1) = n - 6" using n by simp
  show ?thesis
  proof (cases "int n - 5 \<le> 20")
    case False
    then have "20 \<le> n - 6" by simp
    then have "(2 :: int) ^ 20 \<le> 2 ^ (n - 6)" by (rule power_increasing) simp
    then show ?thesis using n False by (simp add: delay_def documented_wait_def maxDelay_def)
  qed (use n e in \<open>simp add: delay_def documented_wait_def baseDelay_def maxDelay_def\<close>)
qed

lemma fails_entry:
  assumes "map_of t k = None" "distinct (map fst t)" "fst ` set t \<subseteq> set order"
  shows "ts \<noteq> [] \<Longrightarrow> in_a_row ts \<Longrightarrow>
    map_of (fails order k ts t) k = Some \<lparr>te_failures = int (length ts),
      te_until = (if length ts \<le> 5 then 0 else last ts + documented_wait (length ts)), te_last = last ts\<rparr>"
proof (induction ts rule: rev_induct)
  case (snoc x ts)
  show ?case
  proof (cases "ts = []")
    case True
    then show ?thesis using assms(1) by (simp add: fails_def Fail_def Let_def pairs.get_put freeFailures_def)
  next
    case False
    with snoc have e: "map_of (fails order k ts t) k = Some \<lparr>te_failures = int (length ts),
        te_until = (if length ts \<le> 5 then 0 else last ts + documented_wait (length ts)), te_last = last ts\<rparr>" "x - last ts \<le> forgetAfter"
      by (auto simp: in_a_row_snoc)
    have f: "fails order k (ts @ [x]) t = Fail order x k (fails order k ts t)" by (simp add: fails_def)
    have w: "delay (int (length ts) + 1 - 5) = documented_wait (Suc (length ts))" if "5 \<le> length ts"
      using delay_documented [of "Suc (length ts)"] that by (simp add: add.commute)
    show ?thesis using e w by (auto simp: f Fail_def Let_def pairs.get_put freeFailures_def)
  qed
qed simp

text \<open>
  Guessing is slowed down as documented. After \<open>n\<close> failures in a row for one login from one address, none more than an hour
  after the one before, the pair waits nothing while \<open>n\<close> is at most five and otherwise twice as long as after the failure
  before, up to five minutes; other pairs that were tracked before are not affected while there is room.
\<close>

theorem throttle_delay:
  assumes "throttle_ok t" "fst ` set t \<subseteq> set order" "map_of t k = None" "ts \<noteq> []" "in_a_row ts" "0 \<le> last ts"
  shows "Wait (fails order k ts t) (last ts) k = documented_wait (length ts) \<and>
         (k' \<noteq> k \<longrightarrow> length t < maxTracked \<longrightarrow> Wait (Fail order now k t) x k' = Wait t x k') \<and>
         Wait (Succeed k (fails order k ts t)) x k = 0"
proof -
  have "documented_wait (length ts) \<ge> 0" by (simp add: documented_wait_def)
  then have "Wait (fails order k ts t) (last ts) k = documented_wait (length ts)"
    using fails_entry [OF assms(3) _ assms(2,4,5)] assms(1,6) by (auto simp: Wait_def throttle_ok_def documented_wait_def Let_def)
  moreover have "Wait (Fail order now k t) x k' = Wait t x k'" if "k' \<noteq> k" "length t < maxTracked"
    using that assms(3) by (simp add: Wait_def Fail_def Let_def makeRoom_def pairs.get_put_other)
  ultimately show ?thesis by (simp add: Wait_def Succeed_def pairs.get_remove)
qed

theorem throttle_delay_witness:
  "Wait (fails [] (''root'', ''ip'') [1, 2, 3, 4, 5, 6, 7] NewThrottle) 7 (''root'', ''ip'') = 2 * Second"
  using throttle_delay [of NewThrottle "[]" "(''root'', ''ip'')" "[1, 2, 3, 4, 5, 6, 7]"]
  by (simp add: NewThrottle_def throttle_ok_def forgetAfter_def documented_wait_def)

end
