(* ===== verification/Http.thy ===== *)
theory Http
  imports Domain Go_Encode
begin

unbundle bit_operations_syntax

text \<open>
  The HTTP layer below the handlers: requests and responses, the client address behind trusted proxies
  (\<^verbatim>\<open>trustedproxy.go\<close>), API keys and scopes (\<^verbatim>\<open>middleware.go\<close>, the routes of \<^verbatim>\<open>server.go\<close>) and the mapping of errors to
  statuses (\<^verbatim>\<open>respond.go\<close>). A response is its status, its error code or kind of body, its cookie and its
  \<^verbatim>\<open>Retry-After\<close>; the texts of messages are not modelled.

  Parsing addresses and URLs, printing addresses, Unicode case folding and SHA-256 are the functions of \<open>golib\<close>: the
  statements below hold for every choice of them unless they say otherwise. An IP address is its sixteen bytes.
\<close>

subsection \<open>Library functions\<close>

record url =
  ur_Scheme :: string
  ur_Host :: string
  ur_Hostname :: string
  ur_Port :: string
  ur_Path :: string
  ur_EscapedPath :: string
  ur_RawQuery :: string
  ur_ForceQuery :: bool
  ur_Fragment :: string
  ur_password :: "string option"

record golib =
  gl_ParseIP :: "string \<Rightarrow> nat list option"
  gl_ParseCIDR :: "string \<Rightarrow> (nat list \<times> nat list) option"
  gl_IPString :: "nat list \<Rightarrow> string"
  gl_ParseURL :: "string \<Rightarrow> url option"
  gl_EqualFold :: "string \<Rightarrow> string \<Rightarrow> bool"
  gl_sha256 :: "string \<Rightarrow> string"
  gl_lower :: unicode_lower

definition To4 :: "nat list \<Rightarrow> nat list option" where
  "To4 ip =
     (if length ip = 16 \<and> take 10 ip = replicate 10 0 \<and> take 2 (drop 10 ip) = [255, 255] then Some (drop 12 ip) else None)"

definition IsLoopback :: "nat list \<Rightarrow> bool" where
  "IsLoopback ip = (case To4 ip of Some v \<Rightarrow> v ! 0 = 127 | None \<Rightarrow> ip = replicate 15 0 @ [1])"

definition IsPrivate :: "nat list \<Rightarrow> bool" where
  "IsPrivate ip =
     (case To4 ip of
        Some v \<Rightarrow> v ! 0 = 10 \<or> v ! 0 = 172 \<and> v ! 1 AND 0xF0 = 16 \<or> v ! 0 = 192 \<and> v ! 1 = 168
      | None \<Rightarrow> length ip = 16 \<and> ip ! 0 AND 0xFE = 0xFC)"

definition IsLinkLocalUnicast :: "nat list \<Rightarrow> bool" where
  "IsLinkLocalUnicast ip =
     (case To4 ip of
        Some v \<Rightarrow> v ! 0 = 169 \<and> v ! 1 = 254
      | None \<Rightarrow> length ip = 16 \<and> ip ! 0 = 0xFE \<and> ip ! 1 AND 0xC0 = 0x80)"

definition last_index :: "string \<Rightarrow> char \<Rightarrow> nat option" where
  "last_index s c = map_option (\<lambda>i. length s - 1 - i) (IndexByte (rev s) c)"

text \<open>\<^verbatim>\<open>net.SplitHostPort\<close>; \<open>None\<close> is its error.\<close>

definition SplitHostPort :: "string \<Rightarrow> (string \<times> string) option" where
  "SplitHostPort hp =
     (case last_index hp (CHR '':'') of
        None \<Rightarrow> None
      | Some i \<Rightarrow>
          (if HasPrefix hp ''['' then
             (case IndexByte hp (CHR '']'') of
                None \<Rightarrow> None
              | Some e \<Rightarrow>
                  if e + 1 \<noteq> i then None
                  else if CHR ''['' \<in> set (drop 1 hp) \<or> CHR '']'' \<in> set (drop (e + 1) hp) then None
                  else Some (drop 1 (take e hp), drop (i + 1) hp))
           else if CHR '':'' \<in> set (take i hp) then None
           else if CHR ''['' \<in> set hp \<or> CHR '']'' \<in> set hp then None
           else Some (take i hp, drop (i + 1) hp)))"

subsection \<open>Requests and responses\<close>

record request =
  rq_method :: string
  rq_path :: string
  rq_header :: "string \<Rightarrow> string"
  rq_remote :: string
  rq_host :: string
  rq_tls :: bool
  rq_cookie :: "string option"
  rq_user_agent :: string
  rq_path_id :: string
  rq_body :: "string option"

record cookie =
  ck_value :: string
  ck_max_age :: int
  ck_http_only :: bool
  ck_secure :: bool
  ck_same_site_strict :: bool

datatype 'v body_out = NoBody | ErrorBody string | ViewBody 'v

record 'v response =
  rs_status :: nat
  rs_body :: "'v body_out"
  rs_cookie :: "cookie option"
  rs_retry_after :: "int option"

definition respond :: "nat \<Rightarrow> 'v body_out \<Rightarrow> 'v response" where
  "respond status body = \<lparr>rs_status = status, rs_body = body, rs_cookie = None, rs_retry_after = None\<rparr>"

definition writeJSON :: "nat \<Rightarrow> 'v \<Rightarrow> 'v response" where
  "writeJSON status v = respond status (ViewBody v)"

definition writeError :: "nat \<Rightarrow> string \<Rightarrow> 'v response" where
  "writeError status code = respond status (ErrorBody code)"

definition writeDomainError :: "err \<Rightarrow> 'v response" where
  "writeDomainError e =
     (case e of
        ErrNotFound \<Rightarrow> writeError 404 ''not_found''
      | ErrValidation _ \<Rightarrow> writeError 400 ''validation_failed''
      | ErrInvalidTransition _ \<Rightarrow> writeError 409 ''invalid_transition''
      | ErrInvalidAction _ \<Rightarrow> writeError 400 ''invalid_action''
      | ErrSourceNotAllowed _ \<Rightarrow> writeError 403 ''source_not_allowed''
      | ErrNotReplayable \<Rightarrow> writeError 409 ''not_replayable''
      | _ \<Rightarrow> writeError 500 ''internal_error'')"

text \<open>\<open>readBody\<close> of \<^verbatim>\<open>handlers.go\<close>; the body is \<open>None\<close> when it cannot be read.\<close>

definition readBody :: "nat \<Rightarrow> request \<Rightarrow> 'v response + string" where
  "readBody limit r =
     (case rq_body r of
        None \<Rightarrow> Inl (writeError 400 ''bad_request'')
      | Some b \<Rightarrow> if length b > limit then Inl (writeError 413 ''request_too_large'') else Inr b)"

subsection \<open>The client address\<close>

text \<open>
  A trusted network is its number and its mask. An IPv4 network may be written with four bytes or with sixteen; of a mask of sixteen bytes the
  last four are applied to it.
\<close>

type_synonym TrustedProxies = "(nat list \<times> nat list) list"

definition net_contains :: "nat list \<times> nat list \<Rightarrow> nat list \<Rightarrow> bool" where
  "net_contains n ip =
     (let x = (case To4 ip of Some v \<Rightarrow> v | None \<Rightarrow> ip); nn = (case To4 (fst n) of Some v \<Rightarrow> v | None \<Rightarrow> fst n);
          m = (if length nn = 4 \<and> length (snd n) = 16 then drop 12 (snd n) else snd n) in
      length x = length nn \<and> map2 (AND) nn m = map2 (AND) x m)"

definition Configured :: "TrustedProxies \<Rightarrow> bool" where
  "Configured t = (t \<noteq> [])"

definition trusts :: "TrustedProxies \<Rightarrow> nat list option \<Rightarrow> bool" where
  "trusts t ip = (case ip of None \<Rightarrow> False | Some a \<Rightarrow> list_ex (\<lambda>n. net_contains n a) t)"

definition hostOnly :: "string \<Rightarrow> string" where
  "hostOnly addr =
     (let host = (case SplitHostPort addr of Some (h, _) \<Rightarrow> h | None \<Rightarrow> addr) in
      case IndexByte host (CHR ''%'') of Some i \<Rightarrow> take i host | None \<Rightarrow> host)"

text \<open>The walk over the hops of the header, last hop first; \<open>None\<close> when the loop ends without an answer.\<close>

fun walk_hops :: "golib \<Rightarrow> TrustedProxies \<Rightarrow> string list \<Rightarrow> string option" where
  "walk_hops gl t [] = None"
| "walk_hops gl t (p # ps) =
     (case gl_ParseIP gl (TrimSpace p) of
        None \<Rightarrow> None
      | Some ip \<Rightarrow> if \<not> trusts t (Some ip) then Some (gl_IPString gl ip) else walk_hops gl t ps)"

definition ClientIP :: "golib \<Rightarrow> TrustedProxies \<Rightarrow> request \<Rightarrow> string" where
  "ClientIP gl t r =
     (let peer = hostOnly (rq_remote r) in
      if \<not> Configured t then peer
      else if \<not> trusts t (gl_ParseIP gl peer) then peer
      else
        let forwarded = rq_header r ''X-Forwarded-For'' in
        if forwarded = [] then
          (let real = TrimSpace (rq_header r ''X-Real-IP'') in
           if real \<noteq> [] then (case gl_ParseIP gl real of Some ip \<Rightarrow> gl_IPString gl ip | None \<Rightarrow> peer) else peer)
        else (case walk_hops gl t (rev (Split (CHR '','') forwarded)) of Some a \<Rightarrow> a | None \<Rightarrow> peer))"

text \<open>\<open>limiterKey\<close>: IPv6 clients by their first 64 bits, IPv4 by address.\<close>

definition mask64 :: "nat list \<Rightarrow> nat list" where
  "mask64 ip = take 8 ip @ replicate 8 0"

definition limiterKey :: "golib \<Rightarrow> string \<Rightarrow> string" where
  "limiterKey gl ip =
     (case gl_ParseIP gl ip of
        None \<Rightarrow> ip
      | Some a \<Rightarrow> if To4 a \<noteq> None then ip else gl_IPString gl (mask64 a) @ ''/64'')"

subsection \<open>Credentials\<close>

definition ScopeIngest :: string where "ScopeIngest = ''ingest''"
definition ScopeRead :: string where "ScopeRead = ''read''"
definition ScopeFull :: string where "ScopeFull = ''full''"
definition DemoAdminToken :: string where "DemoAdminToken = ''change-me-admin''"

record caller =
  ca_scope :: string
  ca_sources :: "string list option"

definition extractAPIKey :: "request \<Rightarrow> string" where
  "extractAPIKey r =
     (let h = rq_header r ''Authorization'' in
      if h \<noteq> [] \<and> HasPrefix h ''Bearer '' then TrimSpace (drop (length ''Bearer '') h)
      else TrimSpace (rq_header r ''X-API-Key''))"

definition demoTokenAllowed :: "golib \<Rightarrow> request \<Rightarrow> bool" where
  "demoTokenAllowed gl r =
     (if list_ex (\<lambda>h. rq_header r h \<noteq> []) [''X-Forwarded-For'', ''Forwarded'', ''X-Real-IP''] then False
      else (case gl_ParseIP gl (hostOnly (rq_remote r)) of
              None \<Rightarrow> False
            | Some ip \<Rightarrow> IsLoopback ip \<or> IsPrivate ip \<or> IsLinkLocalUnicast ip))"

text \<open>
  The configured keys in the order in which the range over the map visits them. The loop does not stop at a match, so the last
  one with the digest of the presented key is the answer.
\<close>

definition lookupKey :: "golib \<Rightarrow> (string \<times> string) list \<Rightarrow> string \<Rightarrow> string option" where
  "lookupKey gl keyScopes presented =
     (if keyScopes = [] \<or> presented = [] then None
      else foldl (\<lambda>m kv. if gl_sha256 gl presented = gl_sha256 gl (fst kv) then Some (fst kv) else m) None keyScopes)"

definition apiKeyAuth :: "golib \<Rightarrow> (string \<times> string) list \<Rightarrow> (string \<Rightarrow> string list option) \<Rightarrow> string \<Rightarrow> request \<Rightarrow> 'v response + caller" where
  "apiKeyAuth gl keyScopes keySources adminToken r =
     (let presented = extractAPIKey r in
      if presented = [] then Inl (writeError 401 ''unauthorized'')
      else (case lookupKey gl keyScopes presented of
              Some key \<Rightarrow>
                Inr \<lparr>ca_scope = (case map_of keyScopes key of Some s \<Rightarrow> s | None \<Rightarrow> []), ca_sources = keySources key\<rparr>
            | None \<Rightarrow>
                if adminToken \<noteq> [] \<and> presented = adminToken
                then (if adminToken = DemoAdminToken \<and> \<not> demoTokenAllowed gl r then Inl (writeError 403 ''forbidden'')
                      else Inr \<lparr>ca_scope = ScopeFull, ca_sources = None\<rparr>)
                else Inl (writeError 401 ''unauthorized'')))"

definition requireScope :: "string \<Rightarrow> caller \<Rightarrow> bool" where
  "requireScope needed c = (ca_scope c = ScopeFull \<or> ca_scope c = needed)"

subsection \<open>Routes of the JSON API\<close>

datatype endpoint =
    EIngest | EListEvents | EGetEvent string | EEventAction string string | EListDeliveries | EReplay string
  | ERoutingTable | ERoutingPreview | EStats | EInfo

text \<open>
  The endpoint of a method and the path segments after \<^verbatim>\<open>/v1\<close>, and the scope it requires. A pattern of \<^verbatim>\<open>ServeMux\<close> for
  \<^verbatim>\<open>GET\<close> also takes \<^verbatim>\<open>HEAD\<close>, and a wildcard takes one segment that is not empty.
\<close>

definition reads :: "string \<Rightarrow> bool" where
  "reads m = (m = ''GET'' \<or> m = ''HEAD'')"

definition api_route :: "string \<Rightarrow> string list \<Rightarrow> (endpoint \<times> string) option" where
  "api_route m segs =
     (case segs of
        [a] \<Rightarrow>
          (if a = ''events'' \<and> m = ''POST'' then Some (EIngest, ScopeIngest)
           else if a = ''events'' \<and> reads m then Some (EListEvents, ScopeRead)
           else if a = ''delivery-attempts'' \<and> reads m then Some (EListDeliveries, ScopeRead)
           else if a = ''routing'' \<and> reads m then Some (ERoutingTable, ScopeFull)
           else if a = ''stats'' \<and> reads m then Some (EStats, ScopeRead)
           else if a = ''info'' \<and> reads m then Some (EInfo, ScopeRead)
           else None)
      | [a, b] \<Rightarrow>
          (if a = ''events'' \<and> reads m \<and> b \<noteq> [] then Some (EGetEvent b, ScopeRead)
           else if a = ''routing'' \<and> b = ''preview'' \<and> m = ''POST'' then Some (ERoutingPreview, ScopeFull)
           else None)
      | [a, b, c] \<Rightarrow>
          (if a = ''events'' \<and> m = ''POST'' \<and> b \<noteq> [] \<and> c \<noteq> [] then Some (EEventAction b c, ScopeFull)
           else if a = ''delivery-attempts'' \<and> c = ''replay'' \<and> m = ''POST'' \<and> b \<noteq> [] then Some (EReplay b, ScopeFull)
           else None)
      | _ \<Rightarrow> None)"

text \<open>The endpoints that change what is stored.\<close>

fun changes_state :: "endpoint \<Rightarrow> bool" where
  "changes_state EIngest = True"
| "changes_state (EEventAction _ _) = True"
| "changes_state (EReplay _) = True"
| "changes_state _ = False"

definition admitted :: "string \<Rightarrow> string list \<Rightarrow> caller \<Rightarrow> endpoint option" where
  "admitted m segs c =
     (case api_route m segs of Some (e, needed) \<Rightarrow> if requireScope needed c then Some e else None | None \<Rightarrow> None)"

subsection \<open>Lemmas\<close>

lemma status_writeError [simp]: "rs_status (writeError n code) = n"
  by (simp add: writeError_def respond_def)

lemma walk_hops_append: "walk_hops gl t ps = Some a \<Longrightarrow> walk_hops gl t (ps @ qs) = Some a"
  by (induction ps) (auto split: option.splits if_splits)

lemma lookup_fold:
  "foldl (\<lambda>m kv. if d = h (fst kv) then Some (fst kv) else m) m0 kvs = Some k \<Longrightarrow>
   m0 = Some k \<or> k \<in> fst ` set kvs \<and> d = h k"
  by (induction kvs arbitrary: m0) (auto split: if_splits)

lemma lookup_fold_keep: "\<exists>y. foldl (\<lambda>m kv. if d = h (fst kv) then Some (fst kv) else m) (Some x) kvs = Some y"
  by (induction kvs arbitrary: x) auto

lemma lookup_fold_hit:
  "k \<in> fst ` set kvs \<Longrightarrow> d = h k \<Longrightarrow> \<exists>y. foldl (\<lambda>m kv. if d = h (fst kv) then Some (fst kv) else m) m0 kvs = Some y"
proof (induction kvs arbitrary: m0)
  case (Cons p kvs)
  show ?case
  proof (cases "k \<in> fst ` set kvs")
    case False
    with Cons.prems have "k = fst p" by auto
    with Cons.prems(2) lookup_fold_keep [of d h "fst p" kvs] show ?thesis by simp
  qed (use Cons in simp)
qed simp

lemma lookupKey_SomeD: "lookupKey gl ks p = Some k \<Longrightarrow> p \<noteq> [] \<and> k \<in> fst ` set ks \<and> gl_sha256 gl p = gl_sha256 gl k"
  by (auto simp: lookupKey_def dest!: lookup_fold split: if_splits)

lemma lookupKey_hit: "k \<in> fst ` set ks \<Longrightarrow> k \<noteq> [] \<Longrightarrow> \<exists>y. lookupKey gl ks k = Some y"
  using lookup_fold_hit [of k ks "gl_sha256 gl k" "gl_sha256 gl" None] by (auto simp: lookupKey_def)

lemma scopes_distinct [simp]:
  "ScopeIngest \<noteq> ScopeRead" "ScopeRead \<noteq> ScopeIngest" "ScopeIngest \<noteq> ScopeFull" "ScopeFull \<noteq> ScopeIngest" "ScopeRead \<noteq> ScopeFull" "ScopeFull \<noteq> ScopeRead"
  by (simp_all add: ScopeIngest_def ScopeRead_def ScopeFull_def)

lemma route_scopes:
  "api_route m segs = Some (e, ScopeIngest) \<Longrightarrow> e = EIngest \<and> m = ''POST'' \<and> segs = [''events'']"
  "api_route m segs = Some (e, ScopeRead) \<Longrightarrow> \<not> changes_state e \<and> reads m"
  unfolding api_route_def by (auto split: list.splits if_splits)

subsection \<open>Properties\<close>

text \<open>
  C40: a client cannot choose its own address. Behind a trusted proxy, whatever a client puts in front of the hops
  that the proxies appended does not change the address it is counted under, as soon as those hops name one that is
  not trusted; without a trusted peer the header is not read at all.
\<close>

theorem client_ip_not_forgeable:
  assumes "walk_hops gl t (rev (Split (CHR '','') hops)) = Some a" "hops \<noteq> []"
    and "rq_header r ''X-Forwarded-For'' = hops"
    and "r' = r\<lparr>rq_header := (rq_header r)(''X-Forwarded-For'' := forged @ CHR '','' # hops)\<rparr>"
  shows "ClientIP gl t r' = ClientIP gl t r \<and>
         (\<not> trusts t (gl_ParseIP gl (hostOnly (rq_remote r))) \<longrightarrow> ClientIP gl t r = hostOnly (rq_remote r))"
proof -
  have "walk_hops gl t (rev (Split (CHR '','') (forged @ CHR '','' # hops))) = Some a"
    using walk_hops_append [OF assms(1)] by (simp add: Split_append_sep)
  with assms show ?thesis by (simp add: ClientIP_def Let_def)
qed

text \<open>
  Addresses of one IPv6 network share a bucket. Two addresses that agree in their first 64 bits have the same limiter key, and
  an IPv4 address, or a text that is no address, is its own key.
\<close>

theorem limiter_key_groups:
  assumes "gl_ParseIP gl a = Some x" "gl_ParseIP gl b = Some y" "take 8 x = take 8 y" "To4 x = None" "To4 y = None"
  shows "limiterKey gl a = limiterKey gl b \<and> ((case gl_ParseIP gl c of Some z \<Rightarrow> To4 z \<noteq> None | None \<Rightarrow> True) \<longrightarrow> limiterKey gl c = c)"
  using assms by (auto simp: limiterKey_def mask64_def split: option.splits)

text \<open>
  C28: no credential, no access. \<open>apiKeyAuth\<close> lets a request through only when it presents a key whose digest is that of
  a configured key, with the scope and sources of that key, or the configured admin token, and never the public demo token
  from outside; if digests do not collide the key presented is the configured one. A request that presents a configured key
  is let through.
\<close>

theorem api_access_needs_credential:
  assumes "distinct (map fst ks)"
  shows "(apiKeyAuth gl ks src tok r = (Inr c :: 'v response + caller) \<longrightarrow>
            extractAPIKey r \<noteq> [] \<and>
            ((\<exists>k s. (k, s) \<in> set ks \<and> gl_sha256 gl (extractAPIKey r) = gl_sha256 gl k \<and> c = \<lparr>ca_scope = s, ca_sources = src k\<rparr>) \<or>
             tok \<noteq> [] \<and> extractAPIKey r = tok \<and> c = \<lparr>ca_scope = ScopeFull, ca_sources = None\<rparr> \<and>
             (tok = DemoAdminToken \<longrightarrow> demoTokenAllowed gl r)) \<and>
            (inj (gl_sha256 gl) \<longrightarrow> extractAPIKey r \<in> insert tok (fst ` set ks))) \<and>
         (extractAPIKey r \<in> fst ` set ks \<longrightarrow> extractAPIKey r \<noteq> [] \<longrightarrow> (\<exists>c'. apiKeyAuth gl ks src tok r = (Inr c' :: 'v response + caller)))"
    (is "(?acc c \<longrightarrow> ?need) \<and> ?complete")
proof (intro conjI [of "?acc c \<longrightarrow> ?need"] impI)
  assume acc: "?acc c"
  then have p: "extractAPIKey r \<noteq> []" by (auto simp: apiKeyAuth_def Let_def split: if_splits)
  show ?need
  proof (cases "lookupKey gl ks (extractAPIKey r)")
    case (Some k)
    note k = lookupKey_SomeD [OF Some]
    then obtain s where s: "(k, s) \<in> set ks" by auto
    then have "map_of ks k = Some s" using assms by simp
    then have "c = \<lparr>ca_scope = s, ca_sources = src k\<rparr>" using acc Some p by (simp add: apiKeyAuth_def Let_def)
    with s k show ?thesis by (metis insert_iff inj_eq)
  next
    case None
    then show ?thesis using acc p by (auto simp: apiKeyAuth_def Let_def split: if_splits)
  qed
next
  assume k: "extractAPIKey r \<in> fst ` set ks" "extractAPIKey r \<noteq> []"
  then obtain y where "lookupKey gl ks (extractAPIKey r) = Some y" using lookupKey_hit by blast
  with k(2) show "\<exists>c'. ?acc c'" by (simp add: apiKeyAuth_def Let_def)
qed

text \<open>
  Scopes separate the API. A caller with the ingest scope reaches nothing but the ingestion of events, and a caller with the
  read scope nothing that changes what is stored; the full scope reaches every endpoint.
\<close>

theorem scopes_separate:
  "(ca_scope c = ScopeIngest \<longrightarrow> admitted m segs c \<noteq> None \<longrightarrow> admitted m segs c = Some EIngest \<and> m = ''POST'' \<and> segs = [''events'']) \<and>
   (ca_scope c = ScopeRead \<longrightarrow> admitted m segs c = Some e \<longrightarrow> \<not> changes_state e \<and> (m = ''GET'' \<or> m = ''HEAD'')) \<and>
   (ca_scope c = ScopeFull \<longrightarrow> admitted m segs c = map_option fst (api_route m segs))"
  by (auto simp: admitted_def requireScope_def reads_def split: option.splits if_splits dest: route_scopes)

subsection \<open>The properties at concrete inputs\<close>

definition demo_lib :: golib where
  "demo_lib =
     \<lparr>gl_ParseIP = (\<lambda>s. if s = ''10.0.0.1'' then Some (replicate 10 0 @ [255, 255, 10, 0, 0, 1])
                        else if s = ''8.8.8.8'' then Some (replicate 10 0 @ [255, 255, 8, 8, 8, 8])
                        else if s = ''2001::1'' then Some ([32, 1] @ replicate 13 0 @ [1])
                        else if s = ''2001::2'' then Some ([32, 1] @ replicate 13 0 @ [2]) else None),
      gl_ParseCIDR = (\<lambda>s. if s = ''10.0.0.0/8'' then Some ([10, 0, 0, 0], [255, 0, 0, 0]) else None), gl_IPString = (\<lambda>ip. if To4 ip = None then ''2001::'' else ''8.8.8.8''), gl_ParseURL = (\<lambda>_. None), gl_EqualFold = (=),
      gl_sha256 = id, gl_lower = id\<rparr>"

definition demo_request :: request where
  "demo_request =
     \<lparr>rq_method = ''POST'', rq_path = ''/v1/events'', rq_header = (\<lambda>h. if h = ''X-Forwarded-For'' then '' 8.8.8.8'' else if h = ''X-API-Key'' then ''k1'' else []),
      rq_remote = ''10.0.0.1:5000'', rq_host = ''alerts'', rq_tls = False, rq_cookie = None, rq_user_agent = ''curl'', rq_path_id = [], rq_body = Some []\<rparr>"

definition demo_proxies :: TrustedProxies where
  "demo_proxies = [([10, 0, 0, 0], [255, 0, 0, 0])]"

theorem client_ip_not_forgeable_witness:
  "ClientIP demo_lib demo_proxies
     (demo_request\<lparr>rq_header := (rq_header demo_request)(''X-Forwarded-For'' := ''1.2.3.4'' @ CHR '','' # '' 8.8.8.8'')\<rparr>) = ''8.8.8.8''"
proof -
  have "walk_hops demo_lib demo_proxies (rev (Split (CHR '','') '' 8.8.8.8'')) = Some ''8.8.8.8''" by code_simp
  moreover have "rq_header demo_request ''X-Forwarded-For'' = '' 8.8.8.8''" by (simp add: demo_request_def)
  moreover have "ClientIP demo_lib demo_proxies demo_request = ''8.8.8.8''" by code_simp
  ultimately show ?thesis
    using client_ip_not_forgeable [of demo_lib demo_proxies "'' 8.8.8.8''" "''8.8.8.8''" demo_request _ "''1.2.3.4''"] by simp
qed

theorem limiter_key_groups_witness: "limiterKey demo_lib ''2001::1'' = limiterKey demo_lib ''2001::2'' \<and> limiterKey demo_lib ''8.8.8.8'' = ''8.8.8.8''"
proof -
  have p: "gl_ParseIP demo_lib ''2001::1'' = Some ([32, 1] @ replicate 13 0 @ [1])" "gl_ParseIP demo_lib ''2001::2'' = Some ([32, 1] @ replicate 13 0 @ [2])"
    by (simp_all add: demo_lib_def)
  have "To4 ([32, 1] @ replicate 13 0 @ [1]) = None" "To4 ([32, 1] @ replicate 13 0 @ [2]) = None" by code_simp+
  moreover have "(case gl_ParseIP demo_lib ''8.8.8.8'' of Some z \<Rightarrow> To4 z \<noteq> None | None \<Rightarrow> True)" by code_simp
  ultimately show ?thesis using limiter_key_groups [OF p, of "''8.8.8.8''"] by simp
qed

theorem api_access_needs_credential_witness:
  "apiKeyAuth demo_lib [(''k1'', ScopeIngest)] (\<lambda>_. Some [''shop'']) [] demo_request = (Inr \<lparr>ca_scope = ScopeIngest, ca_sources = Some [''shop'']\<rparr> :: unit response + caller) \<and>
   extractAPIKey demo_request = ''k1''"
proof -
  have a: "apiKeyAuth demo_lib [(''k1'', ScopeIngest)] (\<lambda>_. Some [''shop'']) [] demo_request = (Inr \<lparr>ca_scope = ScopeIngest, ca_sources = Some [''shop'']\<rparr> :: unit response + caller)"
    by code_simp
  have i: "inj (gl_sha256 demo_lib)" by (simp add: demo_lib_def)
  have "extractAPIKey demo_request \<in> insert [] (fst ` set [(''k1'', ScopeIngest)])" "extractAPIKey demo_request \<noteq> []"
    using api_access_needs_credential [of "[(''k1'', ScopeIngest)]"] a i by fastforce+
  then have "extractAPIKey demo_request = ''k1''" by auto
  with a show ?thesis by simp
qed

definition demo_caller :: caller where
  "demo_caller = \<lparr>ca_scope = ScopeIngest, ca_sources = None\<rparr>"

theorem scopes_separate_witness:
  "admitted ''POST'' [''events''] demo_caller = Some EIngest \<and> admitted ''POST'' [''events'', ''e1'', ''resolve''] demo_caller = None"
proof -
  have c: "ca_scope demo_caller = ScopeIngest" by (simp add: demo_caller_def)
  have "admitted ''POST'' [''events''] demo_caller \<noteq> None" by code_simp
  with c scopes_separate [of demo_caller "''POST''" "[''events'']"] scopes_separate [of demo_caller "''POST''" "[''events'', ''e1'', ''resolve'']"]
  show ?thesis by auto
qed

end
