(* ===== verification/Rate_Limit.thy ===== *)
theory Rate_Limit
  imports Complex_Main Http Keyed_Table
begin

text \<open>
  \<^verbatim>\<open>internal/api/ratelimit.go\<close>: token buckets, one for the whole process and one per client address. Go's \<^verbatim>\<open>float64\<close> is a rational
  number here, so rounding is not modelled. \<open>limiter_allow\<close> takes the two clock readings of the source: \<open>now\<close>, which the
  caller passes, and \<open>created\<close>, which a new bucket starts from.

  The properties: a bucket lets through at most its burst plus its rate times the time that passed, a client slower than the
  rate is never refused, and dropping an idle bucket cannot be observed.
\<close>

record tokenBucket =
  tb_tokens :: rat
  tb_max :: rat
  tb_refillRate :: rat
  tb_last :: time

definition Seconds :: "duration \<Rightarrow> rat" where
  "Seconds d = of_int d / of_int Second"

definition newTokenBucket :: "rat \<Rightarrow> int \<Rightarrow> time \<Rightarrow> tokenBucket" where
  "newTokenBucket ratePerSec burst created =
     (let rate = (if ratePerSec \<le> 0 then 1 else ratePerSec); b = (if burst \<le> 0 then 1 else burst) in
      \<lparr>tb_tokens = of_int b, tb_max = of_int b, tb_refillRate = rate, tb_last = created\<rparr>)"

definition refill :: "tokenBucket \<Rightarrow> time \<Rightarrow> rat" where
  "refill b now =
     (let t = tb_tokens b + Seconds (now - tb_last b) * tb_refillRate b in if t > tb_max b then tb_max b else t)"

definition bucket_allow :: "tokenBucket \<Rightarrow> time \<Rightarrow> bool \<times> tokenBucket" where
  "bucket_allow b now =
     (let t = refill b now in
      if t \<ge> 1 then (True, b\<lparr>tb_tokens := t - 1, tb_last := now\<rparr>) else (False, b\<lparr>tb_tokens := t, tb_last := now\<rparr>))"

record bucketEntry =
  be_bucket :: tokenBucket
  be_seen :: time

record keyedLimiter =
  kl_buckets :: "(string \<times> bucketEntry) list"
  kl_ratePerSec :: rat
  kl_burst :: int
  kl_lastSweep :: time

definition newKeyedLimiter :: "rat \<Rightarrow> int \<Rightarrow> time \<Rightarrow> keyedLimiter" where
  "newKeyedLimiter ratePerSec burst now =
     \<lparr>kl_buckets = [], kl_ratePerSec = ratePerSec, kl_burst = burst, kl_lastSweep = now\<rparr>"

definition idle_entry :: "time \<Rightarrow> bucketEntry \<Rightarrow> bool" where
  "idle_entry now e = (now - be_seen e > 10 * Minute)"

definition entry_for :: "keyedLimiter \<Rightarrow> string \<Rightarrow> time \<Rightarrow> tokenBucket" where
  "entry_for k key created =
     (case map_of (kl_buckets k) key of Some e \<Rightarrow> be_bucket e | None \<Rightarrow> newTokenBucket (kl_ratePerSec k) (kl_burst k) created)"

definition limiter_allow :: "keyedLimiter \<Rightarrow> string \<Rightarrow> time \<Rightarrow> time \<Rightarrow> bool \<times> keyedLimiter" where
  "limiter_allow k key now created =
     (let b = entry_for k key created;
          buckets1 = put_key key \<lparr>be_bucket = b, be_seen = now\<rparr> (kl_buckets k);
          k1 = (if now - kl_lastSweep k > 5 * Minute
                then k\<lparr>kl_buckets := filter (\<lambda>(kk, ee). \<not> idle_entry now ee) buckets1, kl_lastSweep := now\<rparr>
                else k\<lparr>kl_buckets := buckets1\<rparr>);
          (ok, b') = bucket_allow b now in
      (ok, k1\<lparr>kl_buckets := put_key key \<lparr>be_bucket = b', be_seen = now\<rparr> (kl_buckets k1)\<rparr>))"

definition probePaths :: "string list" where
  "probePaths = [''/health'', ''/health/live'', ''/ready'', ''/health/ready'']"

text \<open>\<open>perIPLimit\<close> and \<open>globalLimit\<close>: whether the request goes on, and the limiter afterwards.\<close>

definition perIPLimit :: "golib \<Rightarrow> TrustedProxies \<Rightarrow> time \<Rightarrow> time \<Rightarrow> request \<Rightarrow> keyedLimiter \<Rightarrow> bool \<times> keyedLimiter" where
  "perIPLimit gl trusted now created r k =
     (if rq_path r \<in> set probePaths then (True, k)
      else limiter_allow k (limiterKey gl (ClientIP gl trusted r)) now created)"

definition globalLimit :: "time \<Rightarrow> tokenBucket \<Rightarrow> bool \<times> tokenBucket" where
  "globalLimit now b = bucket_allow b now"

definition tooManyRequests :: "'v response" where
  "tooManyRequests = (writeError 429 ''rate_limited'')\<lparr>rs_retry_after := Some 1\<rparr>"

subsection \<open>Runs of a bucket\<close>

fun bucket_run :: "tokenBucket \<Rightarrow> time list \<Rightarrow> bool list \<times> tokenBucket" where
  "bucket_run b [] = ([], b)"
| "bucket_run b (t # ts) =
     (let (ok, b') = bucket_allow b t; (oks, b'') = bucket_run b' ts in (ok # oks, b''))"

definition granted :: "bool list \<Rightarrow> nat" where
  "granted oks = length (filter (\<lambda>ok. ok) oks)"

definition bucket_ok :: "tokenBucket \<Rightarrow> bool" where
  "bucket_ok b = (0 \<le> tb_tokens b \<and> tb_tokens b \<le> tb_max b \<and> 1 \<le> tb_max b \<and> 0 < tb_refillRate b)"

lemma newTokenBucket_ok: "bucket_ok (newTokenBucket r n c)"
  by (simp add: bucket_ok_def newTokenBucket_def Let_def)

lemma Seconds_nonneg: "0 \<le> d \<Longrightarrow> 0 \<le> Seconds d"
  by (simp add: Seconds_def)

lemma Seconds_add: "Seconds (a - b) = Seconds (a - c) + Seconds (c - b)"
  by (simp add: Seconds_def diff_divide_distrib)

lemma refill_bounds:
  assumes "bucket_ok b" "tb_last b \<le> now"
  shows "0 \<le> refill b now" "refill b now \<le> tb_max b" "refill b now \<le> tb_tokens b + Seconds (now - tb_last b) * tb_refillRate b"
    "tb_tokens b \<le> refill b now"
proof -
  have "0 \<le> Seconds (now - tb_last b) * tb_refillRate b" using assms by (simp add: Seconds_nonneg bucket_ok_def)
  with assms(1) show "0 \<le> refill b now" "refill b now \<le> tb_max b" "refill b now \<le> tb_tokens b + Seconds (now - tb_last b) * tb_refillRate b"
    "tb_tokens b \<le> refill b now"
    by (auto simp: refill_def bucket_ok_def Let_def)
qed

lemma bucket_allow_props:
  assumes "bucket_ok b" "tb_last b \<le> now" "bucket_allow b now = (ok, b')"
  shows "bucket_ok b'" "tb_last b' = now" "tb_max b' = tb_max b" "tb_refillRate b' = tb_refillRate b"
    "tb_tokens b' = refill b now - (if ok then 1 else 0)"
  using assms(3) refill_bounds [OF assms(1,2)] assms(1) by (auto simp: bucket_allow_def bucket_ok_def Let_def split: if_splits)

lemma bucket_run_potential:
  assumes "bucket_ok b" "sorted (tb_last b # ts)"
  shows "rat_of_nat (granted (fst (bucket_run b ts))) + tb_tokens (snd (bucket_run b ts)) \<le>
    tb_tokens b + Seconds (last (tb_last b # ts) - tb_last b) * tb_refillRate b \<and> 0 \<le> tb_tokens (snd (bucket_run b ts))"
  using assms
proof (induction ts arbitrary: b)
  case Nil
  then show ?case by (simp add: granted_def Seconds_def bucket_ok_def)
next
  case (Cons t ts)
  obtain ok b' where a: "bucket_allow b t = (ok, b')" by force
  have le: "tb_last b \<le> t" using Cons.prems(2) by simp
  note p = bucket_allow_props [OF Cons.prems(1) le a] and r = refill_bounds [OF Cons.prems(1) le]
  have ih: "rat_of_nat (granted (fst (bucket_run b' ts))) + tb_tokens (snd (bucket_run b' ts)) \<le>
      tb_tokens b' + Seconds (last (t # ts) - t) * tb_refillRate b \<and> 0 \<le> tb_tokens (snd (bucket_run b' ts))"
    using Cons.IH [OF p(1)] Cons.prems(2) p(2,4) by simp
  have "Seconds (last (t # ts) - tb_last b) * tb_refillRate b =
      Seconds (last (t # ts) - t) * tb_refillRate b + Seconds (t - tb_last b) * tb_refillRate b"
    using Seconds_add [of "last (t # ts)" "tb_last b" t] by (simp add: distrib_right)
  with ih p(5) r(3) show ?case
    by (cases ok) (auto simp: a granted_def Let_def split: prod.split)
qed

lemma bucket_run_append: "bucket_run b (xs @ ys) =
    (let (oks, b') = bucket_run b xs; (oks', b'') = bucket_run b' ys in (oks @ oks', b''))"
  by (induction xs arbitrary: b) (auto simp: Let_def split: prod.splits)

lemma length_bucket_run: "length (fst (bucket_run b ts)) = length ts"
  by (induction ts arbitrary: b) (simp_all add: Let_def case_prod_unfold)

lemma bucket_run_state:
  assumes "bucket_ok b" "sorted (tb_last b # ts)" "bucket_run b ts = (oks, b')"
  shows "bucket_ok b' \<and> tb_last b' = last (tb_last b # ts) \<and> tb_max b' = tb_max b \<and> tb_refillRate b' = tb_refillRate b"
  using assms
proof (induction ts arbitrary: b oks)
  case (Cons t ts)
  obtain ok b1 where a: "bucket_allow b t = (ok, b1)" by force
  have le: "tb_last b \<le> t" using Cons.prems(2) by simp
  note p = bucket_allow_props [OF Cons.prems(1) le a]
  obtain oks1 where r: "bucket_run b1 ts = (oks1, b')" using Cons.prems(3) a by (auto simp: Let_def split: prod.splits)
  show ?case using Cons.IH [OF p(1) _ r] Cons.prems(2) p(2-4) by simp
qed simp

text \<open>However long the bucket was idle before the first of the requests, it holds no more than its size when they begin.\<close>

lemma bucket_run_from:
  assumes "bucket_ok b" "sorted (tb_last b # t # ts)"
  shows "rat_of_nat (granted (fst (bucket_run b (t # ts)))) \<le> tb_max b + Seconds (last (t # ts) - t) * tb_refillRate b"
proof -
  obtain ok b' where a: "bucket_allow b t = (ok, b')" by force
  have le: "tb_last b \<le> t" using assms(2) by simp
  note p = bucket_allow_props [OF assms(1) le a]
  have "rat_of_nat (granted (fst (bucket_run b' ts))) \<le> tb_tokens b' + Seconds (last (t # ts) - t) * tb_refillRate b"
    using bucket_run_potential [OF p(1), of ts] assms(2) p(2,4) by simp
  with p(5) refill_bounds(2) [OF assms(1) le] show ?thesis
    by (cases ok) (auto simp: a granted_def Let_def split: prod.split)
qed

text \<open>
  C38: a bucket enforces its rate over every window. As long as the clock does not go back, among any consecutive requests of a run the number let
  through is at most the size of the bucket plus the refill rate times the seconds from the first to the last of them, however long the bucket was
  idle before; and over the whole run it is at most the tokens the bucket holds plus the refill rate times the seconds since its last use.
\<close>

theorem bucket_rate_bound:
  assumes "bucket_ok b" "sorted (tb_last b # before @ t # ts)"
  shows "rat_of_nat (granted (drop (length before) (fst (bucket_run b (before @ t # ts))))) \<le>
           tb_max b + Seconds (last (t # ts) - t) * tb_refillRate b \<and>
         rat_of_nat (granted (fst (bucket_run b (before @ t # ts)))) \<le>
           tb_tokens b + Seconds (last (t # ts) - tb_last b) * tb_refillRate b"
proof
  obtain oks b' where r: "bucket_run b before = (oks, b')" by force
  have s: "sorted (tb_last b # before)" "sorted (last (tb_last b # before) # t # ts)"
    using assms(2) by (auto simp: sorted_append split: if_splits)
  note st = bucket_run_state [OF assms(1) s(1) r]
  have "length oks = length before" using length_bucket_run [of b before] by (simp add: r)
  then have "drop (length before) (fst (bucket_run b (before @ t # ts))) = fst (bucket_run b' (t # ts))"
    by (simp add: bucket_run_append r Let_def case_prod_unfold)
  then show "rat_of_nat (granted (drop (length before) (fst (bucket_run b (before @ t # ts))))) \<le> tb_max b + Seconds (last (t # ts) - t) * tb_refillRate b"
    using bucket_run_from [of b' t ts] s(2) st by simp
  show "rat_of_nat (granted (fst (bucket_run b (before @ t # ts)))) \<le> tb_tokens b + Seconds (last (t # ts) - tb_last b) * tb_refillRate b"
    using bucket_run_potential [OF assms] by simp
qed

text \<open>Fifty seconds of silence would refill more than eight tokens; the bucket holds two.\<close>

theorem bucket_rate_bound_witness:
  "rat_of_nat (granted (drop 1 (fst (bucket_run (newTokenBucket (1 / 6) 2 0) [1, 50 * Second, 50 * Second, 50 * Second])))) \<le> 2 \<and>
   fst (bucket_run (newTokenBucket (1 / 6) 2 0) [1, 50 * Second, 50 * Second, 50 * Second]) = [True, True, True, False]"
proof -
  have "sorted (tb_last (newTokenBucket (1 / 6) 2 0) # [1] @ 50 * Second # [50 * Second, 50 * Second])"
    by (simp add: newTokenBucket_def)
  from bucket_rate_bound [OF newTokenBucket_ok this]
  have "rat_of_nat (granted (drop 1 (fst (bucket_run (newTokenBucket (1 / 6) 2 0) [1, 50 * Second, 50 * Second, 50 * Second])))) \<le> 2"
    by (simp add: newTokenBucket_def Seconds_def)
  moreover have "fst (bucket_run (newTokenBucket (1 / 6) 2 0) [1, 50 * Second, 50 * Second, 50 * Second]) = [True, True, True, False]" by code_simp
  ultimately show ?thesis by blast
qed

subsection \<open>A slow client is never refused\<close>

fun spaced :: "rat \<Rightarrow> time \<Rightarrow> time list \<Rightarrow> bool" where
  "spaced rate l [] = True"
| "spaced rate l (t # ts) = (1 \<le> Seconds (t - l) * rate \<and> spaced rate t ts)"

text \<open>
  A client that keeps to the rate is never refused: when the requests are far enough apart for a token to come back between
  two of them, every one is let through.
\<close>

theorem bucket_never_starves:
  assumes "bucket_ok b" "spaced (tb_refillRate b) (tb_last b) ts"
  shows "list_all (\<lambda>ok. ok) (fst (bucket_run b ts))"
  using assms
proof (induction ts arbitrary: b)
  case (Cons t ts)
  obtain ok b' where a: "bucket_allow b t = (ok, b')" by force
  have s: "1 \<le> Seconds (t - tb_last b) * tb_refillRate b" using Cons.prems(2) by simp
  have le: "tb_last b \<le> t"
  proof (rule ccontr)
    assume "\<not> tb_last b \<le> t"
    then have "Seconds (t - tb_last b) \<le> 0" by (simp add: Seconds_def divide_le_0_iff)
    then have "Seconds (t - tb_last b) * tb_refillRate b \<le> 0" using Cons.prems(1) by (simp add: bucket_ok_def mult_nonpos_nonneg)
    with s show False by simp
  qed
  note p = bucket_allow_props [OF Cons.prems(1) le a]
  have "1 \<le> refill b t" using s Cons.prems(1) by (auto simp: refill_def bucket_ok_def Let_def)
  then have ok: "ok" using a by (simp add: bucket_allow_def Let_def split: if_splits)
  have "list_all (\<lambda>ok. ok) (fst (bucket_run b' ts))" using Cons.IH [OF p(1)] Cons.prems(2) p(2,4) by simp
  with ok show ?case by (auto simp: a Let_def split: prod.split)
qed simp

theorem bucket_never_starves_witness: "list_all (\<lambda>ok. ok) (fst (bucket_run (newTokenBucket (1 / 6) 1 0) [6 * Second, 12 * Second, 20 * Second]))"
  by (rule bucket_never_starves [OF newTokenBucket_ok]) (simp add: newTokenBucket_def Seconds_def)

subsection \<open>Buckets of different clients\<close>

lemma map_of_filter_value:
  "distinct (map fst xs) \<Longrightarrow> map_of (filter (\<lambda>(k, v). P v) xs) k = (case map_of xs k of Some v \<Rightarrow> if P v then Some v else None | None \<Rightarrow> None)"
  by (induction xs) (auto simp: map_of_eq_None_iff split: option.splits if_splits)

definition limiter_ok :: "keyedLimiter \<Rightarrow> bool" where
  "limiter_ok k = distinct (map fst (kl_buckets k))"

lemma limiter_entries:
  assumes "limiter_ok k" "limiter_allow k key now created = (ok, k')"
  shows "limiter_ok k'" "map_of (kl_buckets k') key = Some \<lparr>be_bucket = snd (bucket_allow (entry_for k key created) now), be_seen = now\<rparr>"
    "ok = fst (bucket_allow (entry_for k key created) now)"
    "key' \<noteq> key \<Longrightarrow> map_of (kl_buckets k) key' = Some e \<Longrightarrow> \<not> idle_entry now e \<Longrightarrow> map_of (kl_buckets k') key' = Some e"
    "key' \<noteq> key \<Longrightarrow> map_of (kl_buckets k) key' = Some e \<Longrightarrow> map_of (kl_buckets k') key' \<noteq> Some e \<Longrightarrow> map_of (kl_buckets k') key' = None \<and> idle_entry now e"
    "key' \<noteq> key \<Longrightarrow> map_of (kl_buckets k) key' = None \<Longrightarrow> map_of (kl_buckets k') key' = None"
    "kl_ratePerSec k' = kl_ratePerSec k" "kl_burst k' = kl_burst k"
proof -
  define buckets1 where "buckets1 = put_key key \<lparr>be_bucket = entry_for k key created, be_seen = now\<rparr> (kl_buckets k)"
  define swept where "swept = (if now - kl_lastSweep k > 5 * Minute then filter (\<lambda>(kk, ee). \<not> idle_entry now ee) buckets1 else buckets1)"
  have d: "distinct (map fst buckets1)" using pairs.ok_put assms(1) by (simp add: buckets1_def limiter_ok_def)
  have ds: "distinct (map fst swept)" using d by (simp add: swept_def distinct_map_filter)
  have kb: "kl_buckets k' = put_key key \<lparr>be_bucket = snd (bucket_allow (entry_for k key created) now), be_seen = now\<rparr> swept"
    and rest: "ok = fst (bucket_allow (entry_for k key created) now)" "kl_ratePerSec k' = kl_ratePerSec k" "kl_burst k' = kl_burst k"
    using assms(2) by (auto simp: limiter_allow_def Let_def buckets1_def swept_def split: prod.splits if_splits)
  have m: "map_of swept key' = (case map_of (kl_buckets k) key' of Some v \<Rightarrow> if now - kl_lastSweep k > 5 * Minute \<and> idle_entry now v then None else Some v | None \<Rightarrow> None)"
    if "key' \<noteq> key" for key'
    using that map_of_filter_value [OF d, of "\<lambda>v. \<not> idle_entry now v" key'] by (auto simp: swept_def buckets1_def pairs.get_put split: option.split)
  show "limiter_ok k'" using pairs.ok_put [OF ds] by (simp add: kb limiter_ok_def)
  show "map_of (kl_buckets k') key = Some \<lparr>be_bucket = snd (bucket_allow (entry_for k key created) now), be_seen = now\<rparr>" by (simp add: kb pairs.get_put)
  show "ok = fst (bucket_allow (entry_for k key created) now)" "kl_ratePerSec k' = kl_ratePerSec k" "kl_burst k' = kl_burst k" by (rule rest)+
  show "key' \<noteq> key \<Longrightarrow> map_of (kl_buckets k) key' = Some e \<Longrightarrow> \<not> idle_entry now e \<Longrightarrow> map_of (kl_buckets k') key' = Some e"
    using m [of key'] by (simp add: kb pairs.get_put)
  show "key' \<noteq> key \<Longrightarrow> map_of (kl_buckets k) key' = Some e \<Longrightarrow> map_of (kl_buckets k') key' \<noteq> Some e \<Longrightarrow> map_of (kl_buckets k') key' = None \<and> idle_entry now e"
    using m [of key'] by (auto simp: kb pairs.get_put split: if_splits)
  show "key' \<noteq> key \<Longrightarrow> map_of (kl_buckets k) key' = None \<Longrightarrow> map_of (kl_buckets k') key' = None"
    using m [of key'] by (simp add: kb pairs.get_put)
qed

lemma full_bucket:
  assumes "tb_tokens b + Seconds (now - tb_last b) * tb_refillRate b \<ge> tb_max b" "1 \<le> tb_max b"
  shows "bucket_allow b now = (True, b\<lparr>tb_tokens := tb_max b - 1, tb_last := now\<rparr>)"
  using assms by (auto simp: bucket_allow_def refill_def Let_def)

text \<open>
  Clients do not spend each other's tokens, and forgetting idle ones cannot be observed. A request of one client leaves the bucket
  of every other as it is, or drops it because that client was idle for ten minutes; if ten minutes refill a bucket, a client
  whose bucket was dropped meets, at its next request, the decision and the bucket it would have met without the drop.
\<close>

theorem limiter_isolates_clients:
  assumes "limiter_ok k" "limiter_allow k key now created = (ok, k')" "key' \<noteq> key" "map_of (kl_buckets k) key' = Some e"
    and "bucket_ok (be_bucket e)" "tb_max (be_bucket e) = of_int (kl_burst k)" "tb_refillRate (be_bucket e) = kl_ratePerSec k"
    and "1 \<le> kl_burst k" "0 < kl_ratePerSec k" "of_int (kl_burst k) \<le> 600 * kl_ratePerSec k"
    and "tb_last (be_bucket e) \<le> be_seen e" "now \<le> later" "created' \<le> later"
  shows "map_of (kl_buckets k') key' = Some e \<or>
         map_of (kl_buckets k') key' = None \<and>
         bucket_allow (entry_for k' key' created') later = bucket_allow (entry_for k key' created') later"
proof (rule disjCI)
  assume n: "\<not> (map_of (kl_buckets k') key' = None \<and> bucket_allow (entry_for k' key' created') later = bucket_allow (entry_for k key' created') later)"
  show "map_of (kl_buckets k') key' = Some e"
  proof (rule ccontr)
    assume "map_of (kl_buckets k') key' \<noteq> Some e"
    with limiter_entries(5) [OF assms(1,2,3,4)] have gone: "map_of (kl_buckets k') key' = None" "idle_entry now e" by blast+
    note same = limiter_entries(7,8) [OF assms(1,2)]
    have "600 \<le> Seconds (later - tb_last (be_bucket e))" using gone(2) assms(11,12) by (simp add: idle_entry_def Seconds_def)
    then have "600 * kl_ratePerSec k \<le> Seconds (later - tb_last (be_bucket e)) * tb_refillRate (be_bucket e)" using assms(7,9) by simp
    then have old: "tb_max (be_bucket e) \<le> tb_tokens (be_bucket e) + Seconds (later - tb_last (be_bucket e)) * tb_refillRate (be_bucket e)"
      using assms(5,6,10) unfolding bucket_ok_def by linarith
    let ?n = "newTokenBucket (kl_ratePerSec k) (kl_burst k) created'"
    have f: "tb_tokens ?n = of_int (kl_burst k)" "tb_max ?n = of_int (kl_burst k)" "tb_refillRate ?n = kl_ratePerSec k" "tb_last ?n = created'"
      using assms(8,9) by (simp_all add: newTokenBucket_def Let_def)
    have new: "tb_max ?n \<le> tb_tokens ?n + Seconds (later - tb_last ?n) * tb_refillRate ?n"
      using Seconds_nonneg [of "later - created'"] assms(9,13) by (simp add: f)
    have one: "1 \<le> tb_max (be_bucket e)" "1 \<le> tb_max ?n" using assms(6,8) by (simp_all add: f)
    have "be_bucket e\<lparr>tb_tokens := tb_max (be_bucket e) - 1, tb_last := later\<rparr> = ?n\<lparr>tb_tokens := tb_max ?n - 1, tb_last := later\<rparr>"
      using f assms(6,7) by (cases "be_bucket e", cases ?n) auto
    with full_bucket [OF old one(1)] full_bucket [OF new one(2)] n gone(1) show False
      by (simp add: entry_for_def assms(4) same)
  qed
qed

definition demo_limiter :: keyedLimiter where
  "demo_limiter = snd (limiter_allow (newKeyedLimiter (1 / 6) 10 0) ''a'' 0 0)"

theorem limiter_isolates_clients_witness:
  "map_of (kl_buckets (snd (limiter_allow demo_limiter ''b'' (11 * Minute) (11 * Minute)))) ''a'' = None \<and>
   bucket_allow (entry_for (snd (limiter_allow demo_limiter ''b'' (11 * Minute) (11 * Minute))) ''a'' (12 * Minute)) (12 * Minute) =
   bucket_allow (entry_for demo_limiter ''a'' (12 * Minute)) (12 * Minute)"
proof -
  let ?e = "the (map_of (kl_buckets demo_limiter) ''a'')"
  have h: "limiter_ok demo_limiter" "map_of (kl_buckets demo_limiter) ''a'' = Some ?e" "bucket_ok (be_bucket ?e)"
    "tb_max (be_bucket ?e) = of_int (kl_burst demo_limiter)" "tb_refillRate (be_bucket ?e) = kl_ratePerSec demo_limiter"
    "1 \<le> kl_burst demo_limiter" "0 < kl_ratePerSec demo_limiter" "of_int (kl_burst demo_limiter) \<le> 600 * kl_ratePerSec demo_limiter"
    "tb_last (be_bucket ?e) \<le> be_seen ?e" by code_simp+
  have g: "map_of (kl_buckets (snd (limiter_allow demo_limiter ''b'' (11 * Minute) (11 * Minute)))) ''a'' \<noteq> Some ?e" by code_simp
  show ?thesis
    using limiter_isolates_clients [OF h(1) surjective_pairing _ h(2-9), of "''b''" "11 * Minute" "12 * Minute" "12 * Minute" "11 * Minute"] g by simp
qed

end
