(* ===== verification/Console.thy ===== *)
theory Console
  imports Auth_Properties Rate_Limit
begin

text \<open>
  \<^verbatim>\<open>internal/api/auth.go\<close>: the console's account endpoints. The state \<open>console\<close> is the account tables together with what the server
  process keeps in memory and shares between requests: the throttle, the login limiter and the slots for password checks. A
  handler is a program over it, so other requests may run between any two of its statements.

  \<open>server\<close> is the configuration; \<open>readings\<close> are the clock readings and random draws of one request. A range over the map of the throttle
  visits the keys in the order \<open>rd_order\<close> gives them. \<^verbatim>\<open>json.Unmarshal\<close> into the request structs is the argument \<open>unmarshal\<close>.
\<close>

subsection \<open>State\<close>

record console = accounts +
  co_throttle :: Throttle
  co_loginLimiter :: keyedLimiter
  co_checks :: nat

record server =
  sv_lib :: golib
  sv_argon :: argon
  sv_adminToken :: string
  sv_trustedProxies :: TrustedProxies

record readings =
  rd_limit_now :: time
  rd_limit_created :: time
  rd_auth_now :: time
  rd_wait_now :: time
  rd_fail_now :: time
  rd_session_now :: time
  rd_user_now :: time
  rd_salt :: "string option"
  rd_token :: "string option"
  rd_user_id :: string
  rd_order :: "throttleKey list \<Rightarrow> throttleKey list"

record userView =
  uv_id :: string
  uv_login :: string
  uv_created_at :: time
  uv_disabled_at :: "time option"
  uv_last_login_at :: "time option"

datatype view = UserView userView | UsersView "userView list"

type_synonym answer = "view response"
type_synonym 'a handler = "(console, 'a) prog"

definition viewOf :: "User \<Rightarrow> userView" where
  "viewOf u =
     \<lparr>uv_id = us_id u, uv_login = us_login u, uv_created_at = us_created_at u, uv_disabled_at = us_disabled_at u,
      uv_last_login_at = us_last_login_at u\<rparr>"

record signedIn =
  si_user :: User
  si_sessionID :: string

definition maxAuthBody :: nat where "maxAuthBody = 8 * 1024"
definition maxUserAgent :: nat where "maxUserAgent = 256"
definition maxPasswordChecks :: nat where "maxPasswordChecks = 4"
definition consoleHeader :: string where "consoleHeader = ''X-AlertLoop-Console''"
definition loginPerSecond :: rat where "loginPerSecond = 1 / 6"
definition loginBurst :: int where "loginBurst = 10"

definition NewServer_console :: "time \<Rightarrow> console" where
  "NewServer_console now =
     \<lparr>ac_users = [], ac_sessions = [], co_throttle = NewThrottle, co_loginLimiter = newKeyedLimiter loginPerSecond loginBurst now,
      co_checks = 0\<rparr>"

subsection \<open>Where a request comes from\<close>

definition safeMethod :: "string \<Rightarrow> bool" where
  "safeMethod m = (m = ''GET'' \<or> m = ''HEAD'' \<or> m = ''OPTIONS'')"

definition trim_brackets :: "string \<Rightarrow> string" where
  "trim_brackets s = (let b = (\<lambda>c. c = CHR ''['' \<or> c = CHR '']'') in rev (dropWhile b (rev (dropWhile b s))))"

definition sameHost :: "golib \<Rightarrow> url \<Rightarrow> string \<Rightarrow> bool" where
  "sameHost gl u host =
     (let (h, port) = (case SplitHostPort host of Some hp \<Rightarrow> hp | None \<Rightarrow> (trim_brackets host, [])) in
      if \<not> gl_EqualFold gl (ur_Hostname u) h then False
      else if port = [] then True
      else
        let op = (if ur_Port u = [] then
                    (if ToLower (gl_lower gl) (ur_Scheme u) = ''https'' then ''443''
                     else if ToLower (gl_lower gl) (ur_Scheme u) = ''http'' then ''80'' else [])
                  else ur_Port u) in
        op = port)"

definition peer_trusted :: "server \<Rightarrow> request \<Rightarrow> bool" where
  "peer_trusted sv r = trusts (sv_trustedProxies sv) (gl_ParseIP (sv_lib sv) (hostOnly (rq_remote r)))"

definition reachedHost :: "server \<Rightarrow> request \<Rightarrow> string" where
  "reachedHost sv r =
     (let fh = rq_header r ''X-Forwarded-Host'' in
      if fh \<noteq> [] \<and> peer_trusted sv r then TrimSpace (hd (SplitN2 (CHR '','') fh)) else rq_host r)"

text \<open>Whether the request does not look like one of the console; the explanation it gives is not modelled.\<close>

definition notFromConsole :: "server \<Rightarrow> request \<Rightarrow> bool" where
  "notFromConsole sv r =
     (if rq_header r consoleHeader \<noteq> ''1'' then True
      else
        let o1 = rq_header r ''Origin'' in
        if o1 = [] then False
        else (case gl_ParseURL (sv_lib sv) o1 of
                None \<Rightarrow> True
              | Some u \<Rightarrow> if ur_Host u = [] then True else \<not> sameHost (sv_lib sv) u (reachedHost sv r)))"

definition refuseCrossSite :: answer where
  "refuseCrossSite = writeError 403 ''forbidden''"

definition isHTTPS :: "server \<Rightarrow> request \<Rightarrow> bool" where
  "isHTTPS sv r =
     (if rq_tls r then True
      else peer_trusted sv r \<and> gl_EqualFold (sv_lib sv) (TrimSpace (rq_header r ''X-Forwarded-Proto'')) ''https'')"

definition signInAllowed :: "server \<Rightarrow> request \<Rightarrow> bool" where
  "signInAllowed sv r = (isHTTPS sv r \<or> demoTokenAllowed (sv_lib sv) r)"

definition https_required :: answer where
  "https_required = writeError 403 ''https_required''"

subsection \<open>Cookies and sessions\<close>

definition session_cookie :: "server \<Rightarrow> request \<Rightarrow> string \<Rightarrow> int \<Rightarrow> cookie" where
  "session_cookie sv r v age =
     \<lparr>ck_value = v, ck_max_age = age, ck_http_only = True, ck_secure = isHTTPS sv r, ck_same_site_strict = True\<rparr>"

definition setSessionCookie :: "server \<Rightarrow> request \<Rightarrow> string \<Rightarrow> answer \<Rightarrow> answer" where
  "setSessionCookie sv r token a = a\<lparr>rs_cookie := Some (session_cookie sv r token (MaxLifetime div Second))\<rparr>"

definition clearSessionCookie :: "server \<Rightarrow> request \<Rightarrow> answer \<Rightarrow> answer" where
  "clearSessionCookie sv r a = a\<lparr>rs_cookie := Some (session_cookie sv r [] (- 1))\<rparr>"

definition cookie_value :: "request \<Rightarrow> string option" where
  "cookie_value r = (case rq_cookie r of None \<Rightarrow> None | Some v \<Rightarrow> if v = [] then None else Some v)"

definition session_lookup :: "server \<Rightarrow> readings \<Rightarrow> string \<Rightarrow> User result handler" where
  "session_lookup sv rd token =
     SessionUser (SessionID (gl_sha256 (sv_lib sv)) token) (rd_auth_now rd) (rd_auth_now rd - IdleTimeout)"

definition authenticateSession :: "server \<Rightarrow> readings \<Rightarrow> request \<Rightarrow> (answer + signedIn) handler" where
  "authenticateSession sv rd r =
     (case cookie_value r of
        None \<Rightarrow> State_Monad.return (Inl (writeError 401 ''unauthorized''))
      | Some token \<Rightarrow> do {
          u \<leftarrow> session_lookup sv rd token;
          State_Monad.return
            (case u of
               Inr user \<Rightarrow> Inr \<lparr>si_user = user, si_sessionID = SessionID (gl_sha256 (sv_lib sv)) token\<rparr>
             | Inl x \<Rightarrow>
                 if x = ErrNotFound then Inl (clearSessionCookie sv r (writeError 401 ''unauthorized''))
                 else Inl (writeDomainError x))
        })"

definition session_row :: "server \<Rightarrow> readings \<Rightarrow> request \<Rightarrow> User \<Rightarrow> string \<Rightarrow> Session" where
  "session_row sv rd r u i =
     (let now = rd_session_now rd in
      \<lparr>ss_id = i, ss_user_id = us_id u, ss_created_at = now, ss_last_seen_at = now, ss_expires_at = now + MaxLifetime,
       ss_ip = ClientIP (sv_lib sv) (sv_trustedProxies sv) r,
       ss_user_agent = (if length (rq_user_agent r) > maxUserAgent then take maxUserAgent (rq_user_agent r) else rq_user_agent r)\<rparr>)"

text \<open>\<open>startSession\<close> answers the cookie value and the user with the new time of the last login.\<close>

definition startSession :: "server \<Rightarrow> readings \<Rightarrow> request \<Rightarrow> User \<Rightarrow> (string \<times> User) result handler" where
  "startSession sv rd r u =
     (case NewSessionToken (gl_sha256 (sv_lib sv)) (rd_token rd) of
        Inl x \<Rightarrow> State_Monad.return (Inl x)
      | Inr (token, i) \<Rightarrow> do {
          c \<leftarrow> transact (CreateSession (session_row sv rd r u i));
          State_Monad.return (map_sum id (\<lambda>_. (token, u\<lparr>us_last_login_at := Some (rd_session_now rd)\<rparr>)) c)
        })"

definition started :: "server \<Rightarrow> request \<Rightarrow> nat \<Rightarrow> (string \<times> User) result \<Rightarrow> answer" where
  "started sv r status res =
     (case res of
        Inl x \<Rightarrow> writeDomainError x
      | Inr (token, u) \<Rightarrow> setSessionCookie sv r token (writeJSON status (UserView (viewOf u))))"

subsection \<open>Bodies and errors\<close>

definition decodeAuthBody :: "(string \<Rightarrow> 'b option) \<Rightarrow> 'b \<Rightarrow> request \<Rightarrow> answer + 'b" where
  "decodeAuthBody unmarshal zero r =
     (case readBody maxAuthBody r of
        Inl a \<Rightarrow> Inl a
      | Inr body \<Rightarrow>
          if body = [] then Inr zero
          else (case unmarshal body of None \<Rightarrow> Inl (writeError 400 ''bad_request'') | Some v \<Rightarrow> Inr v))"

definition writeAccountError :: "err \<Rightarrow> answer" where
  "writeAccountError e =
     (case e of
        ErrInvalid _ \<Rightarrow> writeError 400 ''validation_failed''
      | ErrLoginTaken \<Rightarrow> writeError 409 ''login_taken''
      | _ \<Rightarrow> writeDomainError e)"

subsection \<open>Shared memory of the server\<close>

definition acquirePasswordCheck :: "console \<Rightarrow> bool \<times> console" where
  "acquirePasswordCheck c = (if co_checks c < maxPasswordChecks then (True, c\<lparr>co_checks := co_checks c + 1\<rparr>) else (False, c))"

definition releasePasswordCheck :: "console \<Rightarrow> unit \<times> console" where
  "releasePasswordCheck c = ((), c\<lparr>co_checks := co_checks c - 1\<rparr>)"

definition checks_busy :: answer where
  "checks_busy = (writeError 429 ''rate_limited'')\<lparr>rs_retry_after := Some 1\<rparr>"

definition throttle_fail :: "readings \<Rightarrow> throttleKey \<Rightarrow> console \<Rightarrow> unit \<times> console" where
  "throttle_fail rd k c =
     ((), c\<lparr>co_throttle := Fail (rd_order rd (map fst (co_throttle c))) (rd_fail_now rd) k (co_throttle c)\<rparr>)"

definition throttle_succeed :: "throttleKey \<Rightarrow> console \<Rightarrow> unit \<times> console" where
  "throttle_succeed k c = ((), c\<lparr>co_throttle := Succeed k (co_throttle c)\<rparr>)"

definition throttle_wait :: "readings \<Rightarrow> throttleKey \<Rightarrow> console \<Rightarrow> duration" where
  "throttle_wait rd k c = Wait (co_throttle c) (rd_wait_now rd) k"

definition client_key :: "server \<Rightarrow> request \<Rightarrow> string" where
  "client_key sv r = limiterKey (sv_lib sv) (ClientIP (sv_lib sv) (sv_trustedProxies sv) r)"

definition login_allow :: "server \<Rightarrow> readings \<Rightarrow> request \<Rightarrow> console \<Rightarrow> bool \<times> console" where
  "login_allow sv rd r c =
     (let (ok, k) = limiter_allow (co_loginLimiter c) (client_key sv r) (rd_limit_now rd) (rd_limit_created rd) in
      (ok, c\<lparr>co_loginLimiter := k\<rparr>))"

text \<open>One password check between acquiring and releasing a slot; \<open>None\<close> when every slot is busy.\<close>

definition check_password :: "server \<Rightarrow> string \<Rightarrow> string \<Rightarrow> bool option handler" where
  "check_password sv hash password = do {
     got \<leftarrow> atomic acquirePasswordCheck;
     if \<not> got then State_Monad.return None
     else do {
       _ \<leftarrow> atomic releasePasswordCheck;
       State_Monad.return (Some (CheckPassword (sv_argon sv) hash password))
     }
   }"

subsection \<open>Handlers\<close>

definition consoleOnly :: "server \<Rightarrow> request \<Rightarrow> answer handler \<Rightarrow> answer handler" where
  "consoleOnly sv r next_h = (if notFromConsole sv r then State_Monad.return refuseCrossSite else next_h)"

definition loginLimit :: "server \<Rightarrow> readings \<Rightarrow> request \<Rightarrow> answer handler \<Rightarrow> answer handler" where
  "loginLimit sv rd r next_h = do {
     ok \<leftarrow> atomic (login_allow sv rd r);
     if ok then next_h else State_Monad.return tooManyRequests
   }"

definition withUser :: "server \<Rightarrow> readings \<Rightarrow> request \<Rightarrow> (signedIn \<Rightarrow> answer handler) \<Rightarrow> answer handler" where
  "withUser sv rd r next_h = do {
     a \<leftarrow> authenticateSession sv rd r;
     (case a of Inl x \<Rightarrow> State_Monad.return x | Inr si \<Rightarrow> next_h si)
   }"

definition handleMe :: "server \<Rightarrow> readings \<Rightarrow> request \<Rightarrow> answer handler" where
  "handleMe sv rd r =
     (let signed_out = (\<lambda>fin. do {
            n \<leftarrow> query CountUsers;
            State_Monad.return (fin (if n = 0 then writeError 401 ''setup_required'' else writeError 401 ''unauthorized''))
          }) in
      case cookie_value r of
        None \<Rightarrow> signed_out id
      | Some token \<Rightarrow> do {
          u \<leftarrow> session_lookup sv rd token;
          (case u of
             Inr user \<Rightarrow> State_Monad.return (writeJSON 200 (UserView (viewOf user)))
           | Inl x \<Rightarrow>
               if x \<noteq> ErrNotFound then State_Monad.return (writeDomainError x)
               else signed_out (clearSessionCookie sv r))
        })"

record setupRequest =
  sr_admin_token :: string
  sr_login :: string
  sr_password :: string

definition handleSetup :: "server \<Rightarrow> readings \<Rightarrow> (string \<Rightarrow> setupRequest option) \<Rightarrow> request \<Rightarrow> answer handler" where
  "handleSetup sv rd unmarshal r =
     (if \<not> signInAllowed sv r then State_Monad.return https_required
      else (case decodeAuthBody unmarshal \<lparr>sr_admin_token = [], sr_login = [], sr_password = []\<rparr> r of
              Inl a \<Rightarrow> State_Monad.return a
            | Inr inp \<Rightarrow>
                if sv_adminToken sv = [] then State_Monad.return (writeError 403 ''forbidden'')
                else if sr_admin_token inp \<noteq> sv_adminToken sv then State_Monad.return (writeError 401 ''unauthorized'')
                else if sv_adminToken sv = DemoAdminToken \<and> \<not> demoTokenAllowed (sv_lib sv) r
                then State_Monad.return (writeError 403 ''forbidden'')
                else (case NewUser (gl_lower (sv_lib sv)) (sv_argon sv) (rd_salt rd) (rd_user_id rd) (rd_user_now rd) (sr_login inp) (sr_password inp) of
                        Inl x \<Rightarrow> State_Monad.return (writeAccountError x)
                      | Inr u \<Rightarrow> do {
                          c \<leftarrow> transact (CreateFirstUser u);
                          (case c of
                             Inl x \<Rightarrow> State_Monad.return (if x = ErrUsersExist then writeError 409 ''setup_done'' else writeAccountError x)
                           | Inr _ \<Rightarrow> do {
                               s \<leftarrow> startSession sv rd r u;
                               State_Monad.return (started sv r 201 s)
                             })
                        })))"

record loginRequest =
  lr_login :: string
  lr_password :: string

definition zero_login :: loginRequest where
  "zero_login = \<lparr>lr_login = [], lr_password = []\<rparr>"

definition wait_answer :: "duration \<Rightarrow> answer" where
  "wait_answer w = (writeError 429 ''rate_limited'')\<lparr>rs_retry_after := Some ((w + Second div 2) div Second + 1)\<rparr>"

text \<open>The hash a sign-in is checked against: empty for an unknown or disabled user.\<close>

definition login_hash :: "User result \<Rightarrow> string" where
  "login_hash u = (case u of Inr x \<Rightarrow> if us_disabled_at x = None then us_password_hash x else [] | Inl _ \<Rightarrow> [])"

definition handleLogin :: "server \<Rightarrow> readings \<Rightarrow> (string \<Rightarrow> loginRequest option) \<Rightarrow> request \<Rightarrow> answer handler" where
  "handleLogin sv rd unmarshal r =
     (if \<not> signInAllowed sv r then State_Monad.return https_required
      else (case decodeAuthBody unmarshal zero_login r of
              Inl a \<Rightarrow> State_Monad.return a
            | Inr inp \<Rightarrow>
               (let login = ToLower (gl_lower (sv_lib sv)) (TrimSpace (lr_login inp)); k = (login, client_key sv r) in do {
                  wait \<leftarrow> query (throttle_wait rd k);
                  if wait > 0 then State_Monad.return (wait_answer wait)
                  else do {
                    u \<leftarrow> query (UserByLogin login);
                    if (case u of Inl x \<Rightarrow> x \<noteq> ErrNotFound | Inr _ \<Rightarrow> False) then State_Monad.return (writeDomainError (projl u))
                    else do {
                      m \<leftarrow> check_password sv (login_hash u) (lr_password inp);
                      (case m of
                         None \<Rightarrow> State_Monad.return checks_busy
                       | Some ok \<Rightarrow>
                           if \<not> ok then do {
                             _ \<leftarrow> atomic (throttle_fail rd k);
                             State_Monad.return (writeError 401 ''unauthorized'')
                           }
                           else do {
                             _ \<leftarrow> atomic (throttle_succeed k);
                             s \<leftarrow> startSession sv rd r (projr u);
                             State_Monad.return (started sv r 200 s)
                           })
                    }
                  }
                })))"

definition no_content :: answer where
  "no_content = respond 204 NoBody"

definition handleLogout :: "server \<Rightarrow> readings \<Rightarrow> (string \<Rightarrow> bool option) \<Rightarrow> request \<Rightarrow> answer handler" where
  "handleLogout sv rd unmarshal r =
     (case decodeAuthBody unmarshal False r of
        Inl a \<Rightarrow> State_Monad.return a
      | Inr everywhere \<Rightarrow>
         (case cookie_value r of
            None \<Rightarrow> State_Monad.return (clearSessionCookie sv r no_content)
          | Some token \<Rightarrow> do {
              e \<leftarrow> (if everywhere then do {
                      u \<leftarrow> session_lookup sv rd token;
                      (case u of
                         Inl x \<Rightarrow> State_Monad.return (if x = ErrNotFound then None else Some x)
                       | Inr user \<Rightarrow> do {
                           _ \<leftarrow> atomic (DeleteUserSessions (us_id user));
                           State_Monad.return None
                         })
                    }
                    else State_Monad.return None);
              (case e of
                 Some x \<Rightarrow> State_Monad.return (writeDomainError x)
               | None \<Rightarrow> do {
                   _ \<leftarrow> atomic (DeleteSession (SessionID (gl_sha256 (sv_lib sv)) token));
                   State_Monad.return (clearSessionCookie sv r no_content)
                 })
            }))"

record changePasswordRequest =
  cp_current_password :: string
  cp_new_password :: string

definition handleChangePassword :: "server \<Rightarrow> readings \<Rightarrow> (string \<Rightarrow> changePasswordRequest option) \<Rightarrow> request \<Rightarrow> signedIn \<Rightarrow> answer handler" where
  "handleChangePassword sv rd unmarshal r si =
     (case decodeAuthBody unmarshal \<lparr>cp_current_password = [], cp_new_password = []\<rparr> r of
        Inl a \<Rightarrow> State_Monad.return a
      | Inr body \<Rightarrow> do {
          m \<leftarrow> check_password sv (us_password_hash (si_user si)) (cp_current_password body);
          (case m of
             None \<Rightarrow> State_Monad.return checks_busy
           | Some ok \<Rightarrow>
               if \<not> ok then State_Monad.return (writeError 400 ''validation_failed'')
               else (case HashPassword (sv_argon sv) (rd_salt rd) (cp_new_password body) of
                       Inl x \<Rightarrow> State_Monad.return (writeAccountError x)
                     | Inr hash \<Rightarrow> do {
                         c \<leftarrow> transact (SetUserPassword (us_id (si_user si)) hash (si_sessionID si));
                         State_Monad.return (case c of Inl x \<Rightarrow> writeAccountError x | Inr _ \<Rightarrow> no_content)
                       }))
        })"

definition handleListUsers :: "answer handler" where
  "handleListUsers = do {
     us \<leftarrow> query ListUsers;
     State_Monad.return (writeJSON 200 (UsersView (map viewOf us)))
   }"

definition handleCreateUser :: "server \<Rightarrow> readings \<Rightarrow> (string \<Rightarrow> loginRequest option) \<Rightarrow> request \<Rightarrow> answer handler" where
  "handleCreateUser sv rd unmarshal r =
     (case decodeAuthBody unmarshal zero_login r of
        Inl a \<Rightarrow> State_Monad.return a
      | Inr inp \<Rightarrow>
         (case NewUser (gl_lower (sv_lib sv)) (sv_argon sv) (rd_salt rd) (rd_user_id rd) (rd_user_now rd) (lr_login inp) (lr_password inp) of
            Inl x \<Rightarrow> State_Monad.return (writeAccountError x)
          | Inr u \<Rightarrow> do {
              c \<leftarrow> transact (CreateUser u);
              State_Monad.return (case c of Inl x \<Rightarrow> writeAccountError x | Inr _ \<Rightarrow> writeJSON 201 (UserView (viewOf u)))
            }))"

text \<open>The tail that the enable and the disable handler share: read the user back and show it.\<close>

definition show_user :: "string \<Rightarrow> unit result \<Rightarrow> answer handler" where
  "show_user i c =
     (case c of
        Inl x \<Rightarrow> State_Monad.return (writeAccountError x)
      | Inr _ \<Rightarrow> do {
          u \<leftarrow> query (GetUser i);
          State_Monad.return (case u of Inl x \<Rightarrow> writeAccountError x | Inr user \<Rightarrow> writeJSON 200 (UserView (viewOf user)))
        })"

definition handleDisableUser :: "readings \<Rightarrow> request \<Rightarrow> signedIn \<Rightarrow> answer handler" where
  "handleDisableUser rd r si =
     (if rq_path_id r = us_id (si_user si) then State_Monad.return (writeError 409 ''own_account'')
      else do {
        c \<leftarrow> transact (DisableUser (rq_path_id r) (rd_user_now rd));
        show_user (rq_path_id r) c
      })"

definition handleEnableUser :: "request \<Rightarrow> answer handler" where
  "handleEnableUser r = do {
     c \<leftarrow> transact (EnableUser (rq_path_id r));
     show_user (rq_path_id r) c
   }"

definition handleResetPassword :: "server \<Rightarrow> readings \<Rightarrow> (string \<Rightarrow> string option) \<Rightarrow> request \<Rightarrow> signedIn \<Rightarrow> answer handler" where
  "handleResetPassword sv rd unmarshal r si =
     (if rq_path_id r = us_id (si_user si) then State_Monad.return (writeError 409 ''own_account'')
      else (case decodeAuthBody unmarshal [] r of
              Inl a \<Rightarrow> State_Monad.return a
            | Inr password \<Rightarrow>
               (case HashPassword (sv_argon sv) (rd_salt rd) password of
                  Inl x \<Rightarrow> State_Monad.return (writeAccountError x)
                | Inr hash \<Rightarrow> do {
                    c \<leftarrow> transact (SetUserPassword (rq_path_id r) hash []);
                    State_Monad.return (case c of Inl x \<Rightarrow> writeAccountError x | Inr _ \<Rightarrow> no_content)
                  })))"

subsection \<open>The endpoints as they are mounted\<close>

record codecs =
  cd_setup :: "string \<Rightarrow> setupRequest option"
  cd_login :: "string \<Rightarrow> loginRequest option"
  cd_logout :: "string \<Rightarrow> bool option"
  cd_change :: "string \<Rightarrow> changePasswordRequest option"
  cd_reset :: "string \<Rightarrow> string option"

datatype account_call =
  Me | Setup | Login | Logout | ChangePassword | ListUsersCall | CreateUserCall | DisableUserCall | EnableUserCall | ResetPassword

fun account_endpoint :: "server \<Rightarrow> readings \<Rightarrow> codecs \<Rightarrow> request \<Rightarrow> account_call \<Rightarrow> answer handler" where
  "account_endpoint sv rd cd r Me = handleMe sv rd r"
| "account_endpoint sv rd cd r Setup = consoleOnly sv r (loginLimit sv rd r (handleSetup sv rd (cd_setup cd) r))"
| "account_endpoint sv rd cd r Login = consoleOnly sv r (loginLimit sv rd r (handleLogin sv rd (cd_login cd) r))"
| "account_endpoint sv rd cd r Logout = consoleOnly sv r (handleLogout sv rd (cd_logout cd) r)"
| "account_endpoint sv rd cd r ChangePassword =
     consoleOnly sv r (withUser sv rd r (handleChangePassword sv rd (cd_change cd) r))"
| "account_endpoint sv rd cd r ListUsersCall = withUser sv rd r (\<lambda>_. handleListUsers)"
| "account_endpoint sv rd cd r CreateUserCall =
     consoleOnly sv r (withUser sv rd r (\<lambda>_. handleCreateUser sv rd (cd_login cd) r))"
| "account_endpoint sv rd cd r DisableUserCall = consoleOnly sv r (withUser sv rd r (handleDisableUser rd r))"
| "account_endpoint sv rd cd r EnableUserCall = consoleOnly sv r (withUser sv rd r (\<lambda>_. handleEnableUser r))"
| "account_endpoint sv rd cd r ResetPassword =
     consoleOnly sv r (withUser sv rd r (handleResetPassword sv rd (cd_reset cd) r))"

text \<open>
  \<open>sessionOrKey\<close> on the way to \<^verbatim>\<open>/v1\<close>: \<open>Inl\<close> is an answer of the middleware itself, \<open>Inr None\<close> leaves the request to
  \<open>apiKeyAuth\<close>, \<open>Inr (Some c)\<close> is the caller with full scope.
\<close>

definition sessionOrKey :: "server \<Rightarrow> readings \<Rightarrow> request \<Rightarrow> (answer + caller option) handler" where
  "sessionOrKey sv rd r =
     (if extractAPIKey r \<noteq> [] then State_Monad.return (Inr None)
      else if cookie_value r = None then State_Monad.return (Inr None)
      else do {
        a \<leftarrow> authenticateSession sv rd r;
        State_Monad.return
          (case a of
             Inl x \<Rightarrow> Inl x
           | Inr si \<Rightarrow>
               if \<not> safeMethod (rq_method r) \<and> notFromConsole sv r then Inl refuseCrossSite
               else Inr (Some \<lparr>ca_scope = ScopeFull, ca_sources = None\<rparr>))
      })"

end
