(* ===== verification/Console_Contract.thy ===== *)
theory Console_Contract
  imports Console
begin

text \<open>
  The contract between the account endpoints and the state they share. \<open>account_writes\<close> asks of an invariant that each single write of the
  tables, new sessions apart, and of the server's memory keeps it; inside it every endpoint that does not sign in is shown to
  keep it, whatever other requests do between two of its statements. \<open>console_writes\<close> adds new sessions and with them the
  other two endpoints. The contracts are interpreted with the well-formedness of the whole state, with the statement
  that a particular user stays registered, and with the statement that no session is new.
\<close>

definition session_shape :: "Session \<Rightarrow> bool" where
  "session_shape s = (ss_expires_at s = ss_created_at s + MaxLifetime \<and> ss_last_seen_at s = ss_created_at s)"

definition visits_all :: "readings \<Rightarrow> bool" where
  "visits_all rd = (\<forall>ks. set ks \<subseteq> set (rd_order rd ks))"

lemma session_row_shape: "session_shape (session_row sv rd r u i)"
  by (simp add: session_row_def session_shape_def Let_def)

locale account_writes =
  fixes I :: "console \<Rightarrow> bool"
  assumes touch_keeps: "I c \<Longrightarrow> I (snd (touch_session i t c))"
    and user_keeps: "I c \<Longrightarrow> CreateUser u c = Inr (x, c') \<Longrightarrow> I c'"
    and first_keeps: "I c \<Longrightarrow> CreateFirstUser u c = Inr (x, c') \<Longrightarrow> I c'"
    and password_keeps: "I c \<Longrightarrow> SetUserPassword i h keep c = Inr (x, c') \<Longrightarrow> I c'"
    and disable_keeps: "I c \<Longrightarrow> DisableUser i t c = Inr (x, c') \<Longrightarrow> I c'"
    and enable_keeps: "I c \<Longrightarrow> EnableUser i c = Inr (x, c') \<Longrightarrow> I c'"
    and delete_keeps: "I c \<Longrightarrow> I (delete_sessions P c)"
    and fail_keeps: "I c \<Longrightarrow> visits_all rd \<Longrightarrow> I (snd (throttle_fail rd k c))"
    and succeed_keeps: "I c \<Longrightarrow> I (snd (throttle_succeed k c))"
    and limiter_keeps: "I c \<Longrightarrow> I (snd (login_allow sv rd r c))"
    and acquire_keeps: "I c \<Longrightarrow> I (snd (acquirePasswordCheck c))"
    and release_keeps: "I c \<Longrightarrow> I (snd (releasePasswordCheck c))"
begin

lemma writes_keep:
  "keeps I (transact (CreateUser u))" "keeps I (transact (CreateFirstUser u))" "keeps I (transact (SetUserPassword i h keep))"
  "keeps I (transact (DisableUser i t))" "keeps I (transact (EnableUser i))"
  by (rule keeps_transact, erule (1) user_keeps first_keeps password_keeps disable_keeps enable_keeps)+

lemma atoms_keep:
  "keeps I (atomic (touch_session i t))" "keeps I (atomic (DeleteSession i))" "keeps I (atomic (DeleteUserSessions i))"
  "keeps I (atomic (throttle_succeed k))" "keeps I (atomic (login_allow sv rd r))" "keeps I (atomic acquirePasswordCheck)"
  "keeps I (atomic releasePasswordCheck)"
  by (rule keeps_atomic, simp add: DeleteSession_def DeleteUserSessions_def touch_keeps delete_keeps succeed_keeps limiter_keeps acquire_keeps release_keeps)+

lemma fail_keep: "visits_all rd \<Longrightarrow> keeps I (atomic (throttle_fail rd k))"
  by (rule keeps_atomic) (rule fail_keeps)

lemmas keep_rules = keeps_bind keeps_return keeps_query writes_keep atoms_keep

lemma session_lookup_keeps: "keeps I (session_lookup sv rd token)"
  unfolding session_lookup_def SessionUser_def
  by (auto intro!: keep_rules split: sum.split)

lemma authenticate_keeps: "keeps I (authenticateSession sv rd r)"
  unfolding authenticateSession_def by (auto intro!: keeps_bind session_lookup_keeps keeps_return split: option.split)

lemma check_password_keeps: "keeps I (check_password sv h p)"
  unfolding check_password_def by (auto intro!: keep_rules)

lemma consoleOnly_keeps: "keeps I h \<Longrightarrow> keeps I (consoleOnly sv r h)"
  by (simp add: consoleOnly_def keeps_return)

lemma loginLimit_keeps: "keeps I h \<Longrightarrow> keeps I (loginLimit sv rd r h)"
  unfolding loginLimit_def by (auto intro!: keep_rules)

lemma withUser_keeps: "(\<And>si. keeps I (h si)) \<Longrightarrow> keeps I (withUser sv rd r h)"
  unfolding withUser_def by (auto intro!: keeps_bind authenticate_keeps keeps_return split: sum.split)

lemma show_user_keeps: "keeps I (show_user i c)"
  unfolding show_user_def by (auto intro!: keeps_bind keeps_query keeps_return split: sum.split)

lemma handleMe_keeps: "keeps I (handleMe sv rd r)"
  unfolding handleMe_def Let_def
  by (auto intro!: keeps_bind session_lookup_keeps keeps_query keeps_return split: option.split sum.split)

lemma handleLogout_keeps: "keeps I (handleLogout sv rd um r)"
  unfolding handleLogout_def
  by (auto intro!: keep_rules session_lookup_keeps split: sum.split option.split)

lemma handleChangePassword_keeps: "keeps I (handleChangePassword sv rd um r si)"
  unfolding handleChangePassword_def
  by (auto intro!: keep_rules check_password_keeps split: sum.split option.split)

lemma handleResetPassword_keeps: "keeps I (handleResetPassword sv rd um r si)"
  unfolding handleResetPassword_def
  by (auto intro!: keep_rules split: sum.split)

lemma handleCreateUser_keeps: "keeps I (handleCreateUser sv rd um r)"
  unfolding handleCreateUser_def by (auto intro!: keep_rules split: sum.split)

lemma handleDisableUser_keeps: "keeps I (handleDisableUser rd r si)"
  unfolding handleDisableUser_def by (auto intro!: keep_rules show_user_keeps)

lemma handleEnableUser_keeps: "keeps I (handleEnableUser r)"
  unfolding handleEnableUser_def by (auto intro!: keep_rules show_user_keeps)

lemma handleListUsers_keeps: "keeps I handleListUsers"
  unfolding handleListUsers_def by (auto intro!: keeps_bind keeps_query keeps_return)

lemmas handlers_keep = handleMe_keeps handleLogout_keeps handleChangePassword_keeps handleResetPassword_keeps
  handleCreateUser_keeps handleDisableUser_keeps handleEnableUser_keeps handleListUsers_keeps

lemma endpoint_keeps: "call \<noteq> Login \<Longrightarrow> call \<noteq> Setup \<Longrightarrow> keeps I (account_endpoint sv rd cd r call)"
  by (cases call) (auto intro!: handlers_keep consoleOnly_keeps loginLimit_keeps withUser_keeps)

lemma sessionOrKey_keeps: "keeps I (sessionOrKey sv rd r)"
  unfolding sessionOrKey_def by (auto intro!: keeps_bind authenticate_keeps keeps_return)

end

text \<open>The two endpoints that sign in write sessions as well.\<close>

locale console_writes = account_writes +
  assumes session_keeps: "I c \<Longrightarrow> session_shape s \<Longrightarrow> CreateSession s c = Inr (x, c') \<Longrightarrow> I c'"
begin

lemma session_keep: "session_shape s \<Longrightarrow> keeps I (transact (CreateSession s))"
  by (rule keeps_transact) (rule session_keeps)

lemma startSession_keeps: "keeps I (startSession sv rd r u)"
  unfolding startSession_def
  by (auto intro!: keep_rules session_keep session_row_shape split: sum.split)

lemma handleSetup_keeps: "keeps I (handleSetup sv rd um r)"
  unfolding handleSetup_def
  by (auto intro!: keep_rules startSession_keeps split: sum.split)

lemma handleLogin_keeps: "visits_all rd \<Longrightarrow> keeps I (handleLogin sv rd um r)"
  unfolding handleLogin_def Let_def
  by (auto intro!: keep_rules startSession_keeps check_password_keeps fail_keep
      split: sum.split option.split)

lemma every_endpoint_keeps: "visits_all rd \<Longrightarrow> keeps I (account_endpoint sv rd cd r call)"
proof (cases "call = Login \<or> call = Setup")
  case False
  then show ?thesis by (intro endpoint_keeps) auto
next
  case True
  assume "visits_all rd"
  with True show ?thesis by (auto intro!: handleSetup_keeps handleLogin_keeps consoleOnly_keeps loginLimit_keeps)
qed

end

subsection \<open>What the writes change\<close>

lemma update_user_sessions: "update_user i f a = Inr a' \<Longrightarrow> ac_sessions a' = ac_sessions a"
  by (auto dest: update_user_InrD)

lemma CreateSession_sessions: "CreateSession s a = Inr (x, a') \<Longrightarrow> ac_sessions a' = ac_sessions a @ [s]"
  by (auto simp: CreateSession_def insert_session_def split: sum.splits if_splits dest!: update_user_sessions)

lemma user_writes_sessions:
  "CreateUser u a = Inr (x, a') \<Longrightarrow> ac_sessions a' = ac_sessions a"
  "CreateFirstUser u a = Inr (x, a') \<Longrightarrow> ac_sessions a' = ac_sessions a"
  "EnableUser i a = Inr (x, a') \<Longrightarrow> ac_sessions a' = ac_sessions a"
  by (auto simp: CreateUser_def CreateFirstUser_def EnableUser_def insert_user_def split: sum.splits if_splits dest!: update_user_sessions)

lemma revoking_writes_sessions:
  "SetUserPassword i h k a = Inr (x, a') \<Longrightarrow> ac_sessions a' = filter (\<lambda>s. \<not> (ss_user_id s = i \<and> ss_id s \<noteq> k)) (ac_sessions a)"
  "DisableUser i t a = Inr (x, a') \<Longrightarrow> ac_sessions a' = filter (\<lambda>s. ss_user_id s \<noteq> i) (ac_sessions a)"
  by (auto simp: SetUserPassword_def DisableUser_def delete_sessions_def delete_where_def split: sum.splits dest!: update_user_sessions)

lemma update_user_memory:
  "update_user i f (c :: console) = Inr c' \<Longrightarrow> co_throttle c' = co_throttle c \<and> co_loginLimiter c' = co_loginLimiter c \<and> co_checks c' = co_checks c"
  by (auto dest!: update_user_InrD)

text \<open>No write of the tables touches the server's memory.\<close>

definition same_memory :: "console \<Rightarrow> console \<Rightarrow> bool" where
  "same_memory c c' = (co_throttle c' = co_throttle c \<and> co_loginLimiter c' = co_loginLimiter c \<and> co_checks c' = co_checks c)"

lemma writes_memory:
  "CreateSession s c = Inr (x, c') \<Longrightarrow> same_memory c c'" "CreateUser u c = Inr (x, c') \<Longrightarrow> same_memory c c'"
  "CreateFirstUser u c = Inr (x, c') \<Longrightarrow> same_memory c c'" "SetUserPassword i h k c = Inr (x, c') \<Longrightarrow> same_memory c c'"
  "DisableUser i t c = Inr (x, c') \<Longrightarrow> same_memory c c'" "EnableUser i c = Inr (x, c') \<Longrightarrow> same_memory c c'"
  by (auto simp: same_memory_def CreateSession_def insert_session_def CreateUser_def CreateFirstUser_def insert_user_def SetUserPassword_def
      DisableUser_def EnableUser_def delete_sessions_def split: sum.splits if_splits dest!: update_user_memory)

subsection \<open>The state provides the contract\<close>

text \<open>Well-formedness: the tables, the bounded memory, and the age limit every session carries.\<close>

definition console_ok :: "console \<Rightarrow> bool" where
  "console_ok c =
     (accounts_ok c \<and> throttle_ok (co_throttle c) \<and> limiter_ok (co_loginLimiter c) \<and> co_checks c \<le> maxPasswordChecks \<and>
      (\<forall>s \<in> set (ac_sessions c). ss_expires_at s = ss_created_at s + MaxLifetime))"

lemma console_ok_tables:
  assumes "console_ok c" "same_memory c c'" "accounts_ok c'"
    "\<And>s. s \<in> set (ac_sessions c') \<Longrightarrow> s \<in> set (ac_sessions c) \<or> session_shape s"
  shows "console_ok c'"
  using assms by (fastforce simp: console_ok_def same_memory_def session_shape_def)

lemma console_ok_new: "console_ok (NewServer_console now)"
  by (simp add: console_ok_def NewServer_console_def accounts_ok_def NewThrottle_def throttle_ok_def newKeyedLimiter_def limiter_ok_def)

interpretation sound: console_writes console_ok
proof unfold_locales
  fix c c' :: console and s x
  assume c: "console_ok c"
  then have a: "accounts_ok c" by (simp add: console_ok_def)
  note t = console_ok_tables [OF c]
  show "console_ok c'" if "CreateSession s c = Inr (x, c')" "session_shape s"
    by (rule t [OF writes_memory(1) [OF that(1)] accounts_writes_ok(6) [OF a that(1)]]) (use that in \<open>auto simp: CreateSession_sessions\<close>)
  show "console_ok c'" if "CreateUser u c = Inr (x, c')" for u
    by (rule t [OF writes_memory(2) [OF that] accounts_writes_ok(1) [OF a that]]) (use that in \<open>auto simp: user_writes_sessions\<close>)
  show "console_ok c'" if "CreateFirstUser u c = Inr (x, c')" for u
    by (rule t [OF writes_memory(3) [OF that] accounts_writes_ok(2) [OF a that]]) (use that in \<open>auto simp: user_writes_sessions\<close>)
  show "console_ok c'" if "SetUserPassword i h k c = Inr (x, c')" for i h k
    by (rule t [OF writes_memory(4) [OF that] accounts_writes_ok(3) [OF a that]]) (use that in \<open>auto simp: revoking_writes_sessions\<close>)
  show "console_ok c'" if "DisableUser i d c = Inr (x, c')" for i d
    by (rule t [OF writes_memory(5) [OF that] accounts_writes_ok(4) [OF a that]]) (use that in \<open>auto simp: revoking_writes_sessions\<close>)
  show "console_ok c'" if "EnableUser i c = Inr (x, c')" for i
    by (rule t [OF writes_memory(6) [OF that] accounts_writes_ok(5) [OF a that]]) (use that in \<open>auto simp: user_writes_sessions\<close>)
next
  fix c i t assume c: "console_ok c"
  then have "accounts_ok (snd (touch_session i t c))" using touch_session_ok by (auto simp: console_ok_def)
  with c show "console_ok (snd (touch_session i t c))" by (auto simp: console_ok_def touch_session_def set_update_where)
next
  fix c P assume c: "console_ok c"
  then have "accounts_ok (delete_sessions P c)" using accounts_ok_delete by (auto simp: console_ok_def)
  with c show "console_ok (delete_sessions P c)" by (auto simp: console_ok_def delete_sessions_def)
next
  fix c rd k assume "console_ok c" "visits_all rd"
  then have "throttle_ok (Fail (rd_order rd (map fst (co_throttle c))) (rd_fail_now rd) k (co_throttle c))"
    using throttle_fail_ok by (metis console_ok_def list.set_map visits_all_def)
  with \<open>console_ok c\<close> show "console_ok (snd (throttle_fail rd k c))" by (simp add: console_ok_def throttle_fail_def accounts_ok_def)
next
  fix c k assume "console_ok c"
  then show "console_ok (snd (throttle_succeed k c))"
    using throttle_succeed_ok by (auto simp: console_ok_def throttle_succeed_def accounts_ok_def)
next
  fix c sv rd r assume "console_ok c"
  then show "console_ok (snd (login_allow sv rd r c))"
    using limiter_entries(1) by (auto simp: console_ok_def login_allow_def accounts_ok_def split: prod.splits)
next
  fix c assume "console_ok c"
  then show "console_ok (snd (acquirePasswordCheck c))" "console_ok (snd (releasePasswordCheck c))"
    by (auto simp: console_ok_def acquirePasswordCheck_def releasePasswordCheck_def accounts_ok_def)
qed

text \<open>Somebody stays registered: the user with a given identifier keeps it, and the login.\<close>

definition registered :: "string \<Rightarrow> string \<Rightarrow> console \<Rightarrow> bool" where
  "registered i l c = (\<exists>u \<in> set (ac_users c). us_id u = i \<and> us_login u = l)"

lemma registered_update:
  assumes "registered i l c" "same_user f" "update_user j f c = Inr c'"
  shows "registered i l c'"
proof -
  obtain u where u: "u \<in> set (ac_users c)" "us_id u = i" "us_login u = l" using assms(1) by (auto simp: registered_def)
  have "(if us_id u = j then f u else u) \<in> set (ac_users c')"
    using update_user_InrD [OF assms(3)] u(1) by (auto simp: set_update_where)
  with u assms(2) show ?thesis by (auto simp: registered_def same_user_def split: if_splits)
qed

interpretation staying: console_writes "registered i l" for i l
proof unfold_locales
  fix c c' :: console and x
  assume r: "registered i l c"
  note up = registered_update [OF r]
  show "registered i l c'" if "CreateUser u c = Inr (x, c')" for u
    using that r by (auto simp: CreateUser_def insert_user_def registered_def split: sum.splits if_splits)
  show "registered i l c'" if "CreateFirstUser u c = Inr (x, c')" for u
    using that r by (auto simp: CreateFirstUser_def insert_user_def registered_def split: sum.splits if_splits)
  show "registered i l c'" if "CreateSession s c = Inr (x, c')" for s
  proof -
    from that obtain c1 where c1: "insert_session s c = Inr c1" "update_user (ss_user_id s) (\<lambda>u. u\<lparr>us_last_login_at := Some (ss_created_at s)\<rparr>) c1 = Inr c'"
      by (auto simp: CreateSession_def split: sum.splits)
    have "registered i l c1" using c1(1) r by (auto simp: insert_session_def registered_def split: if_splits)
    then show ?thesis by (rule registered_update [OF _ same_user_simps(3) c1(2)])
  qed
  show "registered i l c'" if "SetUserPassword j h k c = Inr (x, c')" for j h k
    using that up [OF same_user_simps(1)] by (auto simp: SetUserPassword_def delete_sessions_def registered_def split: sum.splits)
  show "registered i l c'" if "DisableUser j t c = Inr (x, c')" for j t
    using that up [OF same_user_simps(4)] by (auto simp: DisableUser_def delete_sessions_def registered_def split: sum.splits)
  show "registered i l c'" if "EnableUser j c = Inr (x, c')" for j
    using that up [OF same_user_simps(2)] by (auto simp: EnableUser_def)
qed (auto simp: registered_def touch_session_def delete_sessions_def throttle_fail_def throttle_succeed_def login_allow_def
    acquirePasswordCheck_def releasePasswordCheck_def split: prod.splits)

text \<open>No session is new: the identifiers stored are among \<open>X\<close>.\<close>

definition only_sessions :: "string set \<Rightarrow> console \<Rightarrow> bool" where
  "only_sessions X c = (ss_id ` set (ac_sessions c) \<subseteq> X)"

lemma only_sessions_delete: "only_sessions X c \<Longrightarrow> set (ac_sessions c') \<subseteq> set (ac_sessions c) \<Longrightarrow> only_sessions X c'"
  by (auto simp: only_sessions_def)

interpretation known: account_writes "only_sessions X" for X
proof unfold_locales
  fix c c' :: console and x
  assume o: "only_sessions X c"
  note d = only_sessions_delete [OF o]
  show "only_sessions X c'" if "CreateUser u c = Inr (x, c')" for u by (rule d) (simp add: user_writes_sessions(1) [OF that])
  show "only_sessions X c'" if "CreateFirstUser u c = Inr (x, c')" for u by (rule d) (simp add: user_writes_sessions(2) [OF that])
  show "only_sessions X c'" if "EnableUser i c = Inr (x, c')" for i by (rule d) (simp add: user_writes_sessions(3) [OF that])
  show "only_sessions X c'" if "SetUserPassword i h k c = Inr (x, c')" for i h k
    by (rule d) (auto simp: revoking_writes_sessions(1) [OF that])
  show "only_sessions X c'" if "DisableUser i t c = Inr (x, c')" for i t by (rule d) (auto simp: revoking_writes_sessions(2) [OF that])
qed (auto simp: only_sessions_def touch_session_def set_update_where delete_sessions_def throttle_fail_def throttle_succeed_def login_allow_def
    acquirePasswordCheck_def releasePasswordCheck_def split: prod.splits)

end
