(* ===== verification/Console_Properties.thy ===== *)
theory Console_Properties
  imports Console_Contract
begin

text \<open>
  What the account endpoints promise. The statements about interference rest on the contracts of \<open>Console_Contract\<close>; the others
  describe a request that runs alone, branch by branch.
\<close>

subsection \<open>Programs that run alone\<close>

lemma run_alone_SessionUser:
  "run_alone (SessionUser i now idle) a =
     (case session_user i now idle a of
        Inl x \<Rightarrow> (Inl x, a)
      | Inr (ls, u) \<Rightarrow> (Inr u, if now - ls \<ge> touchEvery then snd (touch_session i now a) else a))"
  unfolding SessionUser_def by (auto simp: run_alone_bind split: sum.split)

lemma solo_SessionUser [simp]: "solo (SessionUser i now idle)"
  unfolding SessionUser_def by (auto intro!: solo_bind split: sum.split)

lemma solo_session_lookup [simp]: "solo (session_lookup sv rd t)"
  by (simp add: session_lookup_def)

lemma solo_authenticate [simp]: "solo (authenticateSession sv rd r)"
  unfolding authenticateSession_def by (auto intro!: solo_bind split: option.split)

lemma run_alone_check_password:
  "run_alone (check_password sv h p) c =
     (if co_checks c < maxPasswordChecks then (Some (CheckPassword (sv_argon sv) h p), c) else (None, c))"
  unfolding check_password_def by (simp add: run_alone_bind acquirePasswordCheck_def releasePasswordCheck_def)

lemma solo_check_password [simp]: "solo (check_password sv h p)"
  unfolding check_password_def by (auto intro!: solo_bind)

lemma run_alone_startSession:
  "run_alone (startSession sv rd r u) c =
     (case NewSessionToken (gl_sha256 (sv_lib sv)) (rd_token rd) of
        Inl x \<Rightarrow> (Inl x, c)
      | Inr (token, i) \<Rightarrow>
         (case CreateSession (session_row sv rd r u i) c of
            Inl x \<Rightarrow> (Inl x, c)
          | Inr (_, c') \<Rightarrow> (Inr (token, u\<lparr>us_last_login_at := Some (rd_session_now rd)\<rparr>), c')))"
  unfolding startSession_def by (auto simp: run_alone_bind commit_def split: sum.split)

lemma solo_startSession [simp]: "solo (startSession sv rd r u)"
  unfolding startSession_def by (auto intro!: solo_bind split: sum.split)

lemmas alone_rules = run_alone_bind run_alone_check_password run_alone_startSession run_alone_SessionUser

text \<open>A program that keeps an invariant whatever others do keeps it alone.\<close>

lemma keeps_alone: "keeps I m \<Longrightarrow> I c \<Longrightarrow> run_alone m c = (a, c') \<Longrightarrow> I c'"
  by (auto simp: run_alone_def split: prod.splits dest: keepsD [OF _ _ rely_Nil])

subsection \<open>Interference\<close>

text \<open>
  C18: the console's state stays well-formed whatever requests run at the same time. Logins, user and session identifiers stay unique, every
  session belongs to a user and expires thirty days after the sign-in, the throttle and the password checks stay within
  their bounds.
\<close>

theorem account_endpoints_sound:
  assumes "console_ok c" "rely console_ok es" "visits_all rd"
    and "run_state (account_endpoint sv rd cd r call) (c, es) = (a, c', es')"
  shows "console_ok c'"
  by (rule keepsD [OF sound.every_endpoint_keeps [OF assms(3)] assms(1,2,4)])

subsection \<open>Requests of other sites\<close>

text \<open>
  The name under which the browser reached the console, and the page an \<^verbatim>\<open>Origin\<close> names. The page is the console's own if its host
  is the one that was reached, up to the case of letters, and its port too where the name that was reached has one; an origin without a port has that
  of its scheme.
\<close>

definition console_at :: "server \<Rightarrow> request \<Rightarrow> string" where
  "console_at sv r =
     (if rq_header r ''X-Forwarded-Host'' \<noteq> [] \<and> trusts (sv_trustedProxies sv) (gl_ParseIP (sv_lib sv) (hostOnly (rq_remote r)))
      then TrimSpace (takeWhile (\<lambda>c. c \<noteq> CHR '','') (rq_header r ''X-Forwarded-Host''))
      else rq_host r)"

definition has_port :: "golib \<Rightarrow> url \<Rightarrow> string \<Rightarrow> bool" where
  "has_port gl u port =
     (if ur_Port u \<noteq> [] then port = ur_Port u
      else (ToLower (gl_lower gl) (ur_Scheme u), port) \<in> {(''https'', ''443''), (''http'', ''80'')})"

definition own_page :: "golib \<Rightarrow> url \<Rightarrow> string \<Rightarrow> bool" where
  "own_page gl u reached =
     (\<exists>h. gl_EqualFold gl (ur_Hostname u) h \<and>
        (SplitHostPort reached = None \<and> h = trim_brackets reached \<or>
         (\<exists>port. SplitHostPort reached = Some (h, port) \<and> (port = [] \<or> has_port gl u port))))"

text \<open>A request that a page of another site can make a browser send: without the header of the console, or with an origin that is not the console's.\<close>

definition cross_site :: "server \<Rightarrow> request \<Rightarrow> bool" where
  "cross_site sv r =
     (rq_header r ''X-AlertLoop-Console'' \<noteq> ''1'' \<or>
      rq_header r ''Origin'' \<noteq> [] \<and>
      \<not> (\<exists>u. gl_ParseURL (sv_lib sv) (rq_header r ''Origin'') = Some u \<and> ur_Host u \<noteq> [] \<and> own_page (sv_lib sv) u (console_at sv r)))"

lemma hd_SplitN2: "hd (SplitN2 c s) = takeWhile (\<lambda>x. x \<noteq> c) s"
  by (induction s) (auto simp: SplitN2_def split: option.splits)

lemma reachedHost_at: "reachedHost sv r = console_at sv r"
  by (simp add: reachedHost_def console_at_def peer_trusted_def hd_SplitN2 Let_def)

lemma sameHost_page: "sameHost gl u host \<longleftrightarrow> own_page gl u host"
  by (auto simp: sameHost_def own_page_def has_port_def Let_def split: option.split)

lemma notFromConsole_cross: "notFromConsole sv r \<longleftrightarrow> cross_site sv r"
  by (auto simp: notFromConsole_def cross_site_def consoleHeader_def sameHost_page reachedHost_at Let_def split: option.split)

text \<open>\<^verbatim>\<open>GET /v1/auth/me\<close> and the list of users: they change nothing but the time a session was last seen.\<close>

lemma reading_calls_keep:
  assumes "\<And>c i t. I c \<Longrightarrow> I (snd (touch_session i t c))" "call = Me \<or> call = ListUsersCall"
  shows "keeps I (account_endpoint sv rd cd r call)"
proof -
  have "keeps I (atomic (touch_session i t))" for i t unfolding keeps_def by (rule ensures_atomic) (simp add: assms(1))
  then have look: "keeps I (session_lookup sv rd token)" for token
    unfolding session_lookup_def SessionUser_def by (auto intro!: keeps_bind keeps_return keeps_query split: sum.split)
  have "keeps I (authenticateSession sv rd r)"
    unfolding authenticateSession_def by (auto intro!: keeps_bind look keeps_return split: option.split)
  then have "keeps I (withUser sv rd r (\<lambda>_. handleListUsers))"
    unfolding withUser_def handleListUsers_def by (auto intro!: keeps_bind keeps_return keeps_query split: sum.split)
  moreover have "keeps I (handleMe sv rd r)"
    unfolding handleMe_def Let_def by (auto intro!: keeps_bind look keeps_query keeps_return split: option.split sum.split)
  ultimately show ?thesis using assms(2) by auto
qed

text \<open>
  C21: no request that another site makes a browser send has an effect. A request that does not carry the console's header, or
  whose \<^verbatim>\<open>Origin\<close> is not a page of the host the console was reached at, is answered 403 before anything is read or written, on every
  account endpoint but the two that only read: who is signed in, and the list of users. Those write nothing but the time the session was last seen: every
  invariant that this write keeps, they keep. A request that authenticates to \<^verbatim>\<open>/v1\<close> with the cookie only is not let through
  either unless its method is safe.
\<close>

theorem cross_site_refused:
  assumes "cross_site sv r"
  shows "(call \<noteq> Me \<longrightarrow> call \<noteq> ListUsersCall \<longrightarrow>
            run_state (account_endpoint sv rd cd r call) (c, es) = (refuseCrossSite, c, es) \<and> rs_status refuseCrossSite = 403) \<and>
         (call = Me \<or> call = ListUsersCall \<longrightarrow>
            (\<forall>I. (\<forall>c i t. I c \<longrightarrow> I (snd (touch_session i t c))) \<longrightarrow> keeps I (account_endpoint sv rd cd r call))) \<and>
         (extractAPIKey r = [] \<longrightarrow> \<not> safeMethod (rq_method r) \<longrightarrow> fst (run_state (sessionOrKey sv rd r) (c, es)) \<noteq> Inr (Some x))"
proof -
  have refused: "notFromConsole sv r" using assms by (simp add: notFromConsole_cross)
  have "fst (run_state (State_Monad.bind m (\<lambda>a. State_Monad.return (f a))) w) = f (fst (run_state m w))" for m :: "(console, 'a) prog" and f :: "'a \<Rightarrow> 'b" and w
    by (simp add: State_Monad.bind_def State_Monad.return_def split: prod.split)
  then have "extractAPIKey r = [] \<Longrightarrow> \<not> safeMethod (rq_method r) \<Longrightarrow> fst (run_state (sessionOrKey sv rd r) (c, es)) \<noteq> Inr (Some x)"
    using refused by (auto simp: sessionOrKey_def State_Monad.return_def State_Monad.bind_def split: sum.splits prod.splits)
  moreover have "run_state (account_endpoint sv rd cd r call) (c, es) = (refuseCrossSite, c, es)" if "call \<noteq> Me" "call \<noteq> ListUsersCall"
    using that refused by (cases call) (simp_all add: consoleOnly_def State_Monad.return_def)
  moreover have "rs_status refuseCrossSite = 403" by (simp add: refuseCrossSite_def writeError_def respond_def)
  ultimately show ?thesis using reading_calls_keep by blast
qed

subsection \<open>Signing in\<close>

lemma find_user_login: "UserByLogin l a = Inr u \<Longrightarrow> u \<in> set (ac_users a) \<and> us_login u = l"
  by (auto simp: UserByLogin_def one_user_def split: option.splits dest!: find_SomeD)

lemma CheckPassword_hash: "CheckPassword ag h p \<Longrightarrow> h \<noteq> []"
  by (auto simp: CheckPassword_def split: if_splits)

lemma login_hash_user:
  assumes "CheckPassword ag (login_hash u) p"
  shows "\<exists>x. u = Inr x \<and> us_disabled_at x = None \<and> CheckPassword ag (us_password_hash x) p"
  using assms CheckPassword_hash [OF assms] by (auto simp: login_hash_def split: sum.splits if_splits)

text \<open>What a sign-in that runs alone does, once the request is decoded.\<close>

definition login_name :: "server \<Rightarrow> loginRequest \<Rightarrow> string" where
  "login_name sv inp = ToLower (gl_lower (sv_lib sv)) (TrimSpace (lr_login inp))"

definition login_key :: "server \<Rightarrow> request \<Rightarrow> loginRequest \<Rightarrow> throttleKey" where
  "login_key sv r inp = (login_name sv inp, client_key sv r)"

definition login_matches :: "server \<Rightarrow> loginRequest \<Rightarrow> console \<Rightarrow> bool" where
  "login_matches sv inp c =
     (\<exists>u \<in> set (ac_users c). us_login u = login_name sv inp \<and> us_disabled_at u = None \<and>
        CheckPassword (sv_argon sv) (us_password_hash u) (lr_password inp))"

lemma UserByLogin_Inl: "UserByLogin l a = Inl x \<Longrightarrow> x = ErrNotFound"
  by (simp add: UserByLogin_def one_user_def split: option.splits)

lemma login_matches_iff:
  assumes "accounts_ok c"
  shows "login_matches sv inp c = CheckPassword (sv_argon sv) (login_hash (UserByLogin (login_name sv inp) c)) (lr_password inp)"
proof
  assume "login_matches sv inp c"
  then obtain u where u: "u \<in> set (ac_users c)" "us_login u = login_name sv inp" "us_disabled_at u = None"
    "CheckPassword (sv_argon sv) (us_password_hash u) (lr_password inp)" by (auto simp: login_matches_def)
  have "find (\<lambda>x. us_login x = us_login u) (ac_users c) = Some u"
    by (rule find_by_key) (use assms u(1) in \<open>auto simp: accounts_ok_def\<close>)
  with u show "CheckPassword (sv_argon sv) (login_hash (UserByLogin (login_name sv inp) c)) (lr_password inp)"
    by (simp add: UserByLogin_def one_user_def login_hash_def)
next
  assume "CheckPassword (sv_argon sv) (login_hash (UserByLogin (login_name sv inp) c)) (lr_password inp)"
  from login_hash_user [OF this] find_user_login show "login_matches sv inp c" by (fastforce simp: login_matches_def)
qed

lemma login_alone:
  assumes "signInAllowed sv r" "decodeAuthBody um zero_login r = Inr inp"
  shows "run_alone (handleLogin sv rd um r) c =
    (let k = login_key sv r inp; u = UserByLogin (login_name sv inp) c in
     if throttle_wait rd k c > 0 then (wait_answer (throttle_wait rd k c), c)
     else if \<not> co_checks c < maxPasswordChecks then (checks_busy, c)
     else if \<not> CheckPassword (sv_argon sv) (login_hash u) (lr_password inp) then (writeError 401 ''unauthorized'', snd (throttle_fail rd k c))
     else (let (s, c') = run_alone (startSession sv rd r (projr u)) (snd (throttle_succeed k c)) in (started sv r 200 s, c')))"
  using assms UserByLogin_Inl [of "login_name sv inp" c]
  by (auto simp: handleLogin_def alone_rules login_key_def login_name_def Let_def split: sum.splits)

text \<open>
  A refused sign-in tells nothing about the account. When no user that may sign in has this login and password, the answer is the same 401 and
  the state changes in the same way, one failure recorded for the pair of login and address, whether the login is unknown,
  the user is disabled or the password is wrong.
\<close>

theorem sign_in_refusals_alike:
  assumes "console_ok c" "signInAllowed sv r" "decodeAuthBody um zero_login r = Inr inp"
    and "\<not> login_matches sv inp c" "throttle_wait rd (login_key sv r inp) c = 0" "co_checks c < maxPasswordChecks"
  shows "run_alone (handleLogin sv rd um r) c = (writeError 401 ''unauthorized'', snd (throttle_fail rd (login_key sv r inp) c))"
  using assms login_matches_iff [of c sv inp] login_alone [OF assms(2,3), of rd c] by (simp add: console_ok_def Let_def)

text \<open>The sessions after a program of the endpoints that sign in.\<close>

lemma startSession_sessions:
  "run_alone (startSession sv rd r u) c = (s, c') \<Longrightarrow> x \<in> set (ac_sessions c') \<Longrightarrow> x \<in> set (ac_sessions c) \<or> ss_user_id x = us_id u"
  by (auto simp: run_alone_startSession CreateSession_sessions session_row_def Let_def split: sum.splits)

lemma login_sessions:
  assumes "accounts_ok c" "run_alone (handleLogin sv rd um r) c = (a, c')" "s \<in> set (ac_sessions c')" "s \<notin> set (ac_sessions c)"
  shows "signInAllowed sv r \<and> (\<exists>inp u. decodeAuthBody um zero_login r = Inr inp \<and> u \<in> set (ac_users c) \<and> us_login u = login_name sv inp \<and>
     us_disabled_at u = None \<and> CheckPassword (sv_argon sv) (us_password_hash u) (lr_password inp) \<and> ss_user_id s = us_id u)"
proof -
  have al: "signInAllowed sv r" using assms(2-4) by (auto simp: handleLogin_def split: if_splits)
  have "\<exists>inp. decodeAuthBody um zero_login r = Inr inp" using assms(2-4) al by (auto simp: handleLogin_def split: sum.splits)
  then obtain inp where inp: "decodeAuthBody um zero_login r = Inr inp" by blast
  let ?u = "UserByLogin (login_name sv inp) c" and ?k = "login_key sv r inp"
  note run = login_alone [OF al inp, of rd c, unfolded assms(2), symmetric]
  have ok: "CheckPassword (sv_argon sv) (login_hash ?u) (lr_password inp)"
    using run assms(3,4) by (auto simp: Let_def throttle_fail_def split: if_splits)
  from login_hash_user [OF ok] obtain u where u: "?u = Inr u" "us_disabled_at u = None" "CheckPassword (sv_argon sv) (us_password_hash u) (lr_password inp)"
    by blast
  obtain res c1 where st: "run_alone (startSession sv rd r u) (snd (throttle_succeed ?k c)) = (res, c1)" by force
  then have "c' = c1" using run ok u(1) assms(3,4) by (auto simp: Let_def split: if_splits)
  with startSession_sessions [OF st] assms(3,4) have "ss_user_id s = us_id u" by (auto simp: throttle_succeed_def)
  with al inp u find_user_login [OF u(1)] show ?thesis by blast
qed

lemma setup_sessions:
  assumes "run_alone (handleSetup sv rd um r) c = (a, c')" "s \<in> set (ac_sessions c')" "s \<notin> set (ac_sessions c)"
  shows "signInAllowed sv r \<and> ac_users c = [] \<and> sv_adminToken sv \<noteq> [] \<and>
    (\<exists>inp. decodeAuthBody um \<lparr>sr_admin_token = [], sr_login = [], sr_password = []\<rparr> r = Inr inp \<and> sr_admin_token inp = sv_adminToken sv)"
  using assms
  by (auto simp: handleSetup_def alone_rules commit_def CreateFirstUser_def split: if_splits sum.splits)

text \<open>
  C17: nobody gets a session without credentials. A request that runs alone and leaves a session that was not there before is a
  sign-in from the console over a protected connection: either with the login and the password of a user that is not disabled,
  and the session is that user's, or with the admin token while no user exists.
\<close>

theorem new_session_needs_credentials:
  assumes "console_ok c" "run_alone (account_endpoint sv rd cd r call) c = (a, c')"
    and "s \<in> set (ac_sessions c')" "ss_id s \<notin> ss_id ` set (ac_sessions c)"
  shows "\<not> notFromConsole sv r \<and> signInAllowed sv r \<and>
         (call = Login \<and> (\<exists>inp u. decodeAuthBody (cd_login cd) zero_login r = Inr inp \<and> u \<in> set (ac_users c) \<and> us_login u = login_name sv inp \<and>
            us_disabled_at u = None \<and> CheckPassword (sv_argon sv) (us_password_hash u) (lr_password inp) \<and> ss_user_id s = us_id u) \<or>
          call = Setup \<and> ac_users c = [] \<and> sv_adminToken sv \<noteq> [] \<and>
            (\<exists>inp. decodeAuthBody (cd_setup cd) \<lparr>sr_admin_token = [], sr_login = [], sr_password = []\<rparr> r = Inr inp \<and> sr_admin_token inp = sv_adminToken sv))"
proof -
  have new: "s \<notin> set (ac_sessions c)" using assms(4) by auto
  consider "call = Login" | "call = Setup"
  proof (rule ccontr)
    assume "\<not> thesis"
    with that have n: "call \<noteq> Login" "call \<noteq> Setup" by blast+
    have "only_sessions (ss_id ` set (ac_sessions c)) c'"
      by (rule keeps_alone [OF known.endpoint_keeps [OF n] _ assms(2)]) (simp add: only_sessions_def)
    with assms(3,4) show False by (auto simp: only_sessions_def)
  qed
  then show ?thesis
  proof cases
    case 1
    then have fc: "\<not> notFromConsole sv r" using assms(2,3) new by (auto simp: consoleOnly_def split: if_splits)
    then obtain c1 where c1: "run_alone (handleLogin sv rd (cd_login cd) r) c1 = (a, c')" "ac_users c1 = ac_users c" "ac_sessions c1 = ac_sessions c"
      using assms(2,3) new 1
      by (auto simp: consoleOnly_def loginLimit_def run_alone_bind login_allow_def split: prod.splits if_splits)
    have "accounts_ok c1" using assms(1) c1(2,3) by (simp add: console_ok_def accounts_ok_def)
    from login_sessions [OF this c1(1) assms(3)] new c1(2,3) show ?thesis using fc 1 by simp
  next
    case 2
    then have fc: "\<not> notFromConsole sv r" using assms(2,3) new by (auto simp: consoleOnly_def split: if_splits)
    then obtain c1 where c1: "run_alone (handleSetup sv rd (cd_setup cd) r) c1 = (a, c')" "ac_users c1 = ac_users c" "ac_sessions c1 = ac_sessions c"
      using assms(2,3) new 2
      by (auto simp: consoleOnly_def loginLimit_def run_alone_bind login_allow_def split: prod.splits if_splits)
    from setup_sessions [OF c1(1) assms(3)] new c1(2,3) show ?thesis using fc 2 by simp
  qed
qed

subsection \<open>Sessions\<close>

text \<open>
  A session admits its user and nobody else, while it is young enough. With an unexpired, recently used session of a user that is not
  disabled, and only then, a request is admitted: less than thirty days after the sign-in and less than seven days after the
  last use, as the user the session was made for.
\<close>

theorem session_admission:
  assumes "console_ok c"
  shows "session_user i now (now - IdleTimeout) c = Inr (ls, u) \<longleftrightarrow>
         (\<exists>s \<in> set (ac_sessions c). ss_id s = i \<and> ss_user_id s = us_id u \<and> ls = ss_last_seen_at s \<and> now - ls < IdleTimeout \<and>
            now < ss_created_at s + MaxLifetime) \<and> u \<in> set (ac_users c) \<and> us_disabled_at u = None"
proof -
  have ok: "accounts_ok c" and exp: "\<And>s. s \<in> set (ac_sessions c) \<Longrightarrow> ss_expires_at s = ss_created_at s + MaxLifetime"
    using assms by (auto simp: console_ok_def)
  have live: "live_session now (now - IdleTimeout) s \<longleftrightarrow> now < ss_created_at s + MaxLifetime \<and> now - ss_last_seen_at s < IdleTimeout"
    if "s \<in> set (ac_sessions c)" for s
    using exp [OF that] by (auto simp: live_session_def)
  show ?thesis
  proof
    assume "session_user i now (now - IdleTimeout) c = Inr (ls, u)"
    then obtain s where s: "find (\<lambda>s. ss_id s = i \<and> live_session now (now - IdleTimeout) s) (ac_sessions c) = Some s"
      "find (\<lambda>u. us_id u = ss_user_id s \<and> us_disabled_at u = None) (ac_users c) = Some u" "ls = ss_last_seen_at s"
      by (auto simp: session_user_def split: option.splits)
    with find_SomeD [OF s(1)] find_SomeD [OF s(2)] live
    show "(\<exists>s \<in> set (ac_sessions c). ss_id s = i \<and> ss_user_id s = us_id u \<and> ls = ss_last_seen_at s \<and> now - ls < IdleTimeout \<and>
        now < ss_created_at s + MaxLifetime) \<and> u \<in> set (ac_users c) \<and> us_disabled_at u = None" by auto
  next
    assume "(\<exists>s \<in> set (ac_sessions c). ss_id s = i \<and> ss_user_id s = us_id u \<and> ls = ss_last_seen_at s \<and> now - ls < IdleTimeout \<and>
        now < ss_created_at s + MaxLifetime) \<and> u \<in> set (ac_users c) \<and> us_disabled_at u = None"
    then obtain s where s: "s \<in> set (ac_sessions c)" "ss_id s = i" "ss_user_id s = us_id u" "ls = ss_last_seen_at s" "now - ls < IdleTimeout"
      "now < ss_created_at s + MaxLifetime" and u: "u \<in> set (ac_users c)" "us_disabled_at u = None" by blast
    have "find (\<lambda>s. ss_id s = i \<and> live_session now (now - IdleTimeout) s) (ac_sessions c) = Some s"
      using s live [OF s(1)] distinct_key_eq [of ss_id "ac_sessions c"] ok by (intro find_unique) (auto simp: accounts_ok_def)
    moreover have "find (\<lambda>x. us_id x = ss_user_id s \<and> us_disabled_at x = None) (ac_users c) = Some u"
      using s(3) u distinct_key_eq [of us_id "ac_users c"] ok by (intro find_unique) (auto simp: accounts_ok_def)
    ultimately show "session_user i now (now - IdleTimeout) c = Inr (ls, u)" by (simp add: session_user_def s(4))
  qed
qed

lemma session_user_InrD:
  "session_user i now idle c = Inr (ls, u) \<Longrightarrow> \<exists>s \<in> set (ac_sessions c). ss_id s = i \<and> ss_user_id s = us_id u"
  by (auto simp: session_user_def split: option.splits dest!: find_SomeD)

text \<open>No error answer has the status of a success.\<close>

lemma status_no_content [simp]: "rs_status no_content = 204"
  by (simp add: no_content_def respond_def)

lemma status_checks_busy [simp]: "rs_status checks_busy = 429"
  by (simp add: checks_busy_def)

lemma account_error_status: "rs_status (writeAccountError x) \<in> {400, 403, 404, 409, 500}"
  by (simp add: writeAccountError_def writeDomainError_def split: err.split)

lemma decode_error_status: "decodeAuthBody um z r = Inl b \<Longrightarrow> rs_status b \<in> {400, 413}"
  by (auto simp: decodeAuthBody_def readBody_def split: option.splits if_splits sum.splits)

lemma account_error_not [simp]: "rs_status (writeAccountError x) \<noteq> 200" "rs_status (writeAccountError x) \<noteq> 201" "rs_status (writeAccountError x) \<noteq> 204"
  using account_error_status [of x] by auto

text \<open>The state a step finds: another request may have written first.\<close>

definition found_by :: "('s \<Rightarrow> 's) list \<Rightarrow> 's \<Rightarrow> 's" where
  "found_by es c = (case es of [] \<Rightarrow> c | e # _ \<Rightarrow> e c)"

lemma found_by_rely: "rely I es \<Longrightarrow> I c \<Longrightarrow> I (found_by es c) \<and> rely I (tl es)"
  by (auto simp: found_by_def rely_def split: list.split)

lemma run_step: "run_state (atomic f) (c, es) = (fst (f (found_by es c)), snd (f (found_by es c)), tl es)"
  by (simp add: atomic_def found_by_def case_prod_unfold Let_def split: list.split)

lemma run_bind: "run_state (State_Monad.bind m k) w = (case run_state m w of (x, w') \<Rightarrow> run_state (k x) w')"
  by (simp add: State_Monad.bind_def)

lemma run_return: "run_state (State_Monad.return x) w = (x, w)"
  by (simp add: State_Monad.return_def)

lemmas run_rules = run_bind run_return run_step transact_def query_def commit_def

text \<open>Nobody with this identifier can be admitted: the user is disabled, whatever sessions there are.\<close>

definition shut_out :: "string \<Rightarrow> console \<Rightarrow> bool" where
  "shut_out i c = (\<forall>u \<in> set (ac_users c). us_id u = i \<longrightarrow> us_disabled_at u \<noteq> None)"

definition sessions_named :: "console \<Rightarrow> bool" where
  "sessions_named c = (\<forall>s \<in> set (ac_sessions c). ss_id s \<noteq> [])"

lemma shut_out_admits: "shut_out i c \<Longrightarrow> session_user k now idle c = Inr (ls, u) \<Longrightarrow> us_id u \<noteq> i"
  by (auto simp: shut_out_def session_user_def split: option.splits dest!: find_SomeD)

lemma DisableUser_shuts_out: "DisableUser i t c = Inr (x, c') \<Longrightarrow> shut_out i c'"
  by (auto simp: DisableUser_def delete_sessions_def shut_out_def set_update_where disable_row_def split: sum.splits option.splits dest!: update_user_InrD)

lemma disable_run:
  assumes "run_state (handleDisableUser rd r si) (c, es) = (a, c', es')" "rs_status a = 200"
  shows "\<exists>x c1. DisableUser (rq_path_id r) (rd_user_now rd) (found_by es c) = Inr (x, c1) \<and> c' = found_by (tl es) c1"
  using assms by (auto simp: handleDisableUser_def show_user_def run_rules split: if_splits sum.splits)

lemma change_run:
  assumes "run_state (handleChangePassword sv rd um r si) (c, es) = (a, c', es')" "rs_status a = 204"
  shows "\<exists>h x c1. SetUserPassword (us_id (si_user si)) h (si_sessionID si) c1 = Inr (x, c')"
proof (cases "decodeAuthBody um \<lparr>cp_current_password = [], cp_new_password = []\<rparr> r")
  case (Inl b)
  then show ?thesis using assms decode_error_status [OF Inl] by (auto simp: handleChangePassword_def run_return)
next
  case (Inr body)
  obtain m c1 es1 where "run_state (check_password sv (us_password_hash (si_user si)) (cp_current_password body)) (c, es) = (m, c1, es1)"
    by (metis prod_cases3)
  then show ?thesis
    using assms Inr by (auto simp: handleChangePassword_def run_rules split: option.splits if_splits sum.splits) blast
qed

lemma reset_run:
  assumes "run_state (handleResetPassword sv rd um r si) (c, es) = (a, c', es')" "rs_status a = 204"
  shows "\<exists>h x. SetUserPassword (rq_path_id r) h [] (found_by es c) = Inr (x, c')"
proof (cases "decodeAuthBody um [] r")
  case (Inl b)
  then show ?thesis using assms decode_error_status [OF Inl] by (auto simp: handleResetPassword_def run_return split: if_splits)
next
  case (Inr body)
  then show ?thesis using assms by (auto simp: handleResetPassword_def run_rules split: if_splits sum.splits)
qed

text \<open>
  C19: revocation takes effect at once, whatever other requests do during the request that revokes. When disabling a user has been answered, the user is disabled and no
  session admits them, those of sign-ins in flight included, unless another request enabled the user again. When changing a password has been answered, only the session that
  changed it admits the user; when a reset has been answered none does, given that no session has an empty identifier. The last two hold at the time of the
  answer: a sign-in that had checked the old password before the write can still add its session after it.
\<close>

theorem revocation_takes_effect:
  "(run_state (handleDisableUser rd r si) (c, es) = (a, c', es') \<longrightarrow> rs_status a = 200 \<longrightarrow> rely (shut_out (rq_path_id r)) es \<longrightarrow>
      shut_out (rq_path_id r) c' \<and> (\<forall>i now idle ls u. session_user i now idle c' = Inr (ls, u) \<longrightarrow> us_id u \<noteq> rq_path_id r)) \<and>
   (run_state (handleChangePassword sv rd um r si) (c, es) = (a, c', es') \<longrightarrow> rs_status a = 204 \<longrightarrow>
      (\<forall>i now idle ls u. session_user i now idle c' = Inr (ls, u) \<longrightarrow> us_id u = us_id (si_user si) \<longrightarrow> i = si_sessionID si)) \<and>
   (run_state (handleResetPassword sv rd um' r si) (c, es) = (a, c', es') \<longrightarrow> rs_status a = 204 \<longrightarrow> sessions_named c \<longrightarrow> rely sessions_named es \<longrightarrow>
      (\<forall>i now idle ls u. session_user i now idle c' = Inr (ls, u) \<longrightarrow> us_id u \<noteq> rq_path_id r))"
proof (intro conjI impI)
  assume "run_state (handleDisableUser rd r si) (c, es) = (a, c', es')" "rs_status a = 200" and others: "rely (shut_out (rq_path_id r)) es"
  then obtain x c1 where w: "DisableUser (rq_path_id r) (rd_user_now rd) (found_by es c) = Inr (x, c1)" "c' = found_by (tl es) c1"
    using disable_run by blast
  have "rely (shut_out (rq_path_id r)) (tl es)" using others by (cases es) (auto simp: rely_def)
  from found_by_rely [OF this DisableUser_shuts_out [OF w(1)]] show "shut_out (rq_path_id r) c'" by (simp add: w(2))
  then show "\<forall>i now idle ls u. session_user i now idle c' = Inr (ls, u) \<longrightarrow> us_id u \<noteq> rq_path_id r" using shut_out_admits by blast
next
  assume "run_state (handleChangePassword sv rd um r si) (c, es) = (a, c', es')" "rs_status a = 204"
  then obtain h x c1 where "SetUserPassword (us_id (si_user si)) h (si_sessionID si) c1 = Inr (x, c')" using change_run by blast
  from revoking_writes_sessions(1) [OF this]
  have left: "s \<in> set (ac_sessions c') \<Longrightarrow> ss_user_id s = us_id (si_user si) \<Longrightarrow> ss_id s = si_sessionID si" for s by simp
  show "\<forall>i now idle ls u. session_user i now idle c' = Inr (ls, u) \<longrightarrow> us_id u = us_id (si_user si) \<longrightarrow> i = si_sessionID si"
    by (intro allI impI, drule session_user_InrD) (auto dest: left)
next
  assume "run_state (handleResetPassword sv rd um' r si) (c, es) = (a, c', es')" "rs_status a = 204" "sessions_named c" "rely sessions_named es"
  then obtain h x where w: "SetUserPassword (rq_path_id r) h [] (found_by es c) = Inr (x, c')" "sessions_named (found_by es c)"
    using reset_run found_by_rely [of sessions_named es c] by blast
  from w(2) revoking_writes_sessions(1) [OF w(1)]
  have left: "s \<in> set (ac_sessions c') \<Longrightarrow> ss_user_id s \<noteq> rq_path_id r" for s by (auto simp: sessions_named_def)
  show "\<forall>i now idle ls u. session_user i now idle c' = Inr (ls, u) \<longrightarrow> us_id u \<noteq> rq_path_id r"
    by (intro allI impI, drule session_user_InrD) (auto dest: left)
qed

subsection \<open>The first administrator\<close>

lemma setup_refused: "ensures (registered i l) (handleSetup sv rd um r) (\<lambda>a. rs_status a \<noteq> 201)"
proof -
  have "ensures (registered i l) (transact (CreateFirstUser u)) (\<lambda>x. x = Inl ErrUsersExist)" for u
    by (rule ensures_transact) (auto simp: CreateFirstUser_def registered_def split: if_splits)
  moreover have "decodeAuthBody um z r = Inl b \<Longrightarrow> rs_status b \<noteq> 201" for z b
    using decode_error_status [of um z r b] by auto
  ultimately show ?thesis
    unfolding handleSetup_def
    by (auto intro!: ensures_return ensures_bind simp: https_required_def split: sum.split)
qed

text \<open>
  C20: the first administrator is created once. When a user exists, no setup request succeeds any more, whatever other requests
  do meanwhile: an existing user is never removed.
\<close>

theorem first_admin_once:
  assumes "registered i l c" "rely (registered i l) es"
    and "run_state (account_endpoint sv rd cd r Setup) (c, es) = (a, c', es')"
  shows "rs_status a \<noteq> 201 \<and> registered i l c'"
proof -
  have lim: "ensures (registered i l) (atomic (login_allow sv rd r)) (\<lambda>_. True)"
    using staying.atoms_keep(5) by (simp add: keeps_def)
  have "ensures (registered i l) (account_endpoint sv rd cd r Setup) (\<lambda>a. rs_status a \<noteq> 201)"
    by (auto simp: consoleOnly_def loginLimit_def refuseCrossSite_def tooManyRequests_def
        intro!: ensures_return ensures_bind [OF lim] setup_refused)
  with assms show ?thesis by (fastforce simp: ensures_def)
qed

end
