(* ===== verification/Console_Examples.thy ===== *)
theory Console_Examples
  imports Console_Properties
begin

text \<open>
  A small console at work, on which the properties of \<open>Console_Properties\<close> are applied: an empty server, the administrator
  \<^verbatim>\<open>root\<close> created and signed in, and requests that come from the console on the local network.
\<close>

definition demo_server :: server where
  "demo_server = \<lparr>sv_lib = demo_lib, sv_argon = demo_argon, sv_adminToken = ''secret-token'', sv_trustedProxies = []\<rparr>"

definition demo_readings :: readings where
  "demo_readings =
     \<lparr>rd_limit_now = 1000, rd_limit_created = 1000, rd_auth_now = 1000, rd_wait_now = 1000, rd_fail_now = 1000, rd_session_now = 1000,
      rd_user_now = 1000, rd_salt = Some ''0123456789abcdef'', rd_token = Some (replicate 32 (CHR ''t'')), rd_user_id = ''u1'',
      rd_order = id\<rparr>"

definition demo_codecs :: codecs where
  "demo_codecs =
     \<lparr>cd_setup = (\<lambda>b. Some \<lparr>sr_admin_token = ''secret-token'', sr_login = ''root'', sr_password = b\<rparr>),
      cd_login = (\<lambda>b. Some \<lparr>lr_login = ''root'', lr_password = b\<rparr>), cd_logout = (\<lambda>_. Some True),
      cd_change = (\<lambda>b. Some \<lparr>cp_current_password = ''correct horse'', cp_new_password = b\<rparr>), cd_reset = Some\<rparr>"

definition demo_call :: "string \<Rightarrow> string \<Rightarrow> request" where
  "demo_call i body =
     demo_request\<lparr>rq_method := ''POST'', rq_remote := ''10.0.0.1:5000'', rq_header := (\<lambda>h. if h = consoleHeader then ''1'' else []),
       rq_path_id := i, rq_body := Some body\<rparr>"

definition demo_root :: User where
  "demo_root =
     \<lparr>us_id = ''u1'', us_login = ''root'', us_password_hash = projr (HashPassword demo_argon (Some ''0123456789abcdef'') ''correct horse''),
      us_created_at = 1000, us_disabled_at = None, us_last_login_at = None\<rparr>"

definition demo_console :: console where
  "demo_console = (NewServer_console 0)\<lparr>ac_users := [demo_root]\<rparr>"

lemma demo_console_ok: "console_ok demo_console"
  using console_ok_new [of 0] by (simp add: demo_console_def console_ok_def accounts_ok_def NewServer_console_def)

lemma demo_visits: "visits_all demo_readings"
  by (simp add: visits_all_def demo_readings_def)

lemma demo_password:
  "CheckPassword demo_argon (us_password_hash demo_root) ''correct horse''" "\<not> CheckPassword demo_argon (us_password_hash demo_root) ''wrong horse 1''"
  using HashPassword_accepts [OF demo_argon_good] demo_hash_made demo_keys_differ by (auto simp: demo_root_def)

lemma demo_limit: "fst (login_allow demo_server demo_readings r demo_console)"
  by (simp add: login_allow_def limiter_allow_def entry_for_def demo_console_def NewServer_console_def newKeyedLimiter_def newTokenBucket_def
      demo_readings_def loginBurst_def loginPerSecond_def bucket_allow_def refill_def Seconds_def Let_def)

lemma demo_allowed: "signInAllowed demo_server (demo_call i b)" "\<not> notFromConsole demo_server (demo_call i b)"
  by code_simp+

lemma demo_decode:
  "b \<noteq> [] \<Longrightarrow> length b \<le> 8192 \<Longrightarrow> decodeAuthBody um z (demo_call i b) = (case um b of None \<Rightarrow> Inl (writeError 400 ''bad_request'') | Some v \<Rightarrow> Inr v)"
  by (simp add: decodeAuthBody_def readBody_def demo_call_def maxAuthBody_def)

lemma demo_name: "login_name demo_server \<lparr>lr_login = ''root'', lr_password = p\<rparr> = ''root''"
  by code_simp

lemma demo_token: "\<exists>x. NewSessionToken (gl_sha256 (sv_lib demo_server)) (rd_token demo_readings) = Inr x"
  by (simp add: NewSessionToken_def demo_readings_def Let_def)

text \<open>Another request that disables \<^verbatim>\<open>root\<close> at some point of the run.\<close>

definition disable_root :: "console \<Rightarrow> console" where
  "disable_root c = snd (commit (DisableUser ''u1'' 5) c)"

lemma disable_root_ok: "console_ok c \<Longrightarrow> console_ok (disable_root c)"
  by (auto simp: disable_root_def commit_def split: sum.split intro: sound.disable_keeps)

lemma disable_root_registered: "registered i l c \<Longrightarrow> registered i l (disable_root c)"
  by (auto simp: disable_root_def commit_def split: sum.split intro: staying.disable_keeps)

theorem account_endpoints_sound_witness:
  "console_ok (fst (snd (run_state (account_endpoint demo_server demo_readings demo_codecs (demo_call [] ''correct horse'') Login)
     (demo_console, [disable_root]))))"
proof -
  let ?m = "account_endpoint demo_server demo_readings demo_codecs (demo_call [] ''correct horse'') Login"
  obtain a c' es' where "run_state ?m (demo_console, [disable_root]) = (a, c', es')" by (metis prod_cases3)
  moreover have "rely console_ok [disable_root]" by (auto simp: rely_def disable_root_ok)
  ultimately show ?thesis using account_endpoints_sound [OF demo_console_ok _ demo_visits] by (metis fst_conv snd_conv)
qed

text \<open>A request with the header of the console from a page of another port of its host.\<close>

definition demo_page :: url where
  "demo_page =
     \<lparr>ur_Scheme = ''http'', ur_Host = ''alerts:8081'', ur_Hostname = ''alerts'', ur_Port = ''8081'', ur_Path = [], ur_EscapedPath = [], ur_RawQuery = [],
      ur_ForceQuery = False, ur_Fragment = [], ur_password = None\<rparr>"

definition paged_server :: server where
  "paged_server = demo_server\<lparr>sv_lib := demo_lib\<lparr>gl_ParseURL := (\<lambda>_. Some demo_page)\<rparr>\<rparr>"

definition paged_request :: request where
  "paged_request =
     (demo_call [] [])\<lparr>rq_host := ''alerts:8080'', rq_header := (rq_header (demo_call [] []))(''Origin'' := ''http://alerts:8081'')\<rparr>"

theorem cross_site_refused_witness:
  "rq_header paged_request ''X-AlertLoop-Console'' = ''1'' \<and>
   run_state (account_endpoint paged_server demo_readings demo_codecs paged_request Login) (demo_console, []) = (refuseCrossSite, demo_console, [])"
proof -
  have h: "rq_header paged_request ''X-AlertLoop-Console'' = ''1''" "rq_header paged_request ''Origin'' \<noteq> []" "console_at paged_server paged_request = ''alerts:8080''"
    "SplitHostPort ''alerts:8080'' = Some (''alerts'', ''8080'')" by code_simp+
  have "\<not> own_page (sv_lib paged_server) demo_page ''alerts:8080''" by (simp add: own_page_def h(4) has_port_def demo_page_def)
  moreover have "gl_ParseURL (sv_lib paged_server) o1 = Some demo_page" for o1 by (simp add: paged_server_def)
  ultimately have "cross_site paged_server paged_request" using h(2,3) by (simp add: cross_site_def)
  with cross_site_refused [OF this, of Login demo_readings demo_codecs demo_console "[]"] h(1) show ?thesis by blast
qed

lemma demo_user: "UserByLogin ''root'' demo_console = Inr demo_root"
  by (simp add: UserByLogin_def one_user_def demo_console_def demo_root_def)

theorem sign_in_refusals_alike_witness:
  "rs_status (fst (run_alone (handleLogin demo_server demo_readings (cd_login demo_codecs) (demo_call [] ''wrong horse 1'')) demo_console)) = 401"
proof -
  let ?inp = "\<lparr>lr_login = ''root'', lr_password = ''wrong horse 1''\<rparr>" and ?r = "demo_call [] ''wrong horse 1''"
  have d: "decodeAuthBody (cd_login demo_codecs) zero_login ?r = Inr ?inp" by (simp add: demo_decode demo_codecs_def)
  have "\<not> login_matches demo_server ?inp demo_console"
    using demo_password(2) by (simp add: login_matches_def demo_console_def NewServer_console_def demo_server_def)
  moreover have "throttle_wait demo_readings (login_key demo_server ?r ?inp) demo_console = 0" "co_checks demo_console < maxPasswordChecks"
    by (simp_all add: throttle_wait_def Wait_def demo_console_def NewServer_console_def NewThrottle_def maxPasswordChecks_def)
  ultimately show ?thesis using sign_in_refusals_alike [OF demo_console_ok demo_allowed(1) d, of demo_readings] by simp
qed

text \<open>A sign-in that succeeds.\<close>

lemma demo_sign_in:
  "\<exists>a c' s. run_alone (account_endpoint demo_server demo_readings demo_codecs (demo_call [] ''correct horse'') Login) demo_console = (a, c') \<and>
     s \<in> set (ac_sessions c') \<and> ac_sessions demo_console = []"
proof -
  let ?inp = "\<lparr>lr_login = ''root'', lr_password = ''correct horse''\<rparr>" and ?r = "demo_call [] ''correct horse''"
  let ?c = "snd (login_allow demo_server demo_readings ?r demo_console)"
  have d: "decodeAuthBody (cd_login demo_codecs) zero_login ?r = Inr ?inp" by (simp add: demo_decode demo_codecs_def)
  have c: "ac_users ?c = [demo_root]" "ac_sessions ?c = []" "co_throttle ?c = []" "co_checks ?c = 0"
    by (simp_all add: login_allow_def demo_console_def NewServer_console_def NewThrottle_def split: prod.split)
  have u: "UserByLogin ''root'' ?c = Inr demo_root" by (simp add: UserByLogin_def one_user_def c demo_root_def)
  obtain t i where t: "NewSessionToken (gl_sha256 (sv_lib demo_server)) (rd_token demo_readings) = Inr (t, i)" using demo_token by auto
  let ?c1 = "snd (throttle_succeed (login_key demo_server ?r ?inp) ?c)"
  have "\<exists>c'. CreateSession (session_row demo_server demo_readings ?r demo_root i) ?c1 = Inr ((), c')"
    by (simp add: CreateSession_def insert_session_def update_user_def throttle_succeed_def c session_row_def demo_root_def Let_def)
  then obtain c' where c': "CreateSession (session_row demo_server demo_readings ?r demo_root i) ?c1 = Inr ((), c')" by blast
  have "snd (run_alone (handleLogin demo_server demo_readings (cd_login demo_codecs) ?r) ?c) = c'"
    using demo_password(1) by (simp add: login_alone [OF demo_allowed(1) d] demo_name u login_hash_def throttle_wait_def Wait_def c
        maxPasswordChecks_def demo_server_def [symmetric] run_alone_startSession t c' Let_def) (simp add: demo_server_def demo_root_def)
  then have "snd (run_alone (account_endpoint demo_server demo_readings demo_codecs ?r Login) demo_console) = c'"
    by (simp add: consoleOnly_def demo_allowed(2) loginLimit_def run_alone_bind demo_limit)
  moreover have "ac_sessions c' \<noteq> []" using CreateSession_sessions [OF c'] by simp
  moreover have "ac_sessions demo_console = []" by (simp add: demo_console_def NewServer_console_def)
  ultimately show ?thesis by (metis hd_in_set prod.collapse)
qed

theorem new_session_needs_credentials_witness:
  "\<exists>a c' s. run_alone (account_endpoint demo_server demo_readings demo_codecs (demo_call [] ''correct horse'') Login) demo_console = (a, c') \<and>
     s \<in> set (ac_sessions c') \<and> ss_user_id s = ''u1''"
proof -
  obtain a c' s where run: "run_alone (account_endpoint demo_server demo_readings demo_codecs (demo_call [] ''correct horse'') Login) demo_console = (a, c')"
    "s \<in> set (ac_sessions c')" "ss_id s \<notin> ss_id ` set (ac_sessions demo_console)" using demo_sign_in by fastforce
  have "\<exists>u \<in> set (ac_users demo_console). ss_user_id s = us_id u"
    using new_session_needs_credentials [OF demo_console_ok run] by blast
  then show ?thesis using run(1,2) by (auto simp: demo_console_def demo_root_def)
qed

text \<open>Two users, of whom \<^verbatim>\<open>root\<close> is signed in.\<close>

definition demo_session :: Session where
  "demo_session =
     \<lparr>ss_id = ''s1'', ss_user_id = ''u1'', ss_created_at = 1000, ss_last_seen_at = 1000, ss_expires_at = 1000 + MaxLifetime, ss_ip = ''10.0.0.1'',
      ss_user_agent = []\<rparr>"

definition demo_signed_in :: console where
  "demo_signed_in =
     demo_console\<lparr>ac_users := [demo_root, demo_root\<lparr>us_id := ''u2'', us_login := ''guest''\<rparr>], ac_sessions := [demo_session]\<rparr>"

lemma demo_signed_in_ok: "console_ok demo_signed_in"
  using demo_console_ok
  by (simp add: demo_signed_in_def console_ok_def accounts_ok_def demo_session_def demo_root_def)

theorem session_admission_witness:
  "session_user ''s1'' 2000 (2000 - IdleTimeout) demo_signed_in = Inr (1000, demo_root)"
  by (subst session_admission [OF demo_signed_in_ok])
     (simp add: demo_signed_in_def demo_session_def demo_root_def IdleTimeout_def MaxLifetime_def)

text \<open>The user is disabled while a sign-in of theirs, already past its checks, adds its session.\<close>

definition late_sign_in :: "console \<Rightarrow> console" where
  "late_sign_in c = c\<lparr>ac_sessions := demo_session\<lparr>ss_id := ''s9'', ss_user_id := ''u2''\<rparr> # ac_sessions c\<rparr>"

theorem revocation_takes_effect_witness:
  "\<exists>a c' es'. run_state (handleDisableUser demo_readings (demo_call ''u2'' []) \<lparr>si_user = demo_root, si_sessionID = ''s1''\<rparr>) (demo_signed_in, [id, late_sign_in]) = (a, c', es') \<and>
     rs_status a = 200 \<and> (\<exists>s \<in> set (ac_sessions c'). ss_user_id s = ''u2'') \<and> (\<forall>now idle ls u. session_user ''s9'' now idle c' = Inr (ls, u) \<longrightarrow> us_id u \<noteq> ''u2'')"
proof -
  let ?m = "handleDisableUser demo_readings (demo_call ''u2'' []) \<lparr>si_user = demo_root, si_sessionID = ''s1''\<rparr>"
  obtain a c' es' where run: "run_state ?m (demo_signed_in, [id, late_sign_in]) = (a, c', es')" by (metis prod_cases3)
  then have a: "rs_status a = 200" and s: "\<exists>s \<in> set (ac_sessions c'). ss_user_id s = ''u2''"
    by (auto simp: handleDisableUser_def demo_call_def run_rules found_by_def late_sign_in_def show_user_def DisableUser_def update_user_def demo_signed_in_def
        demo_console_def demo_root_def delete_sessions_def GetUser_def one_user_def demo_session_def
        writeJSON_def respond_def delete_where_def update_where_def disable_row_def)
  have "rely (shut_out ''u2'') [id, late_sign_in]" by (auto simp: rely_def shut_out_def late_sign_in_def)
  with a s run revocation_takes_effect [of demo_readings "demo_call ''u2'' []" "\<lparr>si_user = demo_root, si_sessionID = ''s1''\<rparr>" demo_signed_in "[id, late_sign_in]" a c' es']
  show ?thesis by (auto simp: demo_call_def)
qed

theorem first_admin_once_witness:
  "rs_status (fst (run_state (account_endpoint demo_server demo_readings demo_codecs (demo_call [] ''correct horse'') Setup)
     (demo_console, [disable_root]))) \<noteq> 201"
proof -
  let ?m = "account_endpoint demo_server demo_readings demo_codecs (demo_call [] ''correct horse'') Setup"
  obtain a c' es' where "run_state ?m (demo_console, [disable_root]) = (a, c', es')" by (metis prod_cases3)
  moreover have "registered ''u1'' ''root'' demo_console" by (simp add: registered_def demo_console_def demo_root_def)
  moreover have "rely (registered ''u1'' ''root'') [disable_root]" by (auto simp: rely_def disable_root_registered)
  ultimately show ?thesis using first_admin_once by (metis fst_conv)
qed

end
