(* ===== verification/Store_Lists.thy ===== *)
theory Store_Lists
  imports Store_Deliveries Store_Events Go_Time
begin

text \<open>
  The lists of \<^verbatim>\<open>internal/storage/sql_store.go\<close>: \<open>ListEvents\<close> and \<open>ListDeliveryAttempts\<close> with their filters, the search in the message, and
  the pages a client walks by cursor. Rows are compared by the texts of their timestamps, as the database does.
  The function \<open>lower\<close> that the query applies to both sides of \<^verbatim>\<open>LIKE\<close> is an argument: \<open>ToLower\<close> on SQLite, where the program
  registers it.

  The locale \<open>keyset\<close> is what the two lists share: rows with a creation time and an identifier that survive reading. Its
  lemmas show that walking the pages yields every matching row once, the newest first. The search is shown to be a
  substring test that ignores case, whatever the searched text contains.
\<close>

record EventFilter =
  ef_type :: EventType
  ef_severity :: Severity
  ef_state :: EventState
  ef_source :: string
  ef_search :: string

record DeliveryFilter =
  df_state :: DeliveryState
  df_channel :: ChannelType
  df_channel_name :: string
  df_event_id :: string
  df_kind :: DeliveryKind

record 'a Page =
  pg_items :: "'a list"
  pg_next :: string

definition clampLimit :: "int \<Rightarrow> nat" where
  "clampLimit limit = nat (if limit \<le> 0 then 50 else if limit > 200 then 200 else limit)"

subsection \<open>Cursors\<close>

definition encodeCursor :: "string \<Rightarrow> string \<Rightarrow> string" where
  "encodeCursor createdAt i = EncodeToString RawURLEncoding (createdAt @ CHR 0x00 # i)"

definition decodeCursor :: "string \<Rightarrow> (string \<times> string) result" where
  "decodeCursor cursor =
     (case DecodeString RawURLEncoding cursor of
        None \<Rightarrow> Inl (ErrValidation ''invalid cursor'')
      | Some raw \<Rightarrow>
         (let parts = SplitN2 (CHR 0x00) raw in
          if length parts \<noteq> 2 then Inl (ErrValidation ''invalid cursor'') else Inr (parts ! 0, parts ! 1)))"

subsection \<open>Search\<close>

definition like_special :: "char \<Rightarrow> bool" where
  "like_special c = (c = CHR 0x5C \<or> c = CHR ''%'' \<or> c = CHR ''_'')"

definition likeEscaper :: "string \<Rightarrow> string" where
  "likeEscaper s = concat (map (\<lambda>c. if like_special c then [CHR 0x5C, c] else [c]) s)"

text \<open>\<^verbatim>\<open>LIKE\<close> with the escape character \<^verbatim>\<open>\\<close>.\<close>

function like :: "string \<Rightarrow> string \<Rightarrow> bool" where
  "like [] t = (t = [])"
| "like (c # p) t =
     (if c = CHR ''%'' then like p t \<or> (case t of [] \<Rightarrow> False | x # u \<Rightarrow> like (c # p) u)
      else (case t of
              [] \<Rightarrow> False
            | x # u \<Rightarrow>
                if c = CHR ''_'' then like p (drop (rune_width t) t)
                else if c = CHR 0x5C then (case p of [] \<Rightarrow> False | d # q \<Rightarrow> x = d \<and> like q u)
                else x = c \<and> like p u))"
  by pat_completeness auto
termination
  by (relation "measure (\<lambda>(p, t). length p + length t)") auto

definition search_cond :: "(string \<Rightarrow> string) \<Rightarrow> string \<Rightarrow> string \<Rightarrow> bool" where
  "search_cond lower q message = like (lower (''%'' @ likeEscaper q @ ''%'')) (lower message)"

subsection \<open>The queries\<close>

definition after_cursor :: "(string \<times> string) option \<Rightarrow> time \<Rightarrow> string \<Rightarrow> bool" where
  "after_cursor cur created i =
     (case cur of
        None \<Rightarrow> True
      | Some (ct, cid) \<Rightarrow> formatTime created < ct \<or> formatTime created = ct \<and> i < cid)"

definition event_cond :: "(string \<Rightarrow> string) \<Rightarrow> EventFilter \<Rightarrow> Event \<Rightarrow> bool" where
  "event_cond lower f e =
     ((ef_type f \<noteq> EventTypeOther [] \<longrightarrow> ev_type e = ef_type f) \<and>
      (ef_severity f \<noteq> SeverityOther [] \<longrightarrow> ev_severity e = ef_severity f) \<and>
      (ef_state f \<noteq> EventStateOther [] \<longrightarrow> ev_state e = ef_state f) \<and>
      (ef_source f \<noteq> [] \<longrightarrow> ev_source e = ef_source f) \<and>
      (ef_search f \<noteq> [] \<longrightarrow> search_cond lower (ef_search f) (ev_message e)))"

definition delivery_cond :: "DeliveryFilter \<Rightarrow> delivery_row \<Rightarrow> bool" where
  "delivery_cond f r =
     ((df_state f \<noteq> DeliveryStateOther [] \<longrightarrow> dr_state r = df_state f) \<and>
      (df_channel f \<noteq> ChannelTypeOther [] \<longrightarrow> dr_channel r = df_channel f) \<and>
      (df_channel_name f \<noteq> [] \<longrightarrow> dr_channel_name r = df_channel_name f) \<and>
      (df_event_id f \<noteq> [] \<longrightarrow> dr_event_id r = df_event_id f) \<and>
      (df_kind f \<noteq> KindOther [] \<longrightarrow> dr_kind r = df_kind f))"

text \<open>\<^verbatim>\<open>ORDER BY created_at DESC, id DESC LIMIT n\<close>.\<close>

definition order_newest :: "('r \<Rightarrow> time) \<Rightarrow> ('r \<Rightarrow> string) \<Rightarrow> nat \<Rightarrow> 'r list \<Rightarrow> 'r list" where
  "order_newest created ident n rows = take n (rev (sort_key (\<lambda>r. (formatTime (created r), ident r)) rows))"

definition cut_page :: "('a \<Rightarrow> time) \<Rightarrow> ('a \<Rightarrow> string) \<Rightarrow> nat \<Rightarrow> 'a list \<Rightarrow> 'a Page" where
  "cut_page created ident limit items =
     (if length items > limit
      then (let l = items ! (limit - 1) in
            \<lparr>pg_items = take limit items, pg_next = encodeCursor (formatTime (created l)) (ident l)\<rparr>)
      else \<lparr>pg_items = items, pg_next = []\<rparr>)"

definition read_cursor :: "string \<Rightarrow> (string \<times> string) option result" where
  "read_cursor cursor = (if cursor = [] then Inr None else map_sum id Some (decodeCursor cursor))"

definition list_events :: "(string \<Rightarrow> string) \<Rightarrow> EventFilter \<Rightarrow> nat \<Rightarrow> (string \<times> string) option \<Rightarrow> store \<Rightarrow> Event Page" where
  "list_events lower f limit cur st =
     cut_page ev_created_at ev_id limit
       (map scanEvent
         (order_newest ev_created_at ev_id (limit + 1)
           (filter (\<lambda>e. event_cond lower f e \<and> after_cursor cur (ev_created_at e) (ev_id e)) (st_events st))))"

definition ListEvents :: "(string \<Rightarrow> string) \<Rightarrow> EventFilter \<Rightarrow> int \<Rightarrow> string \<Rightarrow> Event Page result db" where
  "ListEvents lower f limit cursor =
     (case read_cursor cursor of
        Inl x \<Rightarrow> State_Monad.return (Inl x)
      | Inr cur \<Rightarrow> do {
          p \<leftarrow> query (list_events lower f (clampLimit limit) cur);
          State_Monad.return (Inr p)
        })"

definition list_attempts :: "DeliveryFilter \<Rightarrow> nat \<Rightarrow> (string \<times> string) option \<Rightarrow> store \<Rightarrow> DeliveryAttempt Page" where
  "list_attempts f limit cur st =
     cut_page da_created_at da_id limit
       (map scanDelivery
         (order_newest dr_created_at dr_id (limit + 1)
           (filter (\<lambda>r. delivery_cond f r \<and> after_cursor cur (dr_created_at r) (dr_id r)) (st_attempts st))))"

definition ListDeliveryAttempts :: "DeliveryFilter \<Rightarrow> int \<Rightarrow> string \<Rightarrow> DeliveryAttempt Page result db" where
  "ListDeliveryAttempts f limit cursor =
     (case read_cursor cursor of
        Inl x \<Rightarrow> State_Monad.return (Inl x)
      | Inr cur \<Rightarrow> do {
          p \<leftarrow> query (list_attempts f (clampLimit limit) cur);
          items \<leftarrow> query (linkAttempts (pg_items p));
          State_Monad.return (Inr (p\<lparr>pg_items := items\<rparr>))
        })"


declare like.simps [simp del]

subsection \<open>The search is a substring test\<close>

lemma like_special_ascii: "like_special c \<Longrightarrow> (of_char c :: nat) < 128 \<and> ascii_lower c = c"
  by (auto simp: like_special_def ascii_lower_def Let_def)

lemma like_special_code: "like_special c \<Longrightarrow> (of_char c :: nat) \<in> {0x5C, 37, 95}"
  by (auto simp: like_special_def)

lemma ascii_lower_special:
  assumes "like_special (ascii_lower c)"
  shows "like_special c"
proof (cases "65 \<le> (of_char c :: nat) \<and> (of_char c :: nat) \<le> 90")
  case True
  then have "like_special (char_of ((of_char c :: nat) + 32))" using assms by (simp add: ascii_lower_def Let_def)
  from like_special_code [OF this] have "(of_char c :: nat) + 32 \<in> {0x5C, 37, 95}" using True by (simp add: of_char_of)
  with True show ?thesis by auto
qed (use assms in \<open>auto simp: ascii_lower_def Let_def\<close>)

lemma likeEscaper_simps [simp]:
  "likeEscaper [] = []" "likeEscaper (c # s) = (if like_special c then [CHR 0x5C, c] else [c]) @ likeEscaper s"
  by (simp_all add: likeEscaper_def)

lemma likeEscaper_append: "likeEscaper (s @ t) = likeEscaper s @ likeEscaper t"
  by (simp add: likeEscaper_def)

lemma likeEscaper_plain: "\<not> list_ex like_special s \<Longrightarrow> likeEscaper s = s"
  by (induction s) auto

text \<open>The case tables produce none of the characters that \<^verbatim>\<open>LIKE\<close> treats specially.\<close>

definition like_free :: "unicode_lower \<Rightarrow> bool" where
  "like_free ul = (\<forall>r. \<not> list_ex like_special r \<longrightarrow> \<not> list_ex like_special (ul r))"

lemma ToLower_plain:
  assumes "like_free ul" "\<not> list_ex like_special s"
  shows "\<not> list_ex like_special (ToLower ul s)"
proof -
  have "\<not> list_ex like_special (lower_rune ul r)" if "r \<in> set (runes s)" for r
  proof -
    have "\<not> list_ex like_special r" using assms(2) runes_bytes [OF that] by (auto simp: list_ex_iff)
    then show ?thesis
      using assms(1) ascii_lower_special by (auto simp: lower_rune_def like_free_def like_special_def split: list.splits)
  qed
  then show ?thesis by (auto simp: ToLower_runes list_ex_iff)
qed

lemma ToLower_likeEscaper:
  assumes "like_free ul"
  shows "ToLower ul (likeEscaper q) = likeEscaper (ToLower ul q)"
proof (induction "length q" arbitrary: q rule: less_induct)
  case less
  show ?case
  proof (cases "list_ex like_special q")
    case False
    then show ?thesis using ToLower_plain [OF assms False] by (simp add: likeEscaper_plain)
  next
    case True
    then obtain a c b where q: "q = a @ c # b" "like_special c" "\<not> list_ex like_special a"
      using split_list_first_prop [of q like_special] by (auto simp: list_ex_iff)
    note low = like_special_ascii [OF q(2)]
    have bs: "(of_char (CHR 0x5C) :: nat) < 128" "ascii_lower (CHR 0x5C) = CHR 0x5C" using like_special_ascii [of "CHR 0x5C"] by (simp_all add: like_special_def)
    have "ToLower ul (likeEscaper q) = ToLower ul (a @ CHR 0x5C # c # likeEscaper b)"
      using q by (simp add: likeEscaper_append likeEscaper_plain)
    also have "\<dots> = ToLower ul a @ CHR 0x5C # c # likeEscaper (ToLower ul b)"
      using low less [of b] q(1) by (simp add: ToLower_boundary [OF bs(1)] bs(2) ToLower_ascii_Cons)
    also have "\<dots> = likeEscaper (ToLower ul q)"
      using q low ToLower_plain [OF assms q(3)] by (simp add: ToLower_boundary likeEscaper_append likeEscaper_plain)
    finally show ?thesis .
  qed
qed

lemma like_any: "like ''%'' t"
  by (induction t) (simp_all add: like.simps)

lemma like_prefix: "like (likeEscaper p @ ''%'') t \<longleftrightarrow> prefix p t"
proof (induction p arbitrary: t)
  case (Cons c p)
  show ?case
  proof (cases "like_special c")
    case True
    then show ?thesis using Cons by (cases t) (auto simp: like.simps)
  next
    case False
    then show ?thesis using Cons by (cases t) (auto simp: like.simps like_special_def)
  qed
qed (simp add: like_any)

lemma like_anywhere: "like (CHR ''%'' # p) t \<longleftrightarrow> (\<exists>u. suffix u t \<and> like p u)"
proof (induction t)
  case Nil
  then show ?case by (simp add: like.simps)
next
  case (Cons x t)
  have "like (CHR ''%'' # p) (x # t) \<longleftrightarrow> like p (x # t) \<or> like (CHR ''%'' # p) t" by (subst like.simps) simp
  with Cons show ?case by (auto simp: suffix_Cons)
qed

text \<open>
  A search finds the messages that contain the text, ignoring case. Whatever characters the searched text contains, those that \<^verbatim>\<open>LIKE\<close> gives a meaning
  included, the condition of the query holds exactly when the lower-cased message contains the lower-cased text.
\<close>

theorem search_is_substring:
  assumes "like_free ul"
  shows "search_cond (ToLower ul) q message \<longleftrightarrow> sublist (ToLower ul q) (ToLower ul message)"
proof -
  have pc: "(of_char (CHR ''%'') :: nat) < 128" "ascii_lower (CHR ''%'') = CHR ''%''"
    using like_special_ascii [of "CHR ''%''"] by (simp_all add: like_special_def)
  have "ToLower ul (''%'' @ likeEscaper q @ ''%'') = CHR ''%'' # likeEscaper (ToLower ul q) @ ''%''"
    using ToLower_boundary [OF pc(1), of ul "likeEscaper q" "[]"] by (simp add: ToLower_ascii_Cons pc ToLower_likeEscaper [OF assms])
  then have "search_cond (ToLower ul) q message \<longleftrightarrow> (\<exists>u. suffix u (ToLower ul message) \<and> prefix (ToLower ul q) u)"
    by (simp add: search_cond_def like_anywhere like_prefix)
  also have "\<dots> \<longleftrightarrow> sublist (ToLower ul q) (ToLower ul message)"
    by (metis sublist_altdef' sublist_altdef)
  finally show ?thesis .
qed

theorem search_is_substring_witness: "search_cond (ToLower id) ''100%'' ''Disk 100% full'' \<and> \<not> search_cond (ToLower id) ''1_0'' ''Disk 100% full''"
proof -
  have f: "like_free id" by (simp add: like_free_def)
  have "ToLower id ''Disk 100% full'' = ''disk '' @ ToLower id ''100%'' @ '' full''" "\<not> sublist (ToLower id ''1_0'') (ToLower id ''Disk 100% full'')" by code_simp+
  with search_is_substring [OF f] show ?thesis by (metis sublist_appendI)
qed

subsection \<open>The cursor round trip\<close>

lemma pad_digits: "c \<in> set (pad w n) \<Longrightarrow> is_digit c"
  by (induction w arbitrary: n) (auto simp: digit_char_props)

lemma appendInt_digits: "c \<in> set (appendInt w n) \<Longrightarrow> is_digit c"
  using pad_digits Itoa_digits by (auto simp: appendInt_def split: if_splits)

lemma formatTime_no_nul: "CHR 0x00 \<notin> set (formatTime t)"
proof -
  have "\<not> is_digit (CHR 0x00)" by code_simp
  then show ?thesis
    using appendInt_digits
    by (auto simp: formatTime_def format_date_def format_clock_def format_minutes_def format_seconds_def split: prod.splits)
qed

lemma decode_encodeCursor: "CHR 0x00 \<notin> set ct \<Longrightarrow> decodeCursor (encodeCursor ct i) = Inr (ct, i)"
  by (simp add: decodeCursor_def encodeCursor_def SplitN2_append)

lemma encodeCursor_nonempty: "encodeCursor ct i \<noteq> []"
proof -
  have "length (encodeCursor ct i) > 0" by (simp add: encodeCursor_def length_Encode)
  then show ?thesis by auto
qed

lemma read_encodeCursor: "read_cursor (encodeCursor (formatTime t) i) = Inr (Some (formatTime t, i))"
  by (simp add: read_cursor_def encodeCursor_nonempty decode_encodeCursor formatTime_no_nul)

subsection \<open>Walking the pages\<close>

text \<open>What a client does: ask for a page, then for the page after its cursor, until there is none. \<open>None\<close> when an answer is an error or the fuel is used up.\<close>

fun walk_pages :: "nat \<Rightarrow> (string \<Rightarrow> 'a Page result) \<Rightarrow> string \<Rightarrow> 'a list option" where
  "walk_pages 0 f c = None"
| "walk_pages (Suc k) f c =
     (case f c of
        Inl x \<Rightarrow> None
      | Inr p \<Rightarrow> if pg_next p = [] then Some (pg_items p) else map_option ((@) (pg_items p)) (walk_pages k f (pg_next p)))"

lemma sort_key_cong:
  assumes "\<And>x y. x \<in> set xs \<Longrightarrow> y \<in> set xs \<Longrightarrow> (f x \<le> f y) = (g x \<le> g y)"
  shows "sort_key f xs = sort_key g xs"
  using assms
proof (induction xs)
  case (Cons x xs)
  have "insort_key f x ys = insort_key g x ys" if "set ys \<subseteq> set xs" for ys
    using that Cons.prems by (induction ys) auto
  with Cons show ?case by simp
qed simp

lemma filter_below_nth:
  fixes key :: "'r \<Rightarrow> 'k :: linorder"
  assumes "sorted_wrt (\<lambda>x y. key y < key x) zs" "0 < n" "n \<le> length zs"
  shows "filter (\<lambda>r. key r < key (zs ! (n - 1))) zs = drop n zs"
proof -
  have "sorted_wrt (\<lambda>x y. key y < key x) (take n zs @ drop n zs)" using assms(1) by simp
  then have *: "sorted_wrt (\<lambda>x y. key y < key x) (take n zs)" "\<And>x y. x \<in> set (take n zs) \<Longrightarrow> y \<in> set (drop n zs) \<Longrightarrow> key y < key x"
    unfolding sorted_wrt_append by auto
  have ne: "take n zs \<noteq> []" using assms by auto
  have l: "zs ! (n - 1) = last (take n zs)" using assms(2,3) by (simp add: last_conv_nth [OF ne] min_absorb2)
  obtain as a where ta: "take n zs = as @ [a]" using ne by (meson rev_exhaust)
  have "\<not> key x < key (last (take n zs))" if "x \<in> set (take n zs)" for x
    using *(1) that unfolding ta by (auto simp: sorted_wrt_append)
  then have "filter (\<lambda>r. key r < key (zs ! (n - 1))) (take n zs) = []" unfolding l by (auto simp: filter_empty_conv)
  moreover have "filter (\<lambda>r. key r < key (zs ! (n - 1))) (drop n zs) = drop n zs"
    unfolding l using *(2) ne by (intro filter_True) auto
  ultimately show ?thesis by (metis append_Nil append_take_drop_id filter_append)
qed

locale keyset =
  fixes created :: "'r \<Rightarrow> time" and ident :: "'r \<Rightarrow> string" and read :: "'r \<Rightarrow> 'a" and created_of :: "'a \<Rightarrow> time" and ident_of :: "'a \<Rightarrow> string"
  assumes created_read: "created_of (read r) = created r"
    and ident_read: "ident_of (read r) = ident r"
begin

abbreviation key :: "'r \<Rightarrow> string \<times> string" where
  "key r \<equiv> (formatTime (created r), ident r)"

abbreviation page :: "('r \<Rightarrow> bool) \<Rightarrow> 'r list \<Rightarrow> nat \<Rightarrow> (string \<times> string) option \<Rightarrow> 'a Page" where
  "page P rows limit cur \<equiv>
     cut_page created_of ident_of limit
       (map read (order_newest created ident (limit + 1) (filter (\<lambda>r. P r \<and> after_cursor cur (created r) (ident r)) rows)))"

abbreviation answer :: "('r \<Rightarrow> bool) \<Rightarrow> 'r list \<Rightarrow> nat \<Rightarrow> string \<Rightarrow> 'a Page result" where
  "answer P rows limit c \<equiv> (case read_cursor c of Inl x \<Rightarrow> Inl x | Inr cur \<Rightarrow> Inr (page P rows limit cur))"

lemma after_cursor_key: "after_cursor (Some k) (created r) (ident r) \<longleftrightarrow> key r < k"
  by (cases k) (auto simp: after_cursor_def less_prod_def)

lemma descending:
  assumes "distinct (map ident rows)"
  shows "sorted_wrt (\<lambda>x y. key y < key x) (rev (sort_key key rows))"
proof -
  have "sorted (map key (sort_key key rows))" by simp
  moreover have "distinct (map key (sort_key key rows))"
    using assms by (simp add: distinct_map inj_on_def)
  ultimately have "sorted_wrt (<) (map key (sort_key key rows))" by (simp add: strict_sorted_iff)
  then show ?thesis by (simp add: sorted_wrt_rev sorted_wrt_map)
qed

lemma page_tail:
  assumes "rest = filter (\<lambda>r. after_cursor cur (created r) (ident r)) (rev (sort_key key (filter P rows)))"
  shows "page P rows limit cur = cut_page created_of ident_of limit (map read (take (limit + 1) rest))"
proof -
  have "rev (sort_key key (filter (\<lambda>r. P r \<and> after_cursor cur (created r) (ident r)) rows)) = rest"
    unfolding assms by (simp add: rev_filter [symmetric] filter_sort conj_commute)
  then show ?thesis by (simp add: order_newest_def)
qed

lemma walk_rest:
  assumes "distinct (map ident rows)" "0 < limit" "read_cursor c = Inr cur"
    and "rest = filter (\<lambda>r. after_cursor cur (created r) (ident r)) (rev (sort_key key (filter P rows)))" "length rest < fuel"
  shows "walk_pages fuel (answer P rows limit) c = Some (map read rest)"
  using assms(3-5)
proof (induction fuel arbitrary: c cur rest)
  case (Suc fuel)
  note p = page_tail [OF Suc.prems(2), of limit]
  let ?all = "rev (sort_key key (filter P rows))"
  show ?case
  proof (cases "length rest > limit")
    case False
    then show ?thesis using Suc.prems(1) p by (simp add: cut_page_def)
  next
    case True
    define l where "l = rest ! (limit - 1)"
    have desc: "sorted_wrt (\<lambda>x y. key y < key x) ?all"
      using descending [of "filter P rows"] assms(1) by (simp add: distinct_map_filter)
    then have drest: "sorted_wrt (\<lambda>x y. key y < key x) rest" unfolding Suc.prems(2) by (rule sorted_wrt_filter)
    have "map read (take (limit + 1) rest) ! (limit - 1) = read l" using True assms(2) by (simp add: l_def)
    then have page: "page P rows limit cur = \<lparr>pg_items = map read (take limit rest), pg_next = encodeCursor (formatTime (created l)) (ident l)\<rparr>"
      using True p by (simp add: cut_page_def created_read ident_read take_map [symmetric] min_absorb2)
    have lin: "after_cursor cur (created l) (ident l)"
      using nth_mem [of "limit - 1" rest] True assms(2) unfolding l_def Suc.prems(2) by auto
    have sub: "after_cursor cur (created r) (ident r)" if "key r < key l" for r
      using lin that after_cursor_key by (cases cur) (auto simp: after_cursor_def less_prod_def dest: less_trans)
    have "drop limit rest = filter (\<lambda>r. key r < key l) rest"
      using filter_below_nth [OF drest assms(2)] True by (simp add: l_def)
    also have "\<dots> = filter (\<lambda>r. after_cursor (Some (key l)) (created r) (ident r)) ?all"
      unfolding Suc.prems(2) filter_filter after_cursor_key by (rule filter_cong) (use sub in auto)
    finally have d: "drop limit rest = filter (\<lambda>r. after_cursor (Some (key l)) (created r) (ident r)) ?all" .
    have "walk_pages fuel (answer P rows limit) (encodeCursor (formatTime (created l)) (ident l)) = Some (map read (drop limit rest))"
      by (rule Suc.IH [OF read_encodeCursor d]) (use True Suc.prems(3) assms(2) in simp)
    moreover have "map read (take limit rest) @ map read (drop limit rest) = map read rest"
      by (metis append_take_drop_id map_append)
    ultimately show ?thesis using Suc.prems(1) page by (simp add: encodeCursor_nonempty)
  qed
qed simp

lemma walk_all:
  assumes "distinct (map ident rows)" "0 < limit" "length rows < fuel"
    and "\<And>r. r \<in> set rows \<Longrightarrow> 0 \<le> created r \<and> year_of (created r) \<le> 9999"
  shows "walk_pages fuel (answer P rows limit) [] = Some (map read (rev (sort_key (\<lambda>r. (created r, ident r)) (filter P rows))))"
proof -
  have "length (filter P rows) \<le> length rows" by simp
  with assms(3) have "length (filter P rows) < fuel" by linarith
  then have "walk_pages fuel (answer P rows limit) [] = Some (map read (rev (sort_key key (filter P rows))))"
    by (intro walk_rest [OF assms(1,2), where cur = None]) (simp_all add: read_cursor_def after_cursor_def)
  moreover have "sort_key key (filter P rows) = sort_key (\<lambda>r. (created r, ident r)) (filter P rows)"
  proof (rule sort_key_cong)
    fix x y assume "x \<in> set (filter P rows)" "y \<in> set (filter P rows)"
    then have "0 \<le> created x" "0 \<le> created y" "year_of (created x) \<le> 9999" "year_of (created y) \<le> 9999" using assms(4) by auto
    then have "formatTime (created x) < formatTime (created y) \<longleftrightarrow> created x < created y" "formatTime (created x) = formatTime (created y) \<longleftrightarrow> created x = created y"
      using formatTime_less [of "created x" "created y"] formatTime_less [of "created y" "created x"] by (metis less_asym less_irrefl linorder_less_linear)+
    then show "(key x \<le> key y) = ((created x, ident x) \<le> (created y, ident y))" by (auto simp: less_eq_prod_def le_less)
  qed
  ultimately show ?thesis by simp
qed

end

interpretation event_rows: keyset ev_created_at ev_id scanEvent ev_created_at ev_id
  by unfold_locales (simp_all add: scanEvent_def)

interpretation attempt_rows: keyset dr_created_at dr_id scanDelivery da_created_at da_id
  by unfold_locales (simp_all add: scanDelivery_def)

lemma clampLimit_pos: "0 < clampLimit limit"
  by (simp add: clampLimit_def)

lemma clampLimit_le: "clampLimit limit \<le> 200"
  unfolding clampLimit_def by auto

text \<open>Two sources of pages with the same cursors, compared by some part of their items.\<close>

lemma walk_pages_parts:
  assumes "\<And>c. map_sum id (\<lambda>p. (map u (pg_items p), pg_next p)) (f c) = map_sum id (\<lambda>p. (map v (pg_items p), pg_next p)) (g c)"
  shows "map_option (map u) (walk_pages k f c) = map_option (map v) (walk_pages k g c)"
proof (induction k arbitrary: c)
  case (Suc k)
  have "map_option (map u) (map_option ((@) xs) (walk_pages k f d)) = map_option (map v) (map_option ((@) ys) (walk_pages k g d))"
    if "map u xs = map v ys" for xs ys d
    using Suc [of d] that by (cases "walk_pages k f d"; cases "walk_pages k g d") auto
  then show ?case using assms [of c] by (cases "f c"; cases "g c") (auto simp del: option.map_comp)
qed simp

lemma link_ids: "map da_id (linkAttempts items st) = map da_id items"
  by (auto simp: linkAttempts_def Let_def)

lemma ListEvents_alone:
  "fst (run_alone (ListEvents lower f limit c) st) =
     (case read_cursor c of Inl x \<Rightarrow> Inl x | Inr cur \<Rightarrow> Inr (list_events lower f (clampLimit limit) cur st))"
  by (auto simp: ListEvents_def run_alone_bind split: sum.split)

lemma ListDeliveries_alone:
  "fst (run_alone (ListDeliveryAttempts f limit c) st) =
     (case read_cursor c of
        Inl x \<Rightarrow> Inl x
      | Inr cur \<Rightarrow> (let p = list_attempts f (clampLimit limit) cur st in Inr (p\<lparr>pg_items := linkAttempts (pg_items p) st\<rparr>)))"
  by (auto simp: ListDeliveryAttempts_def run_alone_bind Let_def split: sum.split)

definition dated :: "time \<Rightarrow> bool" where
  "dated t = (0 \<le> t \<and> year_of t \<le> 9999)"

text \<open>
  C16: paging loses and repeats nothing. A client that starts without a cursor and follows the cursors it is given gets, after finitely
  many pages, exactly the events that match the filter, each once, the newest first, whatever page size it asks for; the same holds
  for delivery attempts. A page never holds more than 200 items.
\<close>

theorem paging_is_complete:
  assumes "keys_ok st" "list_all (dated \<circ> ev_created_at) (st_events st)" "list_all (dated \<circ> dr_created_at) (st_attempts st)"
    and "length (st_events st) < fuel" "length (st_attempts st) < fuel"
  shows "walk_pages fuel (\<lambda>c. fst (run_alone (ListEvents lower f limit c) st)) [] =
           Some (map scanEvent (rev (sort_key (\<lambda>e. (ev_created_at e, ev_id e)) (filter (event_cond lower f) (st_events st))))) \<and>
         map_option (map da_id) (walk_pages fuel (\<lambda>c. fst (run_alone (ListDeliveryAttempts g limit c) st)) []) =
           Some (map dr_id (rev (sort_key (\<lambda>r. (dr_created_at r, dr_id r)) (filter (delivery_cond g) (st_attempts st))))) \<and>
         (fst (run_alone (ListEvents lower f limit c) st) = Inr p \<longrightarrow> length (pg_items p) \<le> 200)"
proof (intro conjI impI)
  have d: "distinct (map ev_id (st_events st))" "distinct (map dr_id (st_attempts st))" using assms(1) by (simp_all add: keys_ok_def)
  have t: "\<And>e. e \<in> set (st_events st) \<Longrightarrow> 0 \<le> ev_created_at e \<and> year_of (ev_created_at e) \<le> 9999"
    "\<And>r. r \<in> set (st_attempts st) \<Longrightarrow> 0 \<le> dr_created_at r \<and> year_of (dr_created_at r) \<le> 9999"
    using assms(2,3) by (auto simp: list_all_iff dated_def)
  show "walk_pages fuel (\<lambda>c. fst (run_alone (ListEvents lower f limit c) st)) [] =
      Some (map scanEvent (rev (sort_key (\<lambda>e. (ev_created_at e, ev_id e)) (filter (event_cond lower f) (st_events st)))))"
    unfolding ListEvents_alone list_events_def
    using event_rows.walk_all [OF d(1) clampLimit_pos assms(4) t(1), of limit "event_cond lower f"] .
  let ?raw = "\<lambda>c. case read_cursor c of Inl x \<Rightarrow> Inl x | Inr cur \<Rightarrow> Inr (list_attempts g (clampLimit limit) cur st)"
  have "map_option (map da_id) (walk_pages fuel (\<lambda>c. fst (run_alone (ListDeliveryAttempts g limit c) st)) []) = map_option (map da_id) (walk_pages fuel ?raw [])"
    by (rule walk_pages_parts) (auto simp: ListDeliveries_alone link_ids Let_def split: sum.split)
  also have "walk_pages fuel ?raw [] = Some (map scanDelivery (rev (sort_key (\<lambda>r. (dr_created_at r, dr_id r)) (filter (delivery_cond g) (st_attempts st)))))"
    unfolding list_attempts_def
    using attempt_rows.walk_all [OF d(2) clampLimit_pos assms(5) t(2), of limit "delivery_cond g"] .
  finally show "map_option (map da_id) (walk_pages fuel (\<lambda>c. fst (run_alone (ListDeliveryAttempts g limit c) st)) []) =
      Some (map dr_id (rev (sort_key (\<lambda>r. (dr_created_at r, dr_id r)) (filter (delivery_cond g) (st_attempts st)))))"
    by (simp add: comp_def scanDelivery_def)
  assume "fst (run_alone (ListEvents lower f limit c) st) = Inr p"
  then obtain cur where "p = list_events lower f (clampLimit limit) cur st" by (auto simp: ListEvents_alone split: sum.splits)
  then have "length (pg_items p) \<le> clampLimit limit" by (auto simp: list_events_def cut_page_def Let_def)
  with clampLimit_le show "length (pg_items p) \<le> 200" using order_trans by blast
qed

definition list_event :: "string \<Rightarrow> time \<Rightarrow> Event" where
  "list_event i t =
     \<lparr>ev_id = i, ev_type = EventIncident, ev_severity = SeverityInfo, ev_state = StateNew, ev_source = ''shop'', ev_category = [], ev_message = ''disk full'',
      ev_entity_type = [], ev_entity_id = [], ev_trace_id = [], ev_dedupe_key = [], ev_payload = ''{}'', ev_created_at = t, ev_updated_at = t,
      ev_last_seen_at = t, ev_resolved_at = None\<rparr>"

definition demo_list :: store where
  "demo_list = empty_store\<lparr>st_events := [list_event ''a'' 10, list_event ''c'' 30, list_event ''b'' 20]\<rparr>"

definition no_filter :: EventFilter where
  "no_filter = \<lparr>ef_type = EventTypeOther [], ef_severity = SeverityOther [], ef_state = EventStateOther [], ef_source = [], ef_search = []\<rparr>"

theorem paging_is_complete_witness:
  "map_option (map ev_id) (walk_pages 4 (\<lambda>c. fst (run_alone (ListEvents (ToLower id) no_filter 1 c) demo_list)) []) = Some [''c'', ''b'', ''a'']"
proof -
  have k: "keys_ok demo_list" "length (st_events demo_list) < 4" "length (st_attempts demo_list) < 4" by code_simp+
  have y: "year_of 10 = 1" "year_of 20 = 1" "year_of 30 = 1" by (simp_all add: year_of_def civil_year.simps year_days_def)
  have d: "list_all (dated \<circ> ev_created_at) (st_events demo_list)" "list_all (dated \<circ> dr_created_at) (st_attempts demo_list)"
    by (simp_all add: demo_list_def empty_store_def list_event_def dated_def y)
  have "map ev_id (map scanEvent (rev (sort_key (\<lambda>e. (ev_created_at e, ev_id e)) (filter (event_cond (ToLower id) no_filter) (st_events demo_list))))) = [''c'', ''b'', ''a'']"
    by code_simp
  then show ?thesis using paging_is_complete [OF k(1) d k(2,3), of "ToLower id" no_filter 1] by simp
qed

end
