(* ===== verification/Api.thy ===== *)
theory Api
  imports Service Store_Lists Http
begin

text \<open>
  \<^verbatim>\<open>internal/api/handlers.go\<close>: the endpoints of the JSON API, and the mux of \<^verbatim>\<open>server.go\<close> that checks the scope of the caller and calls
  them. A handler is a program over the database. \<open>api\<close> is what the server was built with; the decoding of JSON bodies is part of
  it. \<open>api_readings\<close> are the clock, the identifiers drawn, and what the process-wide ingest limit and the database ping
  say. A query string is a function from parameter names to values, empty when the parameter is absent, as \<^verbatim>\<open>url.Values.Get\<close>
  answers.
\<close>

subsection \<open>Names of states and kinds\<close>

definition EventState_of :: "string \<Rightarrow> EventState" where
  "EventState_of s =
     (if s = ''new'' then StateNew else if s = ''acknowledged'' then StateAcknowledged
      else if s = ''resolved'' then StateResolved else if s = ''muted'' then StateMuted
      else if s = ''escalated'' then StateEscalated else EventStateOther s)"

definition DeliveryState_of :: "string \<Rightarrow> DeliveryState" where
  "DeliveryState_of s =
     (if s = ''pending'' then DeliveryPending else if s = ''sending'' then DeliverySending
      else if s = ''sent'' then DeliverySent else if s = ''failed'' then DeliveryFailed
      else if s = ''dead_letter'' then DeliveryDeadLetter else if s = ''cancelled'' then DeliveryCancelled
      else DeliveryStateOther s)"

definition ChannelType_of :: "string \<Rightarrow> ChannelType" where
  "ChannelType_of s =
     (if s = ''email'' then ChannelEmail else if s = ''telegram'' then ChannelTelegram
      else if s = ''webhook'' then ChannelWebhook else if s = ''slack'' then ChannelSlack
      else if s = ''teams'' then ChannelTeams else if s = ''discord'' then ChannelDiscord
      else if s = ''ntfy'' then ChannelNtfy else if s = ''pushover'' then ChannelPushover else ChannelTypeOther s)"

definition DeliveryKind_of :: "string \<Rightarrow> DeliveryKind" where
  "DeliveryKind_of s = (if s = ''alert'' then KindAlert else if s = ''recovery'' then KindRecovery else KindOther s)"

subsection \<open>What is sent back\<close>

record statsResponse =
  sp_events :: "EventState \<Rightarrow> nat option"
  sp_deliveries :: "DeliveryState \<Rightarrow> nat option"
  sp_open_incidents :: nat
  sp_oldest_due_age_seconds :: "int option"
  sp_dead_letter_last_24h :: nat
  sp_worker_last_tick_at :: "time option"

datatype api_view =
    IngestView Event IngestOutcome
  | IngestSummary string EventState IngestOutcome
  | EventView Event
  | EventList "Event list" string
  | AttemptView DeliveryAttempt
  | AttemptList "DeliveryAttempt list" string
  | RoutingTableView bool "RuleView list" "string list"
  | RoutingPreviewView string "string list"
  | StatsView statsResponse
  | InfoView string string string
  | StatusView string

record routingPreviewRequest =
  pr_type :: EventType
  pr_severity :: Severity
  pr_source :: string
  pr_category :: string

record api =
  ap_lower :: unicode_lower
  ap_db_lower :: "string \<Rightarrow> string"
  ap_ingest :: IngestService
  ap_recovery :: RecoveryNotifier
  ap_routing :: Router
  ap_version :: string
  ap_event_input :: "string \<Rightarrow> EventInput option"
  ap_preview_input :: "string \<Rightarrow> routingPreviewRequest option"

record api_readings =
  ar_now :: time
  ar_ids :: "nat \<Rightarrow> nat \<Rightarrow> string"
  ar_ingest_allowed :: bool
  ar_ping :: bool

type_synonym 'v outcome = "'v response"
type_synonym query_values = "string \<Rightarrow> string"

subsection \<open>Parameters\<close>

definition maxIngestBody :: nat where "maxIngestBody = MaxPayloadBytes * 2"
definition maxPreviewBody :: nat where "maxPreviewBody = 64 * 1024"
definition maxSearchLen :: nat where "maxSearchLen = 200"
definition deadLetterWindow :: duration where "deadLetterWindow = 24 * Hour"

definition invalidParam :: "string \<Rightarrow> string \<Rightarrow> err" where
  "invalidParam name v = ErrValidation (''invalid '' @ name)"

definition eventFilter :: "query_values \<Rightarrow> EventFilter result" where
  "eventFilter q =
     (let f = \<lparr>ef_type = EventType_of (q ''type''), ef_severity = Severity_of (q ''severity''), ef_state = EventState_of (q ''state''),
               ef_source = q ''source'', ef_search = q ''q''\<rparr> in
      if ef_type f \<noteq> EventTypeOther [] \<and> \<not> ValidEventType (ef_type f) then Inl (invalidParam ''type'' (q ''type''))
      else if ef_severity f \<noteq> SeverityOther [] \<and> \<not> ValidSeverity (ef_severity f) then Inl (invalidParam ''severity'' (q ''severity''))
      else if ef_state f \<noteq> EventStateOther [] \<and> \<not> ValidEventState (ef_state f) then Inl (invalidParam ''state'' (q ''state''))
      else if \<not> ValidString (ef_source f) then Inl (ErrValidation ''source is not valid UTF-8'')
      else if \<not> ValidString (ef_search f) then Inl (ErrValidation ''q is not valid UTF-8'')
      else if RuneCountInString (ef_search f) > maxSearchLen then Inl (ErrValidation ''q is longer than 200 characters'')
      else Inr f)"

definition deliveryFilter :: "query_values \<Rightarrow> DeliveryFilter result" where
  "deliveryFilter q =
     (let f = \<lparr>df_state = DeliveryState_of (q ''state''), df_channel = ChannelType_of (q ''channel''), df_channel_name = q ''channel_name'',
               df_event_id = q ''event_id'', df_kind = DeliveryKind_of (q ''kind'')\<rparr> in
      if df_state f \<noteq> DeliveryStateOther [] \<and> \<not> ValidDeliveryState (df_state f) then Inl (invalidParam ''state'' (q ''state''))
      else if df_channel f \<noteq> ChannelTypeOther [] \<and> \<not> ValidChannelType (df_channel f) then Inl (invalidParam ''channel'' (q ''channel''))
      else if df_kind f \<noteq> KindOther [] \<and> \<not> ValidDeliveryKind (df_kind f) then Inl (invalidParam ''kind'' (q ''kind''))
      else Inr f)"

text \<open>\<^verbatim>\<open>strconv.Atoi\<close>: an optional sign and digits, within 64 bits.\<close>

definition Atoi :: "string \<Rightarrow> int option" where
  "Atoi s =
     (let neg = (s \<noteq> [] \<and> hd s = CHR ''-''); d = (if s \<noteq> [] \<and> (hd s = CHR ''-'' \<or> hd s = CHR ''+'') then tl s else s) in
      if d = [] \<or> \<not> list_all is_digit d then None
      else (let n = (if neg then - int (dec_value d) else int (dec_value d)) in
            if - (2 ^ 63) \<le> n \<and> n < 2 ^ 63 then Some n else None))"

definition parseLimit :: "string \<Rightarrow> int result" where
  "parseLimit s =
     (if s = [] then Inr 0
      else (case Atoi s of
              None \<Rightarrow> Inl (ErrValidation ''limit must be a positive integer'')
            | Some n \<Rightarrow> if n \<le> 0 then Inl (ErrValidation ''limit must be a positive integer'') else Inr n))"

subsection \<open>Handlers\<close>

definition answer_of :: "('a \<Rightarrow> 'v) \<Rightarrow> 'a result \<Rightarrow> 'v outcome" where
  "answer_of f r = (case r of Inl x \<Rightarrow> writeDomainError x | Inr a \<Rightarrow> writeJSON 200 (f a))"

definition ingest_answer :: "caller \<Rightarrow> IngestResult result \<Rightarrow> api_view outcome" where
  "ingest_answer who res =
     (case res of
        Inl x \<Rightarrow> writeDomainError x
      | Inr r \<Rightarrow>
         (case ir_event r of
            None \<Rightarrow> respond 204 NoBody
          | Some e \<Rightarrow>
             (let status = (if ir_outcome r = OutcomeCreated then 201 else 200) in
              if ca_scope who = ScopeIngest then writeJSON status (IngestSummary (ev_id e) (ev_state e) (ir_outcome r))
              else writeJSON status (IngestView e (ir_outcome r)))))"

definition handleIngest :: "api \<Rightarrow> api_readings \<Rightarrow> caller \<Rightarrow> request \<Rightarrow> api_view outcome db" where
  "handleIngest a rd who r =
     (case readBody maxIngestBody r of
        Inl x \<Rightarrow> State_Monad.return x
      | Inr body \<Rightarrow>
         (case ap_event_input a body of
            None \<Rightarrow> State_Monad.return (writeError 400 ''bad_request'')
          | Some inp \<Rightarrow> do {
              res \<leftarrow> IngestFor (ap_lower a) (ap_ingest a) (ar_ids rd) (ar_now rd) inp (ca_sources who);
              State_Monad.return (ingest_answer who res)
            }))"

definition handleListEvents :: "api \<Rightarrow> query_values \<Rightarrow> api_view outcome db" where
  "handleListEvents a q =
     (case eventFilter q of
        Inl x \<Rightarrow> State_Monad.return (writeDomainError x)
      | Inr f \<Rightarrow>
         (case parseLimit (q ''limit'') of
            Inl x \<Rightarrow> State_Monad.return (writeDomainError x)
          | Inr limit \<Rightarrow> do {
              page \<leftarrow> ListEvents (ap_db_lower a) f limit (q ''cursor'');
              State_Monad.return (answer_of (\<lambda>p. EventList (pg_items p) (pg_next p)) page)
            }))"

definition handleGetEvent :: "string \<Rightarrow> api_view outcome db" where
  "handleGetEvent i = do {
     e \<leftarrow> GetEvent i;
     State_Monad.return (answer_of EventView e)
   }"

definition handleEventAction :: "api \<Rightarrow> api_readings \<Rightarrow> string \<Rightarrow> string \<Rightarrow> api_view outcome db" where
  "handleEventAction a rd i action =
     (case ParseAction action of
        None \<Rightarrow> State_Monad.return (writeError 404 ''not_found'')
      | Some act \<Rightarrow> do {
          e \<leftarrow> Apply (ar_ids rd) (ap_recovery a) (ar_now rd) i act;
          State_Monad.return (answer_of EventView e)
        })"

definition handleListDeliveries :: "query_values \<Rightarrow> api_view outcome db" where
  "handleListDeliveries q =
     (case deliveryFilter q of
        Inl x \<Rightarrow> State_Monad.return (writeDomainError x)
      | Inr f \<Rightarrow>
         (case parseLimit (q ''limit'') of
            Inl x \<Rightarrow> State_Monad.return (writeDomainError x)
          | Inr limit \<Rightarrow> do {
              page \<leftarrow> ListDeliveryAttempts f limit (q ''cursor'');
              State_Monad.return (answer_of (\<lambda>p. AttemptList (pg_items p) (pg_next p)) page)
            }))"

definition handleReplay :: "api_readings \<Rightarrow> string \<Rightarrow> api_view outcome db" where
  "handleReplay rd i = do {
     att \<leftarrow> DeliveryService_Replay (ar_now rd) i;
     State_Monad.return (answer_of AttemptView att)
   }"

definition handleRoutingTable :: "api \<Rightarrow> api_view outcome" where
  "handleRoutingTable a =
     writeJSON 200 (RoutingTableView (ro_configured (ap_routing a)) (ro_views (ap_routing a)) (ro_def_names (ap_routing a)))"

definition preview_event :: "routingPreviewRequest \<Rightarrow> Event" where
  "preview_event inp =
     \<lparr>ev_id = [], ev_type = pr_type inp, ev_severity = pr_severity inp, ev_state = EventStateOther [], ev_source = pr_source inp, ev_category = pr_category inp,
      ev_message = [], ev_entity_type = [], ev_entity_id = [], ev_trace_id = [], ev_dedupe_key = [], ev_payload = [],
      ev_created_at = 0, ev_updated_at = 0, ev_last_seen_at = 0, ev_resolved_at = None\<rparr>"

definition preview_answer :: "api \<Rightarrow> routingPreviewRequest \<Rightarrow> api_view outcome" where
  "preview_answer a inp0 =
     (if pr_type inp0 \<noteq> EventTypeOther [] \<and> \<not> ValidEventType (pr_type inp0) then writeError 400 ''validation_failed''
      else
        let inp = (if pr_severity inp0 = SeverityOther [] then inp0\<lparr>pr_severity := SeverityInfo\<rparr> else inp0) in
        if \<not> ValidSeverity (pr_severity inp) then writeError 400 ''validation_failed''
        else
          let d = Route (ap_lower a) (ap_routing a) (preview_event inp) in
          writeJSON 200 (RoutingPreviewView (dc_rule d) (map ct_name (dc_channels d))))"

definition handleRoutingPreview :: "api \<Rightarrow> request \<Rightarrow> api_view outcome" where
  "handleRoutingPreview a r =
     (case readBody maxPreviewBody r of
        Inl x \<Rightarrow> x
      | Inr body \<Rightarrow>
          if body = []
          then preview_answer a \<lparr>pr_type = EventTypeOther [], pr_severity = SeverityOther [], pr_source = [], pr_category = []\<rparr>
          else (case ap_preview_input a body of None \<Rightarrow> writeError 400 ''bad_request'' | Some inp \<Rightarrow> preview_answer a inp))"

definition handleHealth :: "api_view outcome" where
  "handleHealth = writeJSON 200 (StatusView ''ok'')"

definition handleReady :: "api_readings \<Rightarrow> api_view outcome" where
  "handleReady rd = (if ar_ping rd then writeJSON 200 (StatusView ''ready'') else writeError 503 ''not_ready'')"

definition age_seconds :: "time \<Rightarrow> time \<Rightarrow> int" where
  "age_seconds now since = max 0 (now - since) div Second"

definition truncate_second :: "time \<Rightarrow> time" where
  "truncate_second t = t - t mod Second"

definition handleStats :: "api_readings \<Rightarrow> api_view outcome db" where
  "handleStats rd = do {
     m \<leftarrow> query (monitoring (ar_now rd) (ar_now rd - deadLetterWindow));
     events \<leftarrow> query CountEventsByState;
     deliveries \<leftarrow> query CountDeliveriesByState;
     State_Monad.return
       (writeJSON 200
         (StatsView
           \<lparr>sp_events = events, sp_deliveries = deliveries, sp_open_incidents = mo_open_incidents m,
            sp_oldest_due_age_seconds = map_option (age_seconds (ar_now rd)) (mo_oldest_due_since m),
            sp_dead_letter_last_24h = mo_dead_letters m, sp_worker_last_tick_at = map_option truncate_second (mo_last_worker_tick m)\<rparr>))
   }"

definition handleInfo :: "api \<Rightarrow> api_view outcome" where
  "handleInfo a = writeJSON 200 (InfoView (if ap_version a = [] then ''dev'' else ap_version a) ''community'' ''AGPL-3.0-only'')"

subsection \<open>The mux\<close>

fun api_handler :: "api \<Rightarrow> api_readings \<Rightarrow> caller \<Rightarrow> request \<Rightarrow> query_values \<Rightarrow> endpoint \<Rightarrow> api_view outcome db" where
  "api_handler a rd who r q EIngest =
     (if ar_ingest_allowed rd then handleIngest a rd who r
      else State_Monad.return ((writeError 429 ''rate_limited'')\<lparr>rs_retry_after := Some 1\<rparr>))"
| "api_handler a rd who r q EListEvents = handleListEvents a q"
| "api_handler a rd who r q (EGetEvent i) = handleGetEvent i"
| "api_handler a rd who r q (EEventAction i act) = handleEventAction a rd i act"
| "api_handler a rd who r q EListDeliveries = handleListDeliveries q"
| "api_handler a rd who r q (EReplay i) = handleReplay rd i"
| "api_handler a rd who r q ERoutingTable = State_Monad.return (handleRoutingTable a)"
| "api_handler a rd who r q ERoutingPreview = State_Monad.return (handleRoutingPreview a r)"
| "api_handler a rd who r q EStats = handleStats rd"
| "api_handler a rd who r q EInfo = State_Monad.return (handleInfo a)"

text \<open>\<open>None\<close> when no pattern of the mux matches.\<close>

definition serve_api :: "api \<Rightarrow> api_readings \<Rightarrow> caller \<Rightarrow> request \<Rightarrow> string list \<Rightarrow> query_values \<Rightarrow> api_view outcome db option" where
  "serve_api a rd who r segs q =
     (case api_route (rq_method r) segs of
        None \<Rightarrow> None
      | Some (e, needed) \<Rightarrow>
          Some (if requireScope needed who then api_handler a rd who r q e else State_Monad.return (writeError 403 ''forbidden'')))"

end
