(* ===== verification/Api_Properties.thy ===== *)
theory Api_Properties
  imports Api Service_Contract Worker_Contract
begin

text \<open>
  What the JSON API promises, on top of the contracts of the services: every endpoint keeps the store's invariant whatever other
  processes do meanwhile, a caller that may only read writes nothing, a caller that may only report events of some sources touches no
  other event and is shown none, and the routing preview says what ingestion does.
\<close>

subsection \<open>Reading\<close>

lemma keeps_GetEvent: "keeps I (GetEvent i)"
  by (simp add: GetEvent_def keeps_query)

lemma keeps_GetDelivery: "keeps I (GetDeliveryAttempt i)"
  unfolding GetDeliveryAttempt_def by (auto intro!: keeps_bind keeps_query keeps_return split: sum.split)

lemma keeps_lists: "keeps I (ListEvents lower f n c)" "keeps I (ListDeliveryAttempts g n c)"
  unfolding ListEvents_def ListDeliveryAttempts_def by (auto intro!: keeps_bind keeps_query keeps_return split: sum.split)

lemmas keeps_reads = keeps_GetEvent keeps_GetDelivery keeps_lists keeps_query keeps_return

lemma handlers_read:
  "keeps I (handleListEvents a q)" "keeps I (handleGetEvent i)" "keeps I (handleListDeliveries q)" "keeps I (handleStats rd)"
  unfolding handleListEvents_def handleGetEvent_def handleListDeliveries_def handleStats_def
  by (auto intro!: keeps_bind keeps_reads split: sum.split)

lemma handler_reads: "\<not> changes_state e \<Longrightarrow> keeps I (api_handler a rd who r q e)"
  by (cases e) (simp_all add: handlers_read keeps_return)

lemma serve_apiE:
  assumes "serve_api a rd who r segs q = Some m"
  obtains (refused) "m = State_Monad.return (writeError 403 ''forbidden'')"
  | (handled) e needed where "api_route (rq_method r) segs = Some (e, needed)" "requireScope needed who" "m = api_handler a rd who r q e"
  using assms by (auto simp: serve_api_def split: option.splits if_splits)

text \<open>
  C27: a caller that may only read changes nothing. Whatever it sends, and whatever is stored, a predicate that the steps of others keep is kept by the
  request: the request itself writes nothing.
\<close>

theorem reader_never_writes:
  assumes "ca_scope who = ScopeRead" "serve_api a rd who r segs q = Some m"
    and "I st" "rely I es" "run_state m (st, es) = (x, st', es')"
  shows "I st'"
proof -
  have "keeps I m"
    using assms(2)
  proof (cases rule: serve_apiE)
    case (handled e needed)
    then have "needed = ScopeRead" using assms(1) by (simp add: requireScope_def)
    with handled(1) have "\<not> changes_state e" using route_scopes(2) by blast
    with handled(3) show ?thesis by (simp add: handler_reads)
  qed (simp add: keeps_return)
  then show ?thesis using assms(3-5) by (rule keepsD)
qed

subsection \<open>Writing\<close>

lemma handler_keeps_inv:
  assumes "0 < is_max_attempts (ap_ingest a)"
  shows "keeps inv (api_handler a rd who r q e)"
proof (cases "changes_state e")
  case True
  have "keeps inv (handleIngest a rd who r)"
    unfolding handleIngest_def by (auto intro!: keeps_bind keeps_return whole.IngestFor_keeps assms split: sum.split option.split)
  moreover have "keeps inv (handleEventAction a rd i act)" for i act
    unfolding handleEventAction_def by (auto intro!: keeps_bind keeps_return whole.Apply_keeps split: option.split)
  moreover have "keeps inv (handleReplay rd i)" for i
    unfolding handleReplay_def DeliveryService_Replay_def by (auto intro!: keeps_bind keeps_return queue.Replay_keeps)
  ultimately show ?thesis using True by (cases e) (simp_all add: keeps_return)
qed (simp add: handler_reads)

text \<open>
  C14: no request breaks the store. Whatever a client sends to the JSON API, with whatever credential, and whatever workers and other requests do
  between the statements of its handler, the invariant of the store holds afterwards.
\<close>

theorem api_keeps_store_sound:
  assumes "0 < is_max_attempts (ap_ingest a)" "serve_api a rd who r segs q = Some m"
    and "inv st" "rely inv es" "run_state m (st, es) = (x, st', es')"
  shows "inv st'"
proof -
  have "keeps inv m"
    using assms(2) by (cases rule: serve_apiE) (simp_all add: keeps_return handler_keeps_inv [OF assms(1)])
  then show ?thesis using assms(3-5) by (rule keepsD)
qed

lemma writeError_body [simp]: "rs_body (writeError n c) = ErrorBody c"
  by (simp add: writeError_def respond_def)

lemma domain_error_body: "\<exists>c. rs_body (writeDomainError x) = ErrorBody c"
  by (cases x) (simp_all add: writeDomainError_def)

lemma readBody_error: "readBody n r = Inl x \<Longrightarrow> \<exists>c. rs_body x = ErrorBody c"
  by (auto simp: readBody_def split: option.splits if_splits)

text \<open>What an ingest-scoped key is shown: nothing, an error, or the summary of the incident.\<close>

definition summary_only :: "api_view outcome \<Rightarrow> bool" where
  "summary_only x = (\<forall>v. rs_body x = ViewBody v \<longrightarrow> (\<exists>i s oc. v = IngestSummary i s oc))"

lemma summary_only_errors [simp]: "summary_only (writeError n c)" "summary_only (writeDomainError y)" "summary_only (respond n NoBody)"
  "summary_only (x\<lparr>rs_retry_after := t\<rparr>) = summary_only x"
  using domain_error_body [of y, where 'a = api_view] by (auto simp: summary_only_def respond_def)

lemma ingest_answer_summary: "ca_scope who = ScopeIngest \<Longrightarrow> summary_only (ingest_answer who res)"
  by (auto simp: ingest_answer_def Let_def split: sum.split option.split) (simp_all add: summary_only_def writeJSON_def respond_def)

text \<open>
  C15: a key for some sources is confined to them. A request with an ingest-scoped key restricted to \<open>sources\<close> leaves every event of another source exactly as it is,
  whatever the request says and whatever happens meanwhile, and its answer shows no event, at most the identifier, state and outcome of the
  incident it reported.
\<close>

theorem ingest_key_confined:
  assumes "ca_scope who = ScopeIngest" "ca_sources who = Some sources" "0 < is_max_attempts (ap_ingest a)"
    and "serve_api a rd who r segs q = Some m" "run_state m (st, es) = (x, st', es')"
    and "inv st" "e0 \<in> set (st_events st)" "ev_source e0 \<notin> set sources" "rely (foreign_kept sources e0) es"
  shows "e0 \<in> set (st_events st') \<and> summary_only x"
proof -
  let ?I = "foreign_kept sources e0"
  have ingest: "keeps ?I (IngestFor (ap_lower a) (ap_ingest a) (ar_ids rd) (ar_now rd) inp (ca_sources who))" for inp
    unfolding assms(2) by (rule foreign.IngestFor_keeps [OF assms(3)])
  have "summary_only y" if "readBody maxIngestBody r = Inl y" for y
    using readBody_error [OF that] by (auto simp: summary_only_def)
  then have hi: "ensures ?I (handleIngest a rd who r) summary_only"
    unfolding handleIngest_def
    by (auto intro!: ensures_return ensures_bind [OF ingest [unfolded keeps_def]] ingest_answer_summary assms(1) split: sum.split option.split)
  have "ensures ?I m summary_only"
    using assms(4)
  proof (cases rule: serve_apiE)
    case (handled e needed)
    then have "needed = ScopeIngest" using assms(1) by (simp add: requireScope_def)
    with handled(1) have "e = EIngest" using route_scopes(1) by blast
    with handled(3) hi show ?thesis by (auto intro!: ensures_return)
  qed (simp add: ensures_return)
  moreover have "?I st" using assms(6,7) by (simp add: foreign_kept_def)
  ultimately have "?I st' \<and> summary_only x" using assms(5,9) by (fastforce simp: ensures_def)
  with assms(8) show ?thesis by (simp add: foreign_kept_def)
qed

subsection \<open>Ingestion and its preview\<close>

lemma solo_Create [simp]: "solo (CreateEventWithDeliveries e ds)"
  unfolding CreateEventWithDeliveries_def by (auto intro!: solo_bind split: sum.split prod.split)

lemma Create_alone:
  assumes "run_alone (CreateEventWithDeliveries e ds) st = (Inr (y, created), st')"
  shows "created \<Longrightarrow> y = e \<and> create_tx e ds st = Inr ((), st')" "\<not> created \<Longrightarrow> st' = st"
  using assms unfolding CreateEventWithDeliveries_def
  by (auto simp: run_alone_bind create_tx_refused_def commit_def Let_def split: if_splits sum.splits prod.splits)

text \<open>What an ingestion that creates an event has done.\<close>

definition created_as :: "unicode_lower \<Rightarrow> IngestService \<Rightarrow> time \<Rightarrow> Event \<Rightarrow> store \<Rightarrow> store \<Rightarrow> bool" where
  "created_as ul s now e st st' =
     (st_events st' = st_events st @ [event_row e] \<and>
      (\<exists>ids. st_attempts st' = st_attempts st @ map deliveryArgs (buildDeliveries s ids (ev_id e) (dc_channels (Route ul (is_router s) e)) now)))"

lemma Route_id: "Route ul r (e\<lparr>ev_id := i\<rparr>) = Route ul r e"
  by (simp add: Route_def eventValuesOf_def)

lemma created_as_create:
  "create_tx e (buildDeliveries s ids (ev_id e) (dc_channels (Route ul (is_router s) e)) now) st = Inr ((), st') \<Longrightarrow> created_as ul s now e st st'"
  using create_tx_attempts(1) create_tx_events by (fastforce simp: created_as_def)

lemma retry_created:
  assumes "run_alone (retry_create s ids e (dc_channels (Route ul (is_router s) e)) allowed now) st = (Inr res, st')" "ir_outcome res = OutcomeCreated"
  shows "ir_event res = Some (e\<lparr>ev_id := ids 0\<rparr>) \<and> created_as ul s now (e\<lparr>ev_id := ids 0\<rparr>) st st'"
proof -
  let ?e = "e\<lparr>ev_id := ids 0\<rparr>" and ?ds = "buildDeliveries s (\<lambda>k. ids (Suc k)) (ids 0) (dc_channels (Route ul (is_router s) e)) now"
  obtain x where x: "run_alone (CreateEventWithDeliveries ?e ?ds) st = (Inr (x, True), st')" "ir_event res = Some x"
    using assms by (cases "run_alone (CreateEventWithDeliveries ?e ?ds) st")
      (auto simp: retry_create_def run_alone_bind Let_def split: sum.splits prod.splits bool.splits)
  from Create_alone(1) [OF x(1)] have "x = ?e" "create_tx ?e ?ds st = Inr ((), st')" by simp_all
  with x(2) created_as_create [of ?e s "\<lambda>k. ids (Suc k)" ul now st st'] show ?thesis by (simp add: Route_id)
qed

lemma solo_refresh [simp]: "solo (refresh ul s ids x e now)"
  by (simp add: refresh_def RefreshOpenEvent_def)

lemma refresh_alone: "fst (run_alone (refresh ul s ids x e now) st) = Inl z \<Longrightarrow> snd (run_alone (refresh ul s ids x e now) st) = st"
  by (auto simp: refresh_def RefreshOpenEvent_def commit_def split: sum.splits)

lemma ingest_created:
  assumes "run_alone (ingest_event ul s ids now inp allowed) st = (Inr res, st')" "ir_outcome res = OutcomeCreated"
  shows "\<exists>i. ir_event res = Some (eventOf inp i now) \<and> created_as ul s now (eventOf inp i now) st st'"
proof -
  let ?e = "eventOf inp (ids 0 0) now"
  let ?c = "CreateEventWithDeliveries ?e (buildDeliveries s (\<lambda>k. ids 0 (Suc k)) (ev_id ?e) (dc_channels (Route ul (is_router s) ?e)) now)"
  obtain r st1 where c: "run_alone ?c st = (r, st1)" by force
  show ?thesis
  proof (cases "\<exists>y. r = Inr (y, True)")
    case True
    then obtain y where y: "r = Inr (y, True)" by blast
    with c Create_alone(1) [of ?e _ st y True st1] have "y = ?e" "create_tx ?e (buildDeliveries s (\<lambda>k. ids 0 (Suc k)) (ev_id ?e) (dc_channels (Route ul (is_router s) ?e)) now) st = Inr ((), st1)"
      by simp_all
    moreover have "ir_event res = Some y" "st' = st1" using assms(1) c y by (auto simp: ingest_event_def run_alone_bind Let_def)
    ultimately show ?thesis using created_as_create by blast
  next
    case False
    obtain x where r: "r = Inr (x, False)" using assms(1) c False by (cases r) (auto simp: ingest_event_def run_alone_bind Let_def)
    then have "st1 = st" using c Create_alone(2) by blast
    then have "run_alone (retry_create s (ids 2) ?e (dc_channels (Route ul (is_router s) ?e)) allowed now) st = (Inr res, st')"
      using assms c r
      by (auto simp: ingest_event_def run_alone_bind refresh_alone Let_def split: sum.splits if_splits)
    from retry_created [OF this assms(2)] show ?thesis by (auto simp: eventOf_def intro!: exI [of _ "ids 2 0"])
  qed
qed

lemma resolve_not_created: "run_alone (resolve s ids k allowed now) st = (Inr res, st') \<Longrightarrow> ir_outcome res \<noteq> OutcomeCreated"
proof -
  assume run: "run_alone (resolve s ids k allowed now) st = (Inr res, st')"
  have "ensures (\<lambda>_. True) (resolve s ids k allowed now) (\<lambda>x. \<forall>res. x = Inr res \<longrightarrow> ir_outcome res \<noteq> OutcomeCreated)"
    unfolding resolve_def
    by (auto intro!: ensures_bind [where Q = "\<lambda>_. True"] ensures_return simp: ensures_def rely_def split: sum.split prod.split)
  with run show ?thesis unfolding ensures_def run_alone_def by (fastforce simp: rely_def split: prod.splits)
qed

lemma IngestFor_created:
  assumes "run_alone (IngestFor ul s ids now inp allowed) st = (Inr res, st')" "ir_outcome res = OutcomeCreated"
  shows "\<exists>inp' i. validateInput inp = Inr inp' \<and> in_status inp \<noteq> StatusResolved \<and> ir_event res = Some (eventOf inp' i now) \<and> created_as ul s now (eventOf inp' i now) st st'"
proof -
  obtain inp' where v: "validateInput inp = Inr inp'" using assms(1) by (auto simp: IngestFor_def split: sum.splits)
  have st: "in_status inp' = in_status inp" using v by (auto simp: validateInput_def Let_def split: if_splits)
  have nr: "in_status inp' \<noteq> StatusResolved"
    using assms v resolve_not_created by (auto simp: IngestFor_def Let_def split: if_splits)
  then have "run_alone (ingest_event ul s ids now inp' allowed) st = (Inr res, st')"
    using assms(1) v by (auto simp: IngestFor_def Let_def split: if_splits)
  from ingest_created [OF this assms(2)] v nr st show ?thesis by auto
qed

lemma preview_route:
  "Route ul r (preview_event \<lparr>pr_type = in_type inp, pr_severity = in_severity inp, pr_source = in_source inp, pr_category = in_category inp\<rparr>) =
   Route ul r (eventOf inp i now)"
  by (simp add: Route_def eventValuesOf_def preview_event_def eventOf_def Routing.normalize_def)

lemma validated:
  assumes "validateInput inp = Inr inp'" "in_status inp \<noteq> StatusResolved"
  shows "ValidEventType (in_type inp)" "ValidSeverity (in_severity inp')"
    "inp' = (if in_severity inp = SeverityOther [] then inp\<lparr>in_severity := SeverityInfo\<rparr> else inp)"
  using assms by (auto simp: validateInput_def Let_def split: if_splits)

lemma domain_error_201 [simp]: "rs_status (writeDomainError z) \<noteq> 201"
  by (cases z) (simp_all add: writeDomainError_def writeError_def respond_def)

lemma new_alert_rows:
  "map dr_channel_name (map deliveryArgs (buildDeliveries s ids i targets now)) = map ct_name targets \<and>
   list_all (\<lambda>d. dr_event_id d = i \<and> dr_kind d = KindAlert \<and> dr_state d = DeliveryPending \<and> dr_attempts d = 0)
     (map deliveryArgs (buildDeliveries s ids i targets now))"
proof
  have "map ct_name (map snd (enumerate 0 targets)) = map ct_name targets" by (simp only: map_snd_enumerate)
  then show "map dr_channel_name (map deliveryArgs (buildDeliveries s ids i targets now)) = map ct_name targets"
    by (simp add: buildDeliveries_def buildDelivery_def deliveryArgs_def comp_def case_prod_unfold del: map_snd_enumerate)
qed (auto simp: list_all_iff buildDeliveries_def buildDelivery_def deliveryArgs_def OrAlert_def)

text \<open>The rule that decides is the first whose conditions hold.\<close>

lemma route_rules_find:
  "route_rules rs v def =
     (case find (\<lambda>ru. matches (ru_match ru) v) rs of
        None \<Rightarrow> \<lparr>dc_rule = [], dc_matched = False, dc_channels = def\<rparr>
      | Some ru \<Rightarrow> \<lparr>dc_rule = ru_name ru, dc_matched = True, dc_channels = ru_channels ru\<rparr>)"
  by (induction rs) auto

text \<open>
  C22: the routing preview tells the truth. When an ingestion that runs alone answers 201, exactly one event was added, with the type, severity, source and
  category of the report, and \<^verbatim>\<open>POST /v1/routing/preview\<close> answers for these four with the name of the first rule whose conditions hold for that event (none
  if there is no such rule) and the names of its channels (of the default then); the attempts added with the event are one pending
  alert per named channel, in that order.
\<close>

theorem preview_predicts_ingest:
  assumes "run_alone (handleIngest a rd who r) st = (x, st')" "rs_status x = 201"
    and "rq_body r = Some body" "ap_event_input a body = Some inp" "ap_routing a = is_router (ap_ingest a)"
  shows "\<exists>e rule names added decides.
           decides = find (\<lambda>ru. matches (ru_match ru) (eventValuesOf (ap_lower a) e)) (ro_rules (ap_routing a)) \<and>
           rule = (case decides of None \<Rightarrow> [] | Some ru \<Rightarrow> ru_name ru) \<and>
           names = map ct_name (case decides of None \<Rightarrow> ro_def (ap_routing a) | Some ru \<Rightarrow> ru_channels ru) \<and>
           ev_type e = in_type inp \<and> ev_severity e = (if in_severity inp = SeverityOther [] then SeverityInfo else in_severity inp) \<and>
           ev_source e = TrimSpace (in_source inp) \<and> ev_category e = TrimSpace (in_category inp) \<and>
           st_events st' = st_events st @ [event_row e] \<and> st_attempts st' = st_attempts st @ added \<and>
           preview_answer a \<lparr>pr_type = in_type inp, pr_severity = in_severity inp, pr_source = in_source inp, pr_category = in_category inp\<rparr> =
             writeJSON 200 (RoutingPreviewView rule names) \<and>
           map dr_channel_name added = names \<and>
           list_all (\<lambda>d. dr_event_id d = ev_id e \<and> dr_kind d = KindAlert \<and> dr_state d = DeliveryPending \<and> dr_attempts d = 0) added"
proof -
  let ?I = "IngestFor (ap_lower a) (ap_ingest a) (ar_ids rd) (ar_now rd) inp (ca_sources who)"
  obtain y st1 where run: "run_alone ?I st = (y, st1)" by force
  have x: "x = ingest_answer who y \<and> st1 = st'"
    using assms(1-4) run by (auto simp: handleIngest_def run_alone_map readBody_def split: if_splits)
  then obtain res where y: "y = Inr res" "ir_outcome res = OutcomeCreated"
    using assms(2) by (cases y) (auto simp: ingest_answer_def Let_def domain_error_201 writeJSON_def respond_def split: option.splits if_splits)
  with run x IngestFor_created [of "ap_lower a" "ap_ingest a" "ar_ids rd" "ar_now rd" inp "ca_sources who" st res st']
  obtain inp' i where i: "validateInput inp = Inr inp'" "in_status inp \<noteq> StatusResolved"
    "created_as (ap_lower a) (ap_ingest a) (ar_now rd) (eventOf inp' i (ar_now rd)) st st'" by auto
  define e where "e = eventOf inp' i (ar_now rd)"
  define d where "d = Route (ap_lower a) (is_router (ap_ingest a)) e"
  obtain ids where att: "st_events st' = st_events st @ [event_row e]"
    "st_attempts st' = st_attempts st @ map deliveryArgs (buildDeliveries (ap_ingest a) ids (ev_id e) (dc_channels d) (ar_now rd))"
    using i(3) by (auto simp: created_as_def e_def d_def)
  note v = validated [OF i(1,2)]
  have "preview_answer a \<lparr>pr_type = in_type inp, pr_severity = in_severity inp, pr_source = in_source inp, pr_category = in_category inp\<rparr> =
      writeJSON 200 (RoutingPreviewView (dc_rule d) (map ct_name (dc_channels d)))"
    using v preview_route [of "ap_lower a" "ap_routing a" inp' i "ar_now rd"] by (simp add: preview_answer_def Let_def d_def e_def assms(5) split: if_splits)
  moreover have "ev_type e = in_type inp" "ev_severity e = (if in_severity inp = SeverityOther [] then SeverityInfo else in_severity inp)"
    "ev_source e = TrimSpace (in_source inp)" "ev_category e = TrimSpace (in_category inp)" using v(3) by (simp_all add: e_def eventOf_def)
  moreover define decides where "decides = find (\<lambda>ru. matches (ru_match ru) (eventValuesOf (ap_lower a) e)) (ro_rules (ap_routing a))"
  moreover have "dc_rule d = (case decides of None \<Rightarrow> [] | Some ru \<Rightarrow> ru_name ru)"
      "dc_channels d = (case decides of None \<Rightarrow> ro_def (ap_routing a) | Some ru \<Rightarrow> ru_channels ru)"
    by (auto simp: d_def Route_def route_rules_find decides_def assms(5) split: option.split)
  ultimately show ?thesis
    using att new_alert_rows [of "ap_ingest a" ids "ev_id e" "dc_channels d" "ar_now rd"]
    by (intro exI [of _ e] exI [of _ "dc_rule d"] exI [of _ "map ct_name (dc_channels d)"]
        exI [of _ "map deliveryArgs (buildDeliveries (ap_ingest a) ids (ev_id e) (dc_channels d) (ar_now rd))"] exI [of _ decides]) simp
qed

end
