(* ===== verification/Api_Examples.thy ===== *)
theory Api_Examples
  imports Api_Properties Examples
begin

text \<open>
  Requests to the JSON API on the store of the example run, on which the properties of \<open>Api_Properties\<close> are applied: a report of an
  incident, a report with a key for another source, and a read.
\<close>

definition ex_report :: EventInput where
  "ex_report =
     \<lparr>in_status = StatusFiring, in_type = EventIncident, in_severity = SeverityOther [], in_source = '' disk '', in_category = [], in_message = ''full'',
      in_entity_type = [], in_entity_id = [], in_trace_id = [], in_dedupe_key = ''k'', in_payload = []\<rparr>"

definition ex_api :: api where
  "ex_api =
     \<lparr>ap_lower = id, ap_db_lower = ToLower id, ap_ingest = NewIngestService (Some (NewAllChannels [ex_ops])) 2 (Some 3), ap_recovery = Some 3,
      ap_routing = NewAllChannels [ex_ops], ap_version = [], ap_event_input = (\<lambda>b. if b = ''firing'' then Some ex_report else if b = ''resolved'' then Some (ex_report\<lparr>in_status := StatusResolved, in_source := []\<rparr>) else None),
      ap_preview_input = (\<lambda>_. None)\<rparr>"

definition ex_readings :: api_readings where
  "ex_readings = \<lparr>ar_now = 70, ar_ids = (\<lambda>i k. ex_ids (10 * i + k)), ar_ingest_allowed = True, ar_ping = True\<rparr>"

definition ex_request :: "string \<Rightarrow> string \<Rightarrow> request" where
  "ex_request m body = demo_request\<lparr>rq_method := m, rq_body := Some body\<rparr>"

definition ex_caller :: "string \<Rightarrow> string list option \<Rightarrow> caller" where
  "ex_caller scope sources = \<lparr>ca_scope = scope, ca_sources = sources\<rparr>"

lemma ex_inv: "inv ex_st1"
  using core.everywhere [OF ex_run1] by (simp add: sys_inv_def ex_s1_def)

lemma ex_budget: "0 < is_max_attempts (ap_ingest ex_api)"
  by (simp add: ex_api_def NewIngestService_budget)

theorem api_keeps_store_sound_witness:
  "inv (fst (snd (run_state (the (serve_api ex_api ex_readings (ex_caller ScopeFull None) (ex_request ''POST'' ''resolved'') [''events''] (\<lambda>_. []))) (ex_st1, []))))"
proof -
  obtain m where m: "serve_api ex_api ex_readings (ex_caller ScopeFull None) (ex_request ''POST'' ''resolved'') [''events''] (\<lambda>_. []) = Some m"
    by (simp add: serve_api_def api_route_def ex_request_def)
  obtain x st' es' where "run_state m (ex_st1, []) = (x, st', es')" by (metis prod_cases3)
  with api_keeps_store_sound [OF ex_budget m ex_inv rely_Nil this] m show ?thesis by simp
qed

theorem reader_never_writes_witness:
  "fst (snd (run_state (the (serve_api ex_api ex_readings (ex_caller ScopeRead None) (ex_request ''GET'' []) [''stats''] (\<lambda>_. []))) (ex_st1, []))) = ex_st1"
proof -
  obtain m where m: "serve_api ex_api ex_readings (ex_caller ScopeRead None) (ex_request ''GET'' []) [''stats''] (\<lambda>_. []) = Some m"
    by (simp add: serve_api_def api_route_def ex_request_def reads_def)
  obtain x st' es' where r: "run_state m (ex_st1, []) = (x, st', es')" by (metis prod_cases3)
  have "st' = ex_st1" by (rule reader_never_writes [OF _ m _ _ r]) (simp_all add: ex_caller_def)
  with m r show ?thesis by simp
qed

theorem ingest_key_confined_witness:
  "hd (st_events ex_st1) \<in> set (st_events (fst (snd (run_state (the (serve_api ex_api ex_readings (ex_caller ScopeIngest (Some [''other''])) (ex_request ''POST'' ''resolved'') [''events''] (\<lambda>_. []))) (ex_st1, [])))))"
proof -
  let ?w = "ex_caller ScopeIngest (Some [''other''])"
  obtain m where m: "serve_api ex_api ex_readings ?w (ex_request ''POST'' ''resolved'') [''events''] (\<lambda>_. []) = Some m"
    by (simp add: serve_api_def api_route_def ex_request_def)
  obtain x st' es' where r: "run_state m (ex_st1, []) = (x, st', es')" by (metis prod_cases3)
  have e: "hd (st_events ex_st1) \<in> set (st_events ex_st1)" "ev_source (hd (st_events ex_st1)) \<notin> set [''other'']" by code_simp+
  have "ca_scope ?w = ScopeIngest" "ca_sources ?w = Some [''other'']" by (simp_all add: ex_caller_def)
  from ingest_key_confined [OF this ex_budget m r ex_inv e rely_Nil] m r show ?thesis by simp
qed

lemma ex_valid: "validateInput ex_report = Inr (ex_report\<lparr>in_severity := SeverityInfo\<rparr>)"
proof -
  have "TrimSpace ''k'' \<noteq> []" "TrimSpace '' disk '' \<noteq> []" "TrimSpace ''full'' \<noteq> []" "ValidSeverity SeverityInfo" by code_simp+
  then show ?thesis
    by (simp add: validateInput_def ex_report_def MaxPayloadBytes_def ValidIngestStatus_def ValidEventType_def)
qed

theorem preview_predicts_ingest_witness:
  "\<exists>added. st_attempts (snd (run_alone (handleIngest ex_api ex_readings (ex_caller ScopeFull None) (ex_request ''POST'' ''firing'')) empty_store)) = added \<and>
     map dr_channel_name added = [''ops'']"
proof -
  let ?m = "handleIngest ex_api ex_readings (ex_caller ScopeFull None) (ex_request ''POST'' ''firing'')"
  obtain x st' where r: "run_alone ?m empty_store = (x, st')" by force
  have "readBody maxIngestBody (ex_request ''POST'' ''firing'') = (Inr ''firing'' :: api_view outcome + string)"
    by (simp add: readBody_def ex_request_def maxIngestBody_def MaxPayloadBytes_def)
  moreover have "IngestFor (ap_lower ex_api) (ap_ingest ex_api) (ar_ids ex_readings) (ar_now ex_readings) ex_report None =
      ingest_event id (NewIngestService (Some (NewAllChannels [ex_ops])) 2 (Some 3)) (ar_ids ex_readings) 70 (ex_report\<lparr>in_severity := SeverityInfo\<rparr>) None"
    by (simp add: IngestFor_def ex_valid Let_def ex_api_def ex_readings_def) (simp add: ex_report_def)
  moreover have "rs_status (ingest_answer (ex_caller ScopeFull None) (fst (run_alone (ingest_event id (NewIngestService (Some (NewAllChannels [ex_ops])) 2 (Some 3))
      (ar_ids ex_readings) 70 (ex_report\<lparr>in_severity := SeverityInfo\<rparr>) None) empty_store))) = 201" by code_simp
  moreover have "ap_event_input ex_api ''firing'' = Some ex_report" "ca_sources (ex_caller ScopeFull None) = None" by (simp_all add: ex_api_def ex_caller_def)
  ultimately have s: "rs_status x = 201" using r by (auto simp: handleIngest_def run_alone_map)
  have b: "rq_body (ex_request ''POST'' ''firing'') = Some ''firing''" "ap_event_input ex_api ''firing'' = Some ex_report"
    "ap_routing ex_api = is_router (ap_ingest ex_api)" by (simp_all add: ex_request_def ex_api_def NewIngestService_def)
  have "(case rs_body (preview_answer ex_api \<lparr>pr_type = in_type ex_report, pr_severity = in_severity ex_report, pr_source = in_source ex_report,
      pr_category = in_category ex_report\<rparr>) of ViewBody (RoutingPreviewView rule names) \<Rightarrow> names | _ \<Rightarrow> []) = [''ops'']" by code_simp
  with preview_predicts_ingest [OF r s b] r show ?thesis by (auto simp: writeJSON_def respond_def empty_store_def)
qed

end
