(* ===== verification/Go_Strings.thy ===== *)
theory Go_Strings
  imports Go_Text
begin

text \<open>
  More of Go's package \<^verbatim>\<open>strings\<close>, as the configuration and the channels use it, on strings as lists of bytes.
\<close>

definition TrimRight :: "string \<Rightarrow> char \<Rightarrow> string" where
  "TrimRight s c = rev (dropWhile (\<lambda>x. x = c) (rev s))"

fun Contains :: "string \<Rightarrow> string \<Rightarrow> bool" where
  "Contains [] t = (t = [])"
| "Contains (c # s) t = (HasPrefix (c # s) t \<or> Contains s t)"

definition HasSuffix :: "string \<Rightarrow> string \<Rightarrow> bool" where
  "HasSuffix s t = HasPrefix (rev s) (rev t)"

fun Join :: "string list \<Rightarrow> string \<Rightarrow> string" where
  "Join [] sep = []"
| "Join [s] sep = s"
| "Join (s # ss) sep = s @ sep @ Join ss sep"

text \<open>\<^verbatim>\<open>strings.ReplaceAll\<close> with a non-empty text to replace: from the left, without looking at what was put in.\<close>

function ReplaceAll :: "string \<Rightarrow> string \<Rightarrow> string \<Rightarrow> string" where
  "ReplaceAll s t r =
     (if s = [] \<or> t = [] then s
      else if HasPrefix s t then r @ ReplaceAll (drop (length t) s) t r
      else hd s # ReplaceAll (tl s) t r)"
  by pat_completeness auto

termination by (relation "measure (\<lambda>(s, _, _). length s)") auto

declare ReplaceAll.simps [simp del]

definition RuneError :: string where "RuneError = [CHR 0xEF, CHR 0xBF, CHR 0xBD]"

text \<open>A character as Go writes it back: a byte that is no character becomes U+FFFD.\<close>

definition fix_rune :: "string \<Rightarrow> string" where
  "fix_rune r = (case r of [c] \<Rightarrow> if (of_char c :: nat) < 128 then r else RuneError | _ \<Rightarrow> r)"

text \<open>\<^verbatim>\<open>strings.Fields\<close>: the runs of characters that are no spaces.\<close>

fun fields_of :: "string \<Rightarrow> string list \<Rightarrow> string list" where
  "fields_of w [] = (if w = [] then [] else [w])"
| "fields_of w (r # rs) =
     (if r \<in> set spaces then (if w = [] then fields_of [] rs else w # fields_of [] rs) else fields_of (w @ r) rs)"

definition Fields :: "string \<Rightarrow> string list" where
  "Fields s = fields_of [] (runes s)"

text \<open>\<^verbatim>\<open>url.QueryEscape\<close>.\<close>

definition QueryEscape :: "string \<Rightarrow> string" where
  "QueryEscape s =
     concat (map (\<lambda>c. if unreserved c then [c] else if c = CHR '' '' then ''+''
                      else (let n = (of_char c :: nat) in CHR ''%'' # [upperhex (n div 16), upperhex (n mod 16)])) s)"

subsection \<open>Lemmas\<close>

lemma Contains_iff: "Contains s t \<longleftrightarrow> sublist t s"
  by (induction s t rule: Contains.induct) (auto simp: HasPrefix_iff_prefix sublist_Cons_right)

lemma HasSuffix_iff: "HasSuffix s t \<longleftrightarrow> suffix t s"
  by (simp add: HasSuffix_def HasPrefix_iff_prefix suffix_to_prefix)

lemma TrimRight_idem [simp]: "TrimRight (TrimRight s c) c = TrimRight s c"
  by (simp add: TrimRight_def dropWhile_idem)

lemma TrimRight_last: "TrimRight s c \<noteq> [] \<Longrightarrow> last (TrimRight s c) \<noteq> c"
  by (metis (mono_tags, lifting) TrimRight_def hd_dropWhile last_rev rev_is_Nil_conv)

lemma ReplaceAll_absent: "\<not> sublist t s \<Longrightarrow> ReplaceAll s t r = s"
proof (induction s t r rule: ReplaceAll.induct)
  case (1 s t r)
  show ?case
  proof (cases s)
    case (Cons c s')
    with 1 show ?thesis by (simp add: ReplaceAll.simps [of "c # s'"] HasPrefix_iff_prefix sublist_Cons_right)
  qed (simp add: ReplaceAll.simps)
qed

text \<open>
  Replacing by a run of a character that the text sought does not have: no occurrence is left, and nothing that was absent
  and does not have the character appears.
\<close>

lemma ReplaceAll_prefix:
  assumes "k \<notin> set u" "prefix u (ReplaceAll s t (replicate (Suc n) k))"
  shows "prefix u s"
  using assms
proof (induction s t "replicate (Suc n) k" arbitrary: u rule: ReplaceAll.induct)
  case (1 s t)
  show ?case
  proof (cases "s = [] \<or> t = []")
    case False
    show ?thesis
    proof (cases u)
      case (Cons c u')
      then have nh: "\<not> HasPrefix s t" using "1.prems" False by (auto simp: ReplaceAll.simps [of s])
      then have "c = hd s" "prefix u' (ReplaceAll (tl s) t (replicate (Suc n) k))"
        using "1.prems" False Cons by (simp_all add: ReplaceAll.simps [of s])
      then have "prefix u' (tl s)" using "1.hyps"(2) [OF False nh, of u'] "1.prems"(1) Cons by simp
      with False Cons \<open>c = hd s\<close> show ?thesis by (cases s) simp_all
    qed simp
  qed (use "1.prems" in \<open>simp add: ReplaceAll.simps [of s]\<close>)
qed

lemma sublist_run_append:
  assumes "k \<notin> set u" "u \<noteq> []" "sublist u (replicate n k @ r)"
  shows "sublist u r"
  using assms(3)
proof (induction n)
  case (Suc n)
  with assms(1,2) show ?case by (cases u) (auto simp: sublist_Cons_right)
qed simp

lemma ReplaceAll_gone:
  assumes "k \<notin> set u" "u \<noteq> []" "u = t \<or> \<not> sublist u s"
  shows "\<not> sublist u (ReplaceAll s t (replicate (Suc n) k))"
  using assms(3)
proof (induction s t "replicate (Suc n) k" rule: ReplaceAll.induct)
  case (1 s t)
  let ?r = "replicate (Suc n) k"
  show ?case
  proof (cases "s = [] \<or> t = []")
    case False
    show ?thesis
    proof (cases "HasPrefix s t")
      case True
      have "u = t \<or> \<not> sublist u (drop (length t) s)" using "1.prems" by (meson sublist_drop sublist_order.order_trans)
      then have "\<not> sublist u (ReplaceAll (drop (length t) s) t ?r)" using "1.hyps"(1) [OF False True] by simp
      then show ?thesis
        using True False sublist_run_append [OF assms(1,2), of "Suc n"] by (auto simp: ReplaceAll.simps [of s] simp del: replicate.simps)
    next
      case nh: False
      have tls: "u = t \<or> \<not> sublist u (tl s)" using "1.prems" False by (cases s) (auto simp: sublist_Cons_right)
      have "\<not> prefix u (ReplaceAll s t ?r)"
        using ReplaceAll_prefix [OF assms(1), of s t n] "1.prems" prefix_imp_sublist [of u s] nh by (auto simp: HasPrefix_iff_prefix)
      moreover have "ReplaceAll s t ?r = hd s # ReplaceAll (tl s) t ?r" using False nh by (simp add: ReplaceAll.simps [of s])
      ultimately show ?thesis using "1.hyps"(2) [OF False nh] tls by (simp add: sublist_Cons_right del: replicate.simps)
    qed
  qed (use "1.prems" assms(2) in \<open>auto simp: ReplaceAll.simps [of s]\<close>)
qed

subsection \<open>Characters\<close>

text \<open>A character that stands for itself wherever it is written.\<close>

definition whole_rune :: "string \<Rightarrow> bool" where
  "whole_rune r = (rune_valid r \<and> rune_width r = length r)"

lemma whole_rune_append:
  assumes "whole_rune r"
  shows "runes (r @ s) = r # runes s"
proof -
  have r: "rune_valid r" "rune_width r = length r" using assms by (simp_all add: whole_rune_def)
  then have ne: "r \<noteq> []" by (auto simp: rune_valid_def)
  have n: "lead_size (of_char (r ! 0)) = length r" using r ne by (cases r) (auto simp: rune_width_def)
  have "rune_valid (r @ s)" using r(1) ne n by (simp add: rune_valid_iff nth_append)
  then have "rune_width (r @ s) = length r" using n ne by (cases r) (auto simp: rune_width_def)
  with ne show ?thesis by (simp add: runes.simps [of "r @ s"])
qed

lemma runes_concat: "list_all whole_rune rs \<Longrightarrow> runes (concat rs) = rs"
  by (induction rs) (simp_all add: whole_rune_append)

lemma runes_concat_append: "list_all whole_rune rs \<Longrightarrow> runes (concat rs @ s) = rs @ runes s"
  by (induction rs) (simp_all add: whole_rune_append)

lemma rune_cases:
  assumes "r \<in> set (runes s)"
  obtains "whole_rune r" | c where "r = [c]" "128 \<le> (of_char c :: nat)"
  using assms
proof (induction s arbitrary: thesis rule: runes.induct)
  case (1 s)
  then have ne: "s \<noteq> []" by auto
  show ?case
  proof (cases "r = take (rune_width s) s")
    case True
    have w: "rune_width s \<le> length s" "prefix r s" using rune_width_le [of s] True by (simp_all add: take_is_prefix)
    then have l: "length r = rune_width s" using True by simp
    have rne: "r \<noteq> []" using l rune_width_pos [OF ne] by auto
    have v: "rune_valid r = rune_valid s" "rune_width r = rune_width s"
      using l w(2) rne by (simp_all add: rune_valid_local rune_width_local)
    show ?thesis
    proof (cases "rune_valid s")
      case True
      with v l "1.prems"(1) show ?thesis by (simp add: whole_rune_def)
    next
      case False
      then obtain c where "r = [c]" using l ne rne by (cases s; cases r) (auto simp: rune_width_def)
      moreover from this False v(1) have "128 \<le> (of_char c :: nat)" by (auto simp: rune_valid_def lead_size_def split: if_splits)
      ultimately show ?thesis using "1.prems"(2) by blast
    qed
  next
    case False
    with "1.prems"(3) ne have "r \<in> set (runes (drop (rune_width s) s))" by (simp add: runes.simps [of s])
    with "1.IH" [OF ne] "1.prems"(1,2) show ?thesis by blast
  qed
qed

lemma whole_fix_rune:
  assumes "r \<in> set (runes s)"
  shows "whole_rune (fix_rune r)"
proof -
  have e: "whole_rune RuneError" by code_simp
  show ?thesis
    using assms
  proof (cases rule: rune_cases)
    case 1
    then have "r = [c] \<Longrightarrow> (of_char c :: nat) < 128" for c
      by (auto simp: whole_rune_def rune_valid_def lead_size_def split: if_splits)
    with 1 show ?thesis by (auto simp: fix_rune_def split: list.split)
  qed (use e in \<open>simp add: fix_rune_def\<close>)
qed

end
