(* ===== verification/Go_Marshal.thy ===== *)
theory Go_Marshal
  imports Go_Encode Go_Strings
begin

text \<open>
  What the channels use of package \<^verbatim>\<open>encoding/json\<close> to write their messages: values, and their text without spaces. The fields
  of a struct come in the order of its declaration, the entries of a map in the order of its keys; fields that
  \<^verbatim>\<open>omitempty\<close> leaves out are not in the list. The flag \<open>esc\<close> is the escaping of HTML, which \<^verbatim>\<open>json.Marshal\<close> does and an encoder with
  \<^verbatim>\<open>SetEscapeHTML(false)\<close> does not.
\<close>

datatype json = JNull | JBool bool | JInt int | JStr string | JArr "json list" | JObj "(string \<times> json) list"

definition lowerhex :: "nat \<Rightarrow> char" where
  "lowerhex n = ''0123456789abcdef'' ! n"

definition json_byte :: "bool \<Rightarrow> char \<Rightarrow> string" where
  "json_byte esc c =
     (let n = (of_char c :: nat); bs = CHR 0x5C in
      if c = CHR 0x22 \<or> c = bs then [bs, c]
      else if n = 8 then [bs, CHR ''b''] else if n = 12 then [bs, CHR ''f''] else if n = 10 then [bs, CHR ''n'']
      else if n = 13 then [bs, CHR ''r''] else if n = 9 then [bs, CHR ''t'']
      else if n < 32 \<or> esc \<and> (c = CHR ''<'' \<or> c = CHR ''>'' \<or> c = CHR ''&'') then [bs] @ ''u00'' @ [lowerhex (n div 16), lowerhex (n mod 16)]
      else if n < 128 then [c]
      else [bs] @ ''ufffd'')"

definition json_rune :: "bool \<Rightarrow> string \<Rightarrow> string" where
  "json_rune esc r =
     (case r of
        [c] \<Rightarrow> json_byte esc c
      | _ \<Rightarrow> if r = [CHR 0xE2, CHR 0x80, CHR 0xA8] then [CHR 0x5C] @ ''u2028''
             else if r = [CHR 0xE2, CHR 0x80, CHR 0xA9] then [CHR 0x5C] @ ''u2029'' else r)"

definition json_chars :: "bool \<Rightarrow> string \<Rightarrow> string" where
  "json_chars esc s = concat (map (json_rune esc) (runes s))"

definition json_string :: "bool \<Rightarrow> string \<Rightarrow> string" where
  "json_string esc s = [CHR 0x22] @ json_chars esc s @ [CHR 0x22]"

definition Itoa_int :: "int \<Rightarrow> string" where
  "Itoa_int i = (if i < 0 then CHR ''-'' # Itoa (nat (- i)) else Itoa (nat i))"

fun json_encode :: "bool \<Rightarrow> json \<Rightarrow> string" where
  "json_encode esc JNull = ''null''"
| "json_encode esc (JBool b) = (if b then ''true'' else ''false'')"
| "json_encode esc (JInt i) = Itoa_int i"
| "json_encode esc (JStr s) = json_string esc s"
| "json_encode esc (JArr vs) = ''['' @ Join (map (json_encode esc) vs) '','' @ '']''"
| "json_encode esc (JObj kvs) = ''{'' @ Join (map (\<lambda>(k, v). json_string esc k @ '':'' @ json_encode esc v) kvs) '','' @ ''}''"

end
