(* ===== verification/Config.thy ===== *)
theory Config
  imports Routing Rate_Limit Go_Strings "HOL-Library.Multiset"
begin

text \<open>
  \<^verbatim>\<open>internal/config/config.go\<close> after the file has been decoded: the sections of the configuration, their defaults, and the
  checks that run before anything is opened. \<open>sources\<close> of a key is an option, since Go tells a missing list from an empty
  one. Go ranges over a map of the three kinds of chat channels in no fixed order: the order is the argument \<open>kinds\<close> of
  \<open>Validate\<close>. Parsing URLs and addresses and \<^verbatim>\<open>unicode.ToLower\<close> are functions of \<open>golib\<close>.
\<close>

subsection \<open>Sections\<close>

record RateLimit =
  rl_enabled :: bool
  rl_per_ip_per_second :: rat
  rl_per_ip_burst :: int
  rl_ingest_per_second :: rat
  rl_ingest_burst :: int
  rl_trusted_proxies :: "string list"

record APIKey =
  ak_key :: string
  ak_scope :: string
  ak_sources :: "string list option"

record Logging =
  lg_level :: string
  lg_format :: string
  lg_file :: string

record Database =
  dc_driver :: string
  dc_dsn :: string

record WorkerConfig =
  wo_concurrency :: int
  wo_poll_interval :: duration
  wo_max_attempts :: int
  wo_base_backoff :: duration
  wo_max_backoff :: duration

record ChatChannel =
  cc_name :: string
  cc_url :: string
  cc_timeout :: duration
  cc_fallback :: string

record NtfyChannel =
  nc_name :: string
  nc_server :: string
  nc_topic :: string
  nc_token :: string
  nc_username :: string
  nc_password :: string
  nc_timeout :: duration
  nc_fallback :: string

record PushoverChannel =
  pc_name :: string
  pc_token :: string
  pc_user_key :: string
  pc_timeout :: duration
  pc_fallback :: string

record EmailChannel =
  ec_name :: string
  ec_host :: string
  ec_port :: int
  ec_username :: string
  ec_password :: string
  ec_from :: string
  ec_to :: "string list"
  ec_starttls :: bool
  ec_tls :: bool
  ec_timeout :: duration
  ec_fallback :: string

record TelegramChannel =
  tc_name :: string
  tc_bot_token :: string
  tc_chat_id :: string
  tc_api_base :: string
  tc_proxy :: string
  tc_timeout :: duration
  tc_fallback :: string

record WebhookChannel =
  wc_name :: string
  wc_url :: string
  wc_secret :: string
  wc_timeout :: duration
  wc_fallback :: string

record Channels =
  cs_email :: "EmailChannel list"
  cs_telegram :: "TelegramChannel list"
  cs_webhook :: "WebhookChannel list"
  cs_slack :: "ChatChannel list"
  cs_teams :: "ChatChannel list"
  cs_discord :: "ChatChannel list"
  cs_ntfy :: "NtfyChannel list"
  cs_pushover :: "PushoverChannel list"

record Config =
  cf_addr :: string
  cf_admin_token :: string
  cf_public_url :: string
  cf_api_keys :: "APIKey list"
  cf_database :: Database
  cf_worker :: WorkerConfig
  cf_channels :: Channels
  cf_log :: Logging
  cf_rate_limit :: RateLimit
  cf_routing :: "Routing option"
  cf_notify_on_resolve :: "bool option"
  cf_retention_days :: int
  cf_warnings :: "string list"

definition Default :: Config where
  "Default =
     \<lparr>cf_addr = '':8080'', cf_admin_token = [], cf_public_url = [], cf_api_keys = [],
      cf_database = \<lparr>dc_driver = ''sqlite'', dc_dsn = ''alertloop.db''\<rparr>,
      cf_worker = \<lparr>wo_concurrency = 2, wo_poll_interval = 2 * Second, wo_max_attempts = 5,
                   wo_base_backoff = 30 * Second, wo_max_backoff = 30 * Minute\<rparr>,
      cf_channels = \<lparr>cs_email = [], cs_telegram = [], cs_webhook = [], cs_slack = [], cs_teams = [], cs_discord = [],
                     cs_ntfy = [], cs_pushover = []\<rparr>,
      cf_log = \<lparr>lg_level = ''info'', lg_format = ''text'', lg_file = []\<rparr>,
      cf_rate_limit = \<lparr>rl_enabled = True, rl_per_ip_per_second = 20, rl_per_ip_burst = 40, rl_ingest_per_second = 100,
                       rl_ingest_burst = 200, rl_trusted_proxies = []\<rparr>,
      cf_routing = None, cf_notify_on_resolve = None, cf_retention_days = 30, cf_warnings = []\<rparr>"

definition ShouldNotifyOnResolve :: "Config \<Rightarrow> bool" where
  "ShouldNotifyOnResolve c = (cf_notify_on_resolve c = None \<or> cf_notify_on_resolve c = Some True)"

text \<open>The names of the channels with their fallbacks, in the order of the source.\<close>

definition named_fallbacks :: "Channels \<Rightarrow> (string \<times> string) list" where
  "named_fallbacks c =
     map (\<lambda>e. (ec_name e, ec_fallback e)) (cs_email c) @
     map (\<lambda>t. (tc_name t, tc_fallback t)) (cs_telegram c) @
     map (\<lambda>w. (wc_name w, wc_fallback w)) (cs_webhook c) @
     map (\<lambda>h. (cc_name h, cc_fallback h)) (cs_slack c @ cs_teams c @ cs_discord c) @
     map (\<lambda>t. (nc_name t, nc_fallback t)) (cs_ntfy c) @
     map (\<lambda>p. (pc_name p, pc_fallback p)) (cs_pushover c)"

definition add_fallback :: "(string \<rightharpoonup> string) \<Rightarrow> string \<times> string \<Rightarrow> (string \<rightharpoonup> string)" where
  "add_fallback out nf = (if snd nf \<noteq> [] then out(fst nf \<mapsto> snd nf) else out)"

definition Fallbacks :: "Channels \<Rightarrow> string \<rightharpoonup> string" where
  "Fallbacks c = foldl add_fallback Map.empty (named_fallbacks c)"

text \<open>\<^verbatim>\<open>slices.Sorted(maps.Keys(fallbacks))\<close>.\<close>

definition fallback_names :: "Channels \<Rightarrow> string list" where
  "fallback_names c = sort (remdups (map fst (filter (\<lambda>nf. snd nf \<noteq> []) (named_fallbacks c))))"

subsection \<open>Defaults and normal forms\<close>

definition defaultSMTPPort :: int where "defaultSMTPPort = 587"
definition defaultTelegramBase :: string where "defaultTelegramBase = ''https://api.telegram.org''"
definition defaultNtfyServer :: string where "defaultNtfyServer = ''https://ntfy.sh''"

definition default_timeout :: "duration \<Rightarrow> duration" where
  "default_timeout t = (if t = 0 then DefaultChannelTimeout else t)"

definition normalizeChannels :: "Channels \<Rightarrow> Channels" where
  "normalizeChannels c =
     c\<lparr>cs_email := map (\<lambda>e. e\<lparr>ec_port := (if ec_port e = 0 then defaultSMTPPort else ec_port e),
                             ec_timeout := default_timeout (ec_timeout e)\<rparr>) (cs_email c),
       cs_telegram := map (\<lambda>t. t\<lparr>tc_api_base := (if tc_api_base t = [] then defaultTelegramBase else tc_api_base t),
                                tc_timeout := default_timeout (tc_timeout t)\<rparr>) (cs_telegram c),
       cs_webhook := map (\<lambda>w. w\<lparr>wc_timeout := default_timeout (wc_timeout w)\<rparr>) (cs_webhook c),
       cs_slack := map (\<lambda>h. h\<lparr>cc_timeout := default_timeout (cc_timeout h)\<rparr>) (cs_slack c),
       cs_teams := map (\<lambda>h. h\<lparr>cc_timeout := default_timeout (cc_timeout h)\<rparr>) (cs_teams c),
       cs_discord := map (\<lambda>h. h\<lparr>cc_timeout := default_timeout (cc_timeout h)\<rparr>) (cs_discord c),
       cs_ntfy := map (\<lambda>t. t\<lparr>nc_server := (if nc_server t = [] then defaultNtfyServer else nc_server t),
                            nc_timeout := default_timeout (nc_timeout t)\<rparr>) (cs_ntfy c),
       cs_pushover := map (\<lambda>p. p\<lparr>pc_timeout := default_timeout (pc_timeout p)\<rparr>) (cs_pushover c)\<rparr>"

definition inferDriver :: "string \<Rightarrow> string" where
  "inferDriver dsn =
     (if HasPrefix dsn ''postgres://'' \<or> HasPrefix dsn ''postgresql://'' \<or> Contains dsn ''host='' then ''postgres''
      else ''sqlite'')"

definition normalize_key :: "APIKey \<Rightarrow> APIKey" where
  "normalize_key k =
     k\<lparr>ak_scope := (if ak_scope k = [] then ScopeFull else ak_scope k), ak_sources := map_option (map TrimSpace) (ak_sources k)\<rparr>"

text \<open>What \<^verbatim>\<open>Load\<close> does with the decoded file.\<close>

definition finish_load :: "Config \<Rightarrow> Config" where
  "finish_load c =
     c\<lparr>cf_channels := normalizeChannels (cf_channels c),
       cf_public_url := TrimRight (TrimSpace (cf_public_url c)) (CHR ''/''),
       cf_api_keys := map normalize_key (cf_api_keys c),
       cf_database := (cf_database c)\<lparr>dc_driver := (if dc_driver (cf_database c) = [] then inferDriver (dc_dsn (cf_database c))
                                                    else dc_driver (cf_database c))\<rparr>\<rparr>"

subsection \<open>Addresses\<close>

datatype proxy_error = ProxyNotURL | ProxyScheme string | ProxyNoHost string | ProxyNoPort string string

definition proxySchemes :: "string list" where
  "proxySchemes = [''http'', ''https'', ''socks5'', ''socks5h'']"

definition ParseProxyURL :: "golib \<Rightarrow> string \<Rightarrow> proxy_error + url option" where
  "ParseProxyURL gl raw =
     (let s = TrimSpace raw in
      if s = [] then Inr None
      else (case gl_ParseURL gl s of
              None \<Rightarrow> Inl ProxyNotURL
            | Some u \<Rightarrow>
               (let scheme = ToLower (gl_lower gl) (ur_Scheme u) in
                if scheme \<notin> set proxySchemes then Inl (ProxyScheme (ur_Scheme u))
                else if ur_Hostname u = [] then Inl (ProxyNoHost scheme)
                else if ur_Port u = [] \<and> HasPrefix scheme ''socks5'' then Inl (ProxyNoPort scheme (ur_Hostname u))
                else Inr (Some u))))"

definition SafeProxyURL :: "url option \<Rightarrow> string" where
  "SafeProxyURL u = (case u of None \<Rightarrow> [] | Some v \<Rightarrow> ur_Scheme v @ ''://'' @ ur_Host v)"

definition web_url :: "golib \<Rightarrow> string \<Rightarrow> url option" where
  "web_url gl raw =
     (case gl_ParseURL gl raw of
        None \<Rightarrow> None
      | Some u \<Rightarrow> if ur_Scheme u \<noteq> ''http'' \<and> ur_Scheme u \<noteq> ''https'' \<or> ur_Host u = [] then None else Some u)"

definition checkHTTPURL :: "golib \<Rightarrow> string \<Rightarrow> bool" where
  "checkHTTPURL gl raw = (web_url gl raw \<noteq> None)"

datatype public_url_error = PublicNotHTTP string | PublicQuery string | PublicAdmin string

definition checkPublicURL :: "golib \<Rightarrow> string \<Rightarrow> public_url_error option" where
  "checkPublicURL gl raw =
     (if raw = [] then None
      else (case web_url gl raw of
              None \<Rightarrow> Some (PublicNotHTTP raw)
            | Some u \<Rightarrow>
                or_err (check (\<not> (ur_RawQuery u \<noteq> [] \<or> ur_ForceQuery u \<or> ur_Fragment u \<noteq> [])) (PublicQuery raw))
                       (check (\<not> HasSuffix (TrimRight (ur_Path u) (CHR ''/'')) ''/admin'') (PublicAdmin raw))))"

fun ParseTrustedProxies :: "golib \<Rightarrow> string list \<Rightarrow> string + TrustedProxies" where
  "ParseTrustedProxies gl [] = Inr []"
| "ParseTrustedProxies gl (e # es) =
     (let raw = TrimSpace e in
      if raw = [] then ParseTrustedProxies gl es
      else (case gl_ParseCIDR gl raw of
              Some block \<Rightarrow> map_sum id ((#) block) (ParseTrustedProxies gl es)
            | None \<Rightarrow>
               (case gl_ParseIP gl raw of
                  None \<Rightarrow> Inl raw
                | Some ip \<Rightarrow>
                    let bytes = (if To4 ip = None then 16 else 4) in
                    map_sum id ((#) (ip, replicate bytes 255)) (ParseTrustedProxies gl es))))"

subsection \<open>Logging\<close>

datatype Level = LevelDebug | LevelInfo | LevelWarn | LevelError

definition SlogLevel :: "golib \<Rightarrow> Logging \<Rightarrow> Level option" where
  "SlogLevel gl l =
     (let s = ToLower (gl_lower gl) (lg_level l) in
      if s = ''debug'' then Some LevelDebug
      else if s = [] \<or> s = ''info'' then Some LevelInfo
      else if s = ''warn'' \<or> s = ''warning'' then Some LevelWarn
      else if s = ''error'' then Some LevelError else None)"

definition log_JSON :: "golib \<Rightarrow> Logging \<Rightarrow> bool option" where
  "log_JSON gl l =
     (let s = ToLower (gl_lower gl) (lg_format l) in
      if s = [] \<or> s = ''text'' then Some False else if s = ''json'' then Some True else None)"

subsection \<open>Validation\<close>

datatype config_error =
    UnsupportedDriver string
  | MissingDSN
  | KeyMissing
  | KeyScope string
  | SourcesScope nat string
  | SourcesEmpty nat
  | SourcesBlank nat
  | MissingName string
  | DuplicateName string
  | Incomplete string string
  | BadProxy string proxy_error
  | BadURL string string
  | NtfyCredentials string
  | NtfyPassword string
  | FallbackSelf string
  | FallbackUnknown string string
  | BadRouting routing_error
  | BadPublicURL public_url_error
  | BadTrustedProxy string
  | BadLevel string
  | BadFormat string

definition check_key :: "nat \<Rightarrow> APIKey \<Rightarrow> config_error option" where
  "check_key i k =
     or_err (check (ak_key k \<noteq> []) KeyMissing)
    (or_err (check (ak_scope k = ScopeIngest \<or> ak_scope k = ScopeRead \<or> ak_scope k = ScopeFull) (KeyScope (ak_scope k)))
            (case ak_sources k of
               None \<Rightarrow> None
             | Some ss \<Rightarrow>
                 or_err (check (ak_scope k = ScopeIngest) (SourcesScope i (ak_scope k)))
                (or_err (check (ss \<noteq> []) (SourcesEmpty i)) (check ([] \<notin> set ss) (SourcesBlank i)))))"

definition checkName :: "string \<Rightarrow> string set \<Rightarrow> string \<Rightarrow> config_error + string set" where
  "checkName kind seen name =
     (if name = [] then Inl (MissingName kind)
      else if name \<in> seen then Inl (DuplicateName name)
      else Inr (insert name seen))"

text \<open>One loop over the channels of a kind: the name first, then the other fields.\<close>

fun check_channels :: "string \<Rightarrow> ('c \<Rightarrow> string) \<Rightarrow> ('c \<Rightarrow> config_error option) \<Rightarrow> 'c list \<Rightarrow> string set \<Rightarrow> config_error + string set" where
  "check_channels kind name rest [] seen = Inr seen"
| "check_channels kind name rest (c # cs) seen =
     (case checkName kind seen (name c) of
        Inl e \<Rightarrow> Inl e
      | Inr seen' \<Rightarrow> (case rest c of Some e \<Rightarrow> Inl e | None \<Rightarrow> check_channels kind name rest cs seen'))"

definition check_email :: "EmailChannel \<Rightarrow> config_error option" where
  "check_email e = check (\<not> (ec_host e = [] \<or> ec_from e = [] \<or> ec_to e = [])) (Incomplete ''email'' (ec_name e))"

definition check_telegram :: "golib \<Rightarrow> TelegramChannel \<Rightarrow> config_error option" where
  "check_telegram gl t =
     or_err (check (\<not> (tc_bot_token t = [] \<or> tc_chat_id t = [])) (Incomplete ''telegram'' (tc_name t)))
            (case ParseProxyURL gl (tc_proxy t) of Inl e \<Rightarrow> Some (BadProxy (tc_name t) e) | Inr _ \<Rightarrow> None)"

definition check_webhook :: "WebhookChannel \<Rightarrow> config_error option" where
  "check_webhook w = check (wc_url w \<noteq> []) (Incomplete ''webhook'' (wc_name w))"

definition check_chat :: "golib \<Rightarrow> string \<Rightarrow> ChatChannel \<Rightarrow> config_error option" where
  "check_chat gl kind h =
     or_err (check (cc_url h \<noteq> []) (Incomplete kind (cc_name h))) (check (checkHTTPURL gl (cc_url h)) (BadURL kind (cc_name h)))"

definition check_ntfy :: "golib \<Rightarrow> NtfyChannel \<Rightarrow> config_error option" where
  "check_ntfy gl t =
     or_err (check (nc_topic t \<noteq> []) (Incomplete ''ntfy'' (nc_name t)))
    (or_err (check (checkHTTPURL gl (nc_server t)) (BadURL ''ntfy'' (nc_name t)))
    (or_err (check (\<not> (nc_token t \<noteq> [] \<and> nc_username t \<noteq> [])) (NtfyCredentials (nc_name t)))
            (check ((nc_username t = []) = (nc_password t = [])) (NtfyPassword (nc_name t)))))"

definition check_pushover :: "PushoverChannel \<Rightarrow> config_error option" where
  "check_pushover p = check (\<not> (pc_token p = [] \<or> pc_user_key p = [])) (Incomplete ''pushover'' (pc_name p))"

definition chats :: "Channels \<Rightarrow> string \<Rightarrow> ChatChannel list" where
  "chats c kind =
     (if kind = ''slack'' then cs_slack c else if kind = ''teams'' then cs_teams c else if kind = ''discord'' then cs_discord c else [])"

fun check_chats :: "golib \<Rightarrow> Channels \<Rightarrow> string list \<Rightarrow> string set \<Rightarrow> config_error + string set" where
  "check_chats gl c [] seen = Inr seen"
| "check_chats gl c (kind # kinds) seen =
     (case check_channels kind cc_name (check_chat gl kind) (chats c kind) seen of
        Inl e \<Rightarrow> Inl e
      | Inr seen' \<Rightarrow> check_chats gl c kinds seen')"

text \<open>The loops in sequence; the result is the set \<^verbatim>\<open>seen\<close> of all channel names.\<close>

definition and_then :: "'e + 'a \<Rightarrow> ('a \<Rightarrow> 'e + 'b) \<Rightarrow> 'e + 'b" where
  "and_then m f = (case m of Inl e \<Rightarrow> Inl e | Inr a \<Rightarrow> f a)"

definition validate_channels :: "golib \<Rightarrow> string list \<Rightarrow> Channels \<Rightarrow> config_error + string set" where
  "validate_channels gl kinds c =
     and_then (check_channels ''email'' ec_name check_email (cs_email c) {})
    (\<lambda>seen1. and_then (check_channels ''telegram'' tc_name (check_telegram gl) (cs_telegram c) seen1)
    (\<lambda>seen2. and_then (check_channels ''webhook'' wc_name check_webhook (cs_webhook c) seen2)
    (\<lambda>seen3. and_then (check_chats gl c kinds seen3)
    (\<lambda>seen4. and_then (check_channels ''ntfy'' nc_name (check_ntfy gl) (cs_ntfy c) seen4)
    (check_channels ''pushover'' pc_name check_pushover (cs_pushover c))))))"

definition check_fallback :: "(string \<rightharpoonup> string) \<Rightarrow> string set \<Rightarrow> string \<Rightarrow> config_error option" where
  "check_fallback fallbacks seen name =
     (let fb = (case fallbacks name of Some f \<Rightarrow> f | None \<Rightarrow> []) in
      if fb = name then Some (FallbackSelf name) else if fb \<notin> seen then Some (FallbackUnknown name fb) else None)"

definition validate_after :: "golib \<Rightarrow> Config \<Rightarrow> string set \<Rightarrow> config_error option" where
  "validate_after gl c seen =
     or_err (first_error (check_fallback (Fallbacks (cf_channels c)) seen) (fallback_names (cf_channels c)))
    (or_err (case cf_routing c of None \<Rightarrow> None | Some r \<Rightarrow> map_option BadRouting (validate_Routing (gl_lower gl) seen r))
    (or_err (map_option BadPublicURL (checkPublicURL gl (cf_public_url c)))
    (or_err (case ParseTrustedProxies gl (rl_trusted_proxies (cf_rate_limit c)) of Inl raw \<Rightarrow> Some (BadTrustedProxy raw) | Inr _ \<Rightarrow> None)
    (or_err (check (SlogLevel gl (cf_log c) \<noteq> None) (BadLevel (lg_level (cf_log c))))
            (check (log_JSON gl (cf_log c) \<noteq> None) (BadFormat (lg_format (cf_log c))))))))"

definition Validate :: "golib \<Rightarrow> string list \<Rightarrow> Config \<Rightarrow> config_error option" where
  "Validate gl kinds c =
     or_err (check (dc_driver (cf_database c) = ''sqlite'' \<or> dc_driver (cf_database c) = ''postgres'')
                   (UnsupportedDriver (dc_driver (cf_database c))))
    (or_err (check (dc_dsn (cf_database c) \<noteq> []) MissingDSN)
    (or_err (first_error (\<lambda>(i, k). check_key i k) (enumerate 0 (cf_api_keys c)))
            (case validate_channels gl kinds (cf_channels c) of Inl e \<Rightarrow> Some e | Inr seen \<Rightarrow> validate_after gl c seen)))"

subsection \<open>The startup log\<close>

definition EnabledChannels :: "golib \<Rightarrow> Config \<Rightarrow> string list" where
  "EnabledChannels gl cfg =
     (let c = cf_channels cfg in
      map (\<lambda>e. ''email:'' @ ec_name e) (cs_email c) @
      map (\<lambda>t. ''telegram:'' @ tc_name t @
             (case ParseProxyURL gl (tc_proxy t) of Inr (Some u) \<Rightarrow> '' (proxy '' @ SafeProxyURL (Some u) @ '')'' | _ \<Rightarrow> [])) (cs_telegram c) @
      map (\<lambda>w. ''webhook:'' @ wc_name w) (cs_webhook c) @
      concat (map (\<lambda>kind. map (\<lambda>h. kind @ '':'' @ cc_name h) (chats c kind)) [''slack'', ''teams'', ''discord'']) @
      map (\<lambda>t. ''ntfy:'' @ nc_name t) (cs_ntfy c) @
      map (\<lambda>p. ''pushover:'' @ pc_name p) (cs_pushover c))"

subsection \<open>What the checks establish\<close>

definition channel_names :: "Channels \<Rightarrow> string list" where
  "channel_names c = map fst (named_fallbacks c)"

definition names_ok :: "string list \<Rightarrow> string set \<Rightarrow> bool" where
  "names_ok ns seen = (distinct ns \<and> [] \<notin> set ns \<and> set ns \<inter> seen = {})"

lemma and_then_Inr_iff [simp]: "and_then m f = Inr b \<longleftrightarrow> (\<exists>a. m = Inr a \<and> f a = Inr b)"
  by (cases m) (simp_all add: and_then_def)

lemma case_Inr_iff: "(case m of Inl e \<Rightarrow> Inl e | Inr a \<Rightarrow> f a) = Inr b \<longleftrightarrow> (\<exists>a. m = Inr a \<and> f a = Inr b)"
  by (cases m) simp_all

lemma checkName_Inr_iff: "checkName kind seen n = Inr seen' \<longleftrightarrow> n \<noteq> [] \<and> n \<notin> seen \<and> seen' = insert n seen"
  by (auto simp: checkName_def)

lemma case_None_Inr_iff: "(case x of Some e \<Rightarrow> Inl e | None \<Rightarrow> m) = Inr b \<longleftrightarrow> x = None \<and> m = Inr b"
  by (cases x) simp_all

lemma check_channels_Inr_iff:
  "check_channels kind name rest cs seen = Inr seen' \<longleftrightarrow>
     names_ok (map name cs) seen \<and> (\<forall>c \<in> set cs. rest c = None) \<and> seen' = seen \<union> set (map name cs)"
proof (induction cs arbitrary: seen)
  case (Cons c cs)
  have "names_ok (map name (c # cs)) seen \<longleftrightarrow> name c \<noteq> [] \<and> name c \<notin> seen \<and> names_ok (map name cs) (insert (name c) seen)"
    by (auto simp: names_ok_def)
  then show ?case by (auto simp: case_Inr_iff case_None_Inr_iff checkName_Inr_iff Cons)
qed (auto simp: names_ok_def)

lemma names_ok_append: "names_ok (xs @ ys) seen \<longleftrightarrow> names_ok xs seen \<and> names_ok ys (seen \<union> set xs)"
  by (auto simp: names_ok_def)

lemma check_chats_Inr_iff:
  "check_chats gl c kinds seen = Inr seen' \<longleftrightarrow>
     names_ok (concat (map (\<lambda>k. map cc_name (chats c k)) kinds)) seen \<and>
     (\<forall>k \<in> set kinds. \<forall>h \<in> set (chats c k). check_chat gl k h = None) \<and>
     seen' = seen \<union> set (concat (map (\<lambda>k. map cc_name (chats c k)) kinds))"
proof (induction kinds arbitrary: seen)
  case (Cons k kinds)
  show ?case by (simp add: case_Inr_iff Cons check_channels_Inr_iff names_ok_append Un_assoc) blast
qed (auto simp: names_ok_def)

text \<open>The order in which Go visits the map of chat channels.\<close>

definition any_order :: "string list \<Rightarrow> bool" where
  "any_order kinds = (mset kinds = mset [''slack'', ''teams'', ''discord''])"

definition chat_names :: "Channels \<Rightarrow> string list" where
  "chat_names c = map cc_name (cs_slack c @ cs_teams c @ cs_discord c)"

lemma any_order_names:
  assumes "any_order kinds"
  shows "mset (concat (map (\<lambda>k. map cc_name (chats c k)) kinds)) = mset (chat_names c)" "set kinds = {''slack'', ''teams'', ''discord''}"
proof -
  have sum: "mset (concat (map f ks)) = sum_mset (image_mset (\<lambda>k. mset (f k)) (mset ks))" for f :: "string \<Rightarrow> string list" and ks
    by (simp add: mset_concat comp_def flip: sum_mset_sum_list)
  show "mset (concat (map (\<lambda>k. map cc_name (chats c k)) kinds)) = mset (chat_names c)"
    using assms by (simp add: any_order_def sum chats_def chat_names_def del: mset_map)
  have "set kinds = set [''slack'', ''teams'', ''discord'']" using assms unfolding any_order_def by (rule mset_eq_setD)
  then show "set kinds = {''slack'', ''teams'', ''discord''}" by simp
qed

lemma names_ok_mset: "mset xs = mset ys \<Longrightarrow> names_ok xs seen \<longleftrightarrow> names_ok ys seen"
  unfolding names_ok_def by (metis mset_eq_imp_distinct_iff mset_eq_setD)

lemma channel_names_parts:
  "channel_names c = map ec_name (cs_email c) @ map tc_name (cs_telegram c) @ map wc_name (cs_webhook c) @ chat_names c @
     map nc_name (cs_ntfy c) @ map pc_name (cs_pushover c)"
  by (simp add: channel_names_def named_fallbacks_def chat_names_def comp_def)

definition channels_complete :: "golib \<Rightarrow> Channels \<Rightarrow> bool" where
  "channels_complete gl c =
     ((\<forall>e \<in> set (cs_email c). check_email e = None) \<and> (\<forall>t \<in> set (cs_telegram c). check_telegram gl t = None) \<and>
      (\<forall>w \<in> set (cs_webhook c). check_webhook w = None) \<and>
      (\<forall>k \<in> {''slack'', ''teams'', ''discord''}. \<forall>h \<in> set (chats c k). check_chat gl k h = None) \<and>
      (\<forall>t \<in> set (cs_ntfy c). check_ntfy gl t = None) \<and> (\<forall>p \<in> set (cs_pushover c). check_pushover p = None))"

lemma validate_channels_Inr_iff:
  assumes "any_order kinds"
  shows "validate_channels gl kinds c = Inr seen \<longleftrightarrow>
           distinct (channel_names c) \<and> [] \<notin> set (channel_names c) \<and> channels_complete gl c \<and> seen = set (channel_names c)"
proof -
  note ks = any_order_names(1) [OF assms, of c] any_order_names(2) [OF assms]
  have chat: "check_chats gl c kinds s = Inr s' \<longleftrightarrow> names_ok (chat_names c) s \<and>
      (\<forall>k \<in> {''slack'', ''teams'', ''discord''}. \<forall>h \<in> set (chats c k). check_chat gl k h = None) \<and> s' = s \<union> set (chat_names c)" for s s'
    unfolding check_chats_Inr_iff ks(2) names_ok_mset [OF ks(1)] mset_eq_setD [OF ks(1)] ..
  have "validate_channels gl kinds c = Inr seen \<longleftrightarrow>
      names_ok (channel_names c) {} \<and> channels_complete gl c \<and> seen = set (channel_names c)"
    unfolding validate_channels_def and_then_Inr_iff check_channels_Inr_iff chat channel_names_parts names_ok_append channels_complete_def
    by (auto simp: Un_assoc)
  then show ?thesis by (auto simp: names_ok_def)
qed

lemma foldl_fallback:
  "foldl add_fallback m nfs n = Some f \<Longrightarrow> m n = Some f \<or> (n, f) \<in> set nfs \<and> f \<noteq> []"
  by (induction nfs arbitrary: m) (fastforce simp: add_fallback_def split: if_splits)+

lemma dom_fallback: "dom (foldl add_fallback m nfs) = dom m \<union> fst ` {nf \<in> set nfs. snd nf \<noteq> []}"
  by (induction nfs arbitrary: m) (auto simp: add_fallback_def)

lemma Fallbacks_SomeD: "Fallbacks c n = Some f \<Longrightarrow> (n, f) \<in> set (named_fallbacks c) \<and> f \<noteq> []"
  using foldl_fallback [of Map.empty "named_fallbacks c" n f] by (simp add: Fallbacks_def)

lemma fallback_names_dom: "set (fallback_names c) = dom (Fallbacks c)"
  by (auto simp: fallback_names_def Fallbacks_def dom_fallback)

lemma check_fallback_None_iff: "fbs n = Some f \<Longrightarrow> check_fallback fbs seen n = None \<longleftrightarrow> f \<noteq> n \<and> f \<in> seen"
  by (simp add: check_fallback_def)

lemma check_fallbacks_None_iff:
  "(\<forall>n \<in> set (fallback_names c). check_fallback (Fallbacks c) seen n = None) \<longleftrightarrow>
     (\<forall>n f. Fallbacks c n = Some f \<longrightarrow> f \<noteq> n \<and> f \<in> seen)"
  by (auto simp: fallback_names_dom check_fallback_None_iff dom_def)

text \<open>An accepted configuration, whatever the order of the visit.\<close>

definition valid_config :: "golib \<Rightarrow> Config \<Rightarrow> bool" where
  "valid_config gl c =
     (let names = channel_names (cf_channels c) in
      (dc_driver (cf_database c) = ''sqlite'' \<or> dc_driver (cf_database c) = ''postgres'') \<and> dc_dsn (cf_database c) \<noteq> [] \<and>
      (\<forall>ik \<in> set (enumerate 0 (cf_api_keys c)). check_key (fst ik) (snd ik) = None) \<and>
      distinct names \<and> [] \<notin> set names \<and> channels_complete gl (cf_channels c) \<and>
      (\<forall>n f. Fallbacks (cf_channels c) n = Some f \<longrightarrow> f \<noteq> n \<and> f \<in> set names) \<and>
      (\<forall>r. cf_routing c = Some r \<longrightarrow> validate_Routing (gl_lower gl) (set names) r = None) \<and>
      checkPublicURL gl (cf_public_url c) = None \<and> (\<exists>nets. ParseTrustedProxies gl (rl_trusted_proxies (cf_rate_limit c)) = Inr nets) \<and>
      SlogLevel gl (cf_log c) \<noteq> None \<and> log_JSON gl (cf_log c) \<noteq> None)"

lemma validate_after_None_iff:
  "validate_after gl c seen = None \<longleftrightarrow>
     (\<forall>n f. Fallbacks (cf_channels c) n = Some f \<longrightarrow> f \<noteq> n \<and> f \<in> seen) \<and>
     (\<forall>r. cf_routing c = Some r \<longrightarrow> validate_Routing (gl_lower gl) seen r = None) \<and>
     checkPublicURL gl (cf_public_url c) = None \<and> (\<exists>nets. ParseTrustedProxies gl (rl_trusted_proxies (cf_rate_limit c)) = Inr nets) \<and>
     SlogLevel gl (cf_log c) \<noteq> None \<and> log_JSON gl (cf_log c) \<noteq> None"
  unfolding validate_after_def or_err_None_iff check_None_iff first_error_None_iff check_fallbacks_None_iff option.map_disc_iff
  by (simp split: option.split sum.split)

lemma Validate_None_iff:
  assumes "any_order kinds"
  shows "Validate gl kinds c = None \<longleftrightarrow> valid_config gl c"
proof -
  have "(case validate_channels gl kinds (cf_channels c) of Inl e \<Rightarrow> Some e | Inr seen \<Rightarrow> f seen) = None \<longleftrightarrow>
      distinct (channel_names (cf_channels c)) \<and> [] \<notin> set (channel_names (cf_channels c)) \<and> channels_complete gl (cf_channels c) \<and>
      f (set (channel_names (cf_channels c))) = None" for f
    using validate_channels_Inr_iff [OF assms, of gl "cf_channels c" "set (channel_names (cf_channels c))"]
      validate_channels_Inr_iff [OF assms, of gl "cf_channels c" "projr (validate_channels gl kinds (cf_channels c))"]
    by (cases "validate_channels gl kinds (cf_channels c)") (simp_all, blast)
  then show ?thesis
    unfolding Validate_def valid_config_def Let_def or_err_None_iff check_None_iff first_error_None_iff validate_after_None_iff
    by (simp only: case_prod_beta conj_assoc validate_after_None_iff)
qed

end
