(* ===== verification/Edit_Distance.thy ===== *)
theory Edit_Distance
  imports Main
begin

text \<open>
  \<^verbatim>\<open>editDistance\<close> of \<^verbatim>\<open>internal/config/env.go\<close>: the optimal string alignment distance, computed with three rows that change
  places. \<open>align\<close> says what an alignment is and what it costs, \<open>osa\<close> is the recursion the rows are a table of, and the
  theorem is that the code returns the cost of a cheapest alignment. The numbers are lengths, so \<open>nat\<close> is Go's \<^verbatim>\<open>int\<close> here.
\<close>

subsection \<open>The code\<close>

definition ed_cell :: "string \<Rightarrow> string \<Rightarrow> nat list \<Rightarrow> nat list \<Rightarrow> nat list \<Rightarrow> nat \<Rightarrow> nat \<Rightarrow> nat" where
  "ed_cell a b prev2 prev cur i j =
     (let cost = (if a ! (i - 1) = b ! (j - 1) then 0 else 1);
          m = min (prev ! j + 1) (min (cur ! (j - 1) + 1) (prev ! (j - 1) + cost)) in
      if 1 < i \<and> 1 < j \<and> a ! (i - 1) = b ! (j - 2) \<and> a ! (i - 2) = b ! (j - 1) then min m (prev2 ! (j - 2) + 1) else m)"

text \<open>The inner loop fills \<open>cur\<close> from left to right, the outer one lets the rows change places.\<close>

definition ed_row :: "string \<Rightarrow> string \<Rightarrow> nat list \<Rightarrow> nat list \<Rightarrow> nat list \<Rightarrow> nat \<Rightarrow> nat list" where
  "ed_row a b prev2 prev cur i =
     foldl (\<lambda>c j. c[j := ed_cell a b prev2 prev c i j]) (cur[0 := i]) [1..<length b + 1]"

definition ed_step :: "string \<Rightarrow> string \<Rightarrow> nat list \<times> nat list \<times> nat list \<Rightarrow> nat \<Rightarrow> nat list \<times> nat list \<times> nat list" where
  "ed_step a b rows i = (case rows of (prev2, prev, cur) \<Rightarrow> (prev, ed_row a b prev2 prev cur i, prev2))"

definition editDistance :: "string \<Rightarrow> string \<Rightarrow> nat" where
  "editDistance a b =
     (let zeros = replicate (length b + 1) 0;
          (prev2, prev, cur) = foldl (ed_step a b) (zeros, [0..<length b + 1], zeros) [1..<length a + 1] in
      prev ! length b)"

subsection \<open>Alignments\<close>

text \<open>
  An alignment reads both texts from left to right: a character is kept, replaced, deleted or inserted, or two neighbours change
  places. All but keeping cost one.
\<close>

inductive align :: "string \<Rightarrow> string \<Rightarrow> nat \<Rightarrow> bool" where
  align_done: "align [] [] 0"
| align_keep: "align xs ys n \<Longrightarrow> align (x # xs) (x # ys) n"
| align_replace: "align xs ys n \<Longrightarrow> align (x # xs) (y # ys) (Suc n)"
| align_delete: "align xs ys n \<Longrightarrow> align (x # xs) ys (Suc n)"
| align_insert: "align xs ys n \<Longrightarrow> align xs (y # ys) (Suc n)"
| align_swap: "align xs ys n \<Longrightarrow> align (x # y # xs) (y # x # ys) (Suc n)"

lemma align_append: "align xs ys n \<Longrightarrow> align us vs m \<Longrightarrow> align (xs @ us) (ys @ vs) (n + m)"
  by (induction rule: align.induct) (auto intro: align.intros)

lemmas align_one =
  align_keep [OF align_done] align_replace [OF align_done] align_delete [OF align_done] align_insert [OF align_done]
  align_swap [OF align_done]

lemma align_rev: "align xs ys n \<Longrightarrow> align (rev xs) (rev ys) n"
proof (induction rule: align.induct)
  case (align_keep xs ys n x)
  show ?case using align_append [OF align_keep.IH align_one(1) [of x]] by simp
next
  case (align_replace xs ys n x y)
  show ?case using align_append [OF align_replace.IH align_one(2) [of x y]] by simp
next
  case (align_delete xs ys n x)
  show ?case using align_append [OF align_delete.IH align_one(3) [of x]] by simp
next
  case (align_insert xs ys n y)
  show ?case using align_append [OF align_insert.IH align_one(4) [of y]] by simp
next
  case (align_swap xs ys n x y)
  show ?case using align_append [OF align_swap.IH align_one(5) [of y x]] by simp
qed (simp add: align_done)

text \<open>The cost of a cheapest alignment, by its first step.\<close>

fun osa :: "string \<Rightarrow> string \<Rightarrow> nat" where
  "osa [] ys = length ys"
| "osa (x # xs) [] = Suc (length xs)"
| "osa (x # xs) (y # ys) =
     (let m = min (osa xs (y # ys) + 1) (min (osa (x # xs) ys + 1) (osa xs ys + (if x = y then 0 else 1))) in
      case (xs, ys) of (x' # xs', y' # ys') \<Rightarrow> if x = y' \<and> x' = y then min m (osa xs' ys' + 1) else m | _ \<Rightarrow> m)"

lemma osa_Nil_right [simp]: "osa xs [] = length xs"
  by (cases xs) simp_all

declare osa.simps(3) [simp del]

text \<open>The case distinction of the last equation, with what it is about left open.\<close>

lemma swap_le:
  "(case (xs, ys) of (x' # xs', y' # ys') \<Rightarrow> if Q x' y' then min m (f xs' ys') else m | _ \<Rightarrow> m) \<le> (m::nat)"
  by (simp split: list.splits)

lemma swap_holds:
  assumes "P m" and "\<And>x' xs' y' ys'. xs = x' # xs' \<Longrightarrow> ys = y' # ys' \<Longrightarrow> Q x' y' \<Longrightarrow> P (f xs' ys')"
  shows "P (case (xs, ys) of (x' # xs', y' # ys') \<Rightarrow> if Q x' y' then min m (f xs' ys') else (m::nat) | _ \<Rightarrow> m)"
  using assms by (simp add: min_def split: list.splits)

lemma swap_index:
  assumes "xs = (if i = 0 then [] else x1 # xs1)" "ys = (if j = 0 then [] else y1 # ys1)"
  shows "(case (xs, ys) of (x' # xs', y' # ys') \<Rightarrow> if Q x' y' then min m (f xs' ys') else (m::nat) | _ \<Rightarrow> m) =
         (if 0 < (i::nat) \<and> 0 < (j::nat) \<and> Q x1 y1 then min m (f xs1 ys1) else m)"
  using assms by simp

lemma osa_Cons_le:
  "osa (x # xs) (y # ys) \<le> min (osa xs (y # ys) + 1) (min (osa (x # xs) ys + 1) (osa xs ys + (if x = y then 0 else 1)))"
  unfolding osa.simps(3) Let_def by (rule swap_le)

lemma osa_keep: "osa (x # xs) (y # ys) \<le> osa xs ys + (if x = y then 0 else 1)"
  using osa_Cons_le [of x xs y ys] by linarith

lemma osa_delete: "osa (x # xs) ys \<le> Suc (osa xs ys)"
  using osa_Cons_le [of x xs "hd ys" "tl ys"] by (cases ys) simp_all

lemma osa_insert: "osa xs (y # ys) \<le> Suc (osa xs ys)"
  using osa_Cons_le [of "hd xs" "tl xs" y ys] by (cases xs) simp_all

lemma osa_swap: "osa (x # y # xs) (y # x # ys) \<le> Suc (osa xs ys)"
  by (subst osa.simps(3)) (simp add: Let_def)

lemma osa_lower: "align xs ys n \<Longrightarrow> osa xs ys \<le> n"
proof (induction rule: align.induct)
  case (align_keep xs ys n x)
  then show ?case using osa_keep [of x xs x ys] by simp
next
  case (align_replace xs ys n x y)
  then show ?case using osa_keep [of x xs y ys] by (simp split: if_splits)
next
  case (align_delete xs ys n x)
  then show ?case using osa_delete [of x xs ys] by simp
next
  case (align_insert xs ys n y)
  then show ?case using osa_insert [of xs y ys] by simp
next
  case (align_swap xs ys n x y)
  then show ?case using osa_swap [of x y xs ys] by simp
qed simp

lemma osa_aligns: "align xs ys (osa xs ys)"
proof (induction xs ys rule: osa.induct)
  case (1 ys)
  show ?case by (induction ys) (auto intro: align.intros)
next
  case (2 x xs)
  have "align zs [] (length zs)" for zs by (induction zs) (auto intro: align.intros)
  from this [of "x # xs"] show ?case by simp
next
  case (3 x xs y ys)
  have "align (x # xs) (y # ys) (osa xs (y # ys) + 1)" "align (x # xs) (y # ys) (osa (x # xs) ys + 1)"
    "align (x # xs) (y # ys) (osa xs ys + (if x = y then 0 else 1))"
    using 3(1-3) by (auto intro: align_delete align_insert align_keep align_replace)
  then have "align (x # xs) (y # ys)
      (min (osa xs (y # ys) + 1) (min (osa (x # xs) ys + 1) (osa xs ys + (if x = y then 0 else 1))))"
    by (simp only: min_def split: if_split) blast
  moreover have "align (x # xs) (y # ys) (osa xs' ys' + 1)"
    if "xs = x' # xs'" "ys = y' # ys'" "x = y' \<and> x' = y" for x' xs' y' ys'
    using 3(4) [OF refl refl that(1) that(2)] that by (auto intro: align_swap)
  ultimately show ?case unfolding osa.simps(3) Let_def by (rule swap_holds)
qed

lemma osa_rev: "osa (rev xs) (rev ys) = osa xs ys"
  by (metis align_rev antisym osa_aligns osa_lower rev_rev_ident)

subsection \<open>The rows are a table\<close>

definition ed_at :: "string \<Rightarrow> string \<Rightarrow> nat \<Rightarrow> nat \<Rightarrow> nat" where
  "ed_at a b i j = osa (rev (take i a)) (rev (take j b))"

lemma rev_take_Suc: "i < length a \<Longrightarrow> rev (take (Suc i) a) = a ! i # rev (take i a)"
  by (simp add: take_Suc_conv_app_nth)

lemma ed_at_0: "ed_at a b 0 j = min (length b) j" "ed_at a b i 0 = min (length a) i"
  by (simp_all add: ed_at_def)

definition is_row :: "string \<Rightarrow> string \<Rightarrow> nat \<Rightarrow> nat list \<Rightarrow> bool" where
  "is_row a b i r = (r = map (ed_at a b i) [0..<length b + 1])"

lemma rev_take_cases: "i \<le> length a \<Longrightarrow> rev (take i a) = (if i = 0 then [] else a ! (i - 1) # rev (take (i - 1) a))"
  by (cases i) (simp_all add: rev_take_Suc)

lemma ed_at_Suc:
  assumes "i < length a" "j < length b"
  shows "ed_at a b (Suc i) (Suc j) =
     (let m = min (ed_at a b i (Suc j) + 1) (min (ed_at a b (Suc i) j + 1) (ed_at a b i j + (if a ! i = b ! j then 0 else 1))) in
      if 0 < i \<and> 0 < j \<and> a ! i = b ! (j - 1) \<and> a ! (i - 1) = b ! j then min m (ed_at a b (i - 1) (j - 1) + 1) else m)"
  unfolding ed_at_def rev_take_Suc [OF assms(1)] rev_take_Suc [OF assms(2)] osa.simps(3) Let_def
  using assms by (intro swap_index rev_take_cases) simp_all

lemma is_rowI: "length r = length b + 1 \<Longrightarrow> (\<And>j. j \<le> length b \<Longrightarrow> r ! j = ed_at a b i j) \<Longrightarrow> is_row a b i r"
  unfolding is_row_def by (rule nth_equalityI) (simp_all del: upt_Suc)

lemma is_row_length: "is_row a b i r \<Longrightarrow> length r = length b + 1"
  by (simp add: is_row_def)

lemma ed_cell_eq:
  assumes ij: "i < length a" "j < length b"
    and rows: "is_row a b i prev" "0 < i \<Longrightarrow> is_row a b (i - 1) prev2"
    and left: "cur ! j = ed_at a b (Suc i) j"
  shows "ed_cell a b prev2 prev cur (Suc i) (Suc j) = ed_at a b (Suc i) (Suc j)"
proof -
  have "prev ! Suc j = ed_at a b i (Suc j)" "prev ! j = ed_at a b i j"
    using rows(1) ij(2) by (simp_all add: is_row_def nth_append del: upt_Suc)
  moreover have "prev2 ! (j - 1) = ed_at a b (i - 1) (j - 1)" if "0 < i"
    using rows(2) [OF that] ij(2) by (simp add: is_row_def nth_append del: upt_Suc)
  ultimately show ?thesis using left by (simp add: ed_cell_def ed_at_Suc [OF ij] Let_def numeral_2_eq_2)
qed

lemma ed_row_is_row:
  assumes i: "i < length a" and rows: "is_row a b i prev" "0 < i \<Longrightarrow> is_row a b (i - 1) prev2" and len: "length cur = length b + 1"
  shows "is_row a b (Suc i) (ed_row a b prev2 prev cur (Suc i))"
proof -
  let ?f = "\<lambda>c j. c[j := ed_cell a b prev2 prev c (Suc i) j]"
  have "length (foldl ?f (cur[0 := Suc i]) [1..<Suc n]) = length b + 1 \<and>
        (\<forall>j \<le> n. foldl ?f (cur[0 := Suc i]) [1..<Suc n] ! j = ed_at a b (Suc i) j)" if "n \<le> length b" for n
    using that
  proof (induction n)
    case 0
    then show ?case using i len by (simp add: ed_at_0)
  next
    case (Suc n)
    then have IH: "length (foldl ?f (cur[0 := Suc i]) [1..<Suc n]) = length b + 1"
      "foldl ?f (cur[0 := Suc i]) [1..<Suc n] ! j = ed_at a b (Suc i) j" if "j \<le> n" for j using that by auto
    have "foldl ?f (cur[0 := Suc i]) [1..<Suc (Suc n)] = ?f (foldl ?f (cur[0 := Suc i]) [1..<Suc n]) (Suc n)" by simp
    moreover have "ed_cell a b prev2 prev (foldl ?f (cur[0 := Suc i]) [1..<Suc n]) (Suc i) (Suc n) = ed_at a b (Suc i) (Suc n)"
      using Suc.prems IH(2) [of n] by (intro ed_cell_eq [OF i _ rows]) simp_all
    ultimately have eq: "foldl ?f (cur[0 := Suc i]) [1..<Suc (Suc n)] =
        (foldl ?f (cur[0 := Suc i]) [1..<Suc n])[Suc n := ed_at a b (Suc i) (Suc n)]" by simp
    show ?case unfolding eq using IH(1) [of 0] IH(2) Suc.prems by (auto simp: nth_list_update le_Suc_eq simp del: upt_Suc)
  qed
  from this [of "length b"] show ?thesis
    unfolding ed_row_def Suc_eq_plus1 [symmetric, of "length b"] by (intro is_rowI) (simp_all only: Suc_eq_plus1)
qed

definition rows_ok :: "string \<Rightarrow> string \<Rightarrow> nat \<Rightarrow> nat list \<times> nat list \<times> nat list \<Rightarrow> bool" where
  "rows_ok a b n rows =
     (case rows of (prev2, prev, cur) \<Rightarrow>
        is_row a b n prev \<and> (0 < n \<longrightarrow> is_row a b (n - 1) prev2) \<and> length prev2 = length b + 1 \<and> length cur = length b + 1)"

lemma ed_step_ok: "n < length a \<Longrightarrow> rows_ok a b n rows \<Longrightarrow> rows_ok a b (Suc n) (ed_step a b rows (Suc n))"
  using ed_row_is_row [of n a b] by (auto simp: rows_ok_def ed_step_def dest: is_row_length split: prod.splits)

lemma ed_rows:
  "n \<le> length a \<Longrightarrow>
   rows_ok a b n (foldl (ed_step a b) (replicate (length b + 1) 0, [0..<length b + 1], replicate (length b + 1) 0) [1..<Suc n])"
proof (induction n)
  case 0
  show ?case by (auto simp: rows_ok_def ed_at_0 nth_append intro!: is_rowI)
next
  case (Suc n)
  then show ?case using ed_step_ok [of n a b] by simp
qed

lemma editDistance_osa: "editDistance a b = osa a b"
proof -
  have "editDistance a b = ed_at a b (length a) (length b)"
    using ed_rows [OF order_refl, of a b]
    by (auto simp: editDistance_def rows_ok_def is_row_def Let_def nth_append simp del: upt_Suc split: prod.splits)
  then show ?thesis by (simp add: ed_at_def osa_rev)
qed

text \<open>
  C26: \<open>editDistance\<close>, with its three rows that change places, is the optimal string alignment distance: the two texts can be aligned at that cost, and it is the
  least cost of all their alignments, where a kept character is free and replacing, deleting, inserting a character or
  swapping two neighbours costs one.
\<close>

theorem edit_distance_optimal:
  "align a b (editDistance a b) \<and> editDistance a b = (LEAST n. align a b n)"
proof -
  have "(LEAST n. align a b n) = osa a b" by (rule Least_equality) (auto intro: osa_aligns osa_lower)
  then show ?thesis by (simp add: editDistance_osa osa_aligns)
qed

lemma edit_distance_examples: "editDistance ''tsl'' ''tls'' = 1" "editDistance ''tls'' ''to'' = 2"
  by (simp_all add: editDistance_osa osa.simps(3))

end
