(* ===== verification/Config_Env.thy ===== *)
theory Config_Env
  imports Config Go_Marshal Edit_Distance
begin

text \<open>
  \<^verbatim>\<open>internal/config/env.go\<close> and the loading of the file in \<^verbatim>\<open>config.go\<close>: references to environment variables in the values of the YAML file, and
  the refusal of keys that are no settings. The parsed file is a tree; an alias holds the node it points to, and the
  decoding of the tree into a configuration is a parameter. The Go type of the configuration is data too (\<open>config_type\<close>), from which the
  known keys are computed as reflection does.
\<close>

subsection \<open>References to variables\<close>

definition name_start :: "char \<Rightarrow> bool" where
  "name_start c = (let n = (of_char c :: nat) in (65 \<le> n \<and> n \<le> 90) \<or> (97 \<le> n \<and> n \<le> 122) \<or> n = 95)"

definition name_char :: "char \<Rightarrow> bool" where
  "name_char c = (name_start c \<or> is_digit c)"

text \<open>The name of a value that is one whole reference, and its default if it has one.\<close>

definition envRef :: "string \<Rightarrow> (string \<times> string option) option" where
  "envRef s =
     (if \<not> HasPrefix s ''${'' \<or> last s \<noteq> CHR ''}'' then None
      else
        let body = butlast (drop 2 s); name = takeWhile name_char body; rest = drop (length name) body in
        if name = [] \<or> \<not> name_start (hd name) then None
        else if rest = [] then Some (name, None)
        else if HasPrefix rest '':-'' \<and> CHR ''}'' \<notin> set (drop 2 rest) then Some (name, Some (drop 2 rest))
        else None)"

subsection \<open>YAML trees\<close>

datatype yaml =
    YScalar (y_line: nat) (y_tag: string) (y_value: string)
  | YMap (y_line: nat) "(yaml \<times> yaml) list"
  | YSeq (y_line: nat) "yaml list"
  | YDoc (y_line: nat) "yaml list"
  | YAlias (y_line: nat) yaml

definition keyName :: "yaml \<Rightarrow> string \<times> bool" where
  "keyName n =
     (case n of
        YScalar l t v \<Rightarrow>
          if v = [] then ([CHR 0x22, CHR 0x22], False) else if Contains v ''.'' then (v, False) else (v, True)
      | _ \<Rightarrow> (''<non-scalar key>'', False))"

definition is_merge :: "yaml \<Rightarrow> bool" where
  "is_merge n = (case n of YScalar l t v \<Rightarrow> t = ''!!merge'' | _ \<Rightarrow> False)"

definition joinPath :: "string \<Rightarrow> string \<Rightarrow> string" where
  "joinPath prefix0 name = (if prefix0 = [] then name else prefix0 @ ''.'' @ name)"

subsection \<open>Substitution\<close>

definition isYAMLNull :: "string \<Rightarrow> bool" where
  "isYAMLNull s = (s = ''~'' \<or> s = ''null'' \<or> s = ''Null'' \<or> s = ''NULL'')"

definition resolveScalar :: "nat \<Rightarrow> string \<Rightarrow> bool \<Rightarrow> yaml" where
  "resolveScalar line v fromVariable = YScalar line (if fromVariable \<and> isYAMLNull v then ''!!str'' else []) v"

record env_ref =
  er_field :: string
  er_name :: string
  er_line :: nat

record resolution =
  re_node :: yaml
  re_missing :: "env_ref list"
  re_warnings :: "env_ref list"

text \<open>A scalar at \<open>path\<close>. \<close>

definition resolve_ref :: "(string \<rightharpoonup> string) \<Rightarrow> string \<Rightarrow> nat \<Rightarrow> string \<Rightarrow> string \<Rightarrow> resolution" where
  "resolve_ref env path line tag v =
     (case envRef v of
        None \<Rightarrow> \<lparr>re_node = YScalar line tag v, re_missing = [], re_warnings = []\<rparr>
      | Some (name, def) \<Rightarrow>
         (let r = \<lparr>er_field = path, er_name = name, er_line = line\<rparr>; v' = (case env name of Some x \<Rightarrow> x | None \<Rightarrow> []) in
          if v' \<noteq> [] then \<lparr>re_node = resolveScalar line v' True, re_missing = [], re_warnings = []\<rparr>
          else (case def of
                  Some d \<Rightarrow>
                    \<lparr>re_node = resolveScalar line d False, re_missing = [], re_warnings = (if env name \<noteq> None \<and> d \<noteq> [] then [r] else [])\<rparr>
                | None \<Rightarrow> \<lparr>re_node = YScalar line tag v, re_missing = [r], re_warnings = []\<rparr>)))"

definition gather :: "(yaml list \<Rightarrow> yaml) \<Rightarrow> resolution list \<Rightarrow> resolution" where
  "gather build rs =
     \<lparr>re_node = build (map re_node rs), re_missing = concat (map re_missing rs), re_warnings = concat (map re_warnings rs)\<rparr>"

definition quiet :: "yaml \<Rightarrow> resolution" where
  "quiet n = \<lparr>re_node = n, re_missing = [], re_warnings = []\<rparr>"

text \<open>
  The walk. It passes by an alias and by the value of a merge key. A node behind an alias is changed where it is defined, so in the
  tree it is changed behind the alias too (\<open>unwalked\<close>), without a second report; the other nodes of a merge value stay as they are.
  An anchor is taken to be defined outside the value of a merge key.
\<close>

fun substitute :: "(string \<rightharpoonup> string) \<Rightarrow> string \<Rightarrow> yaml \<Rightarrow> resolution"
and unwalked :: "(string \<rightharpoonup> string) \<Rightarrow> yaml \<Rightarrow> yaml" where
  "substitute env path (YScalar line tag v) = resolve_ref env path line tag v"
| "substitute env path (YMap line kvs) =
     gather (\<lambda>vs. YMap line (zip (map fst kvs) vs))
       (map (\<lambda>(k, v). if is_merge k then quiet (unwalked env v) else substitute env (joinPath path (fst (keyName k))) v) kvs)"
| "substitute env path (YSeq line ns) = gather (YSeq line) (map (substitute env path) ns)"
| "substitute env path (YDoc line ns) = gather (YDoc line) (map (substitute env path) ns)"
| "substitute env path (YAlias line n) = quiet (unwalked env (YAlias line n))"
| "unwalked env (YScalar line tag v) = YScalar line tag v"
| "unwalked env (YMap line kvs) = YMap line (map (\<lambda>(k, v). (k, unwalked env v)) kvs)"
| "unwalked env (YSeq line ns) = YSeq line (map (unwalked env) ns)"
| "unwalked env (YDoc line ns) = YDoc line (map (unwalked env) ns)"
| "unwalked env (YAlias line n) = YAlias line (re_node (substitute env [] n))"

definition noFallbackField :: string where "noFallbackField = ''admin_token''"

text \<open>The error: the references by line, and which advice it ends with.\<close>

record missing_error =
  me_refs :: "env_ref list"
  me_may_fall_back :: bool
  me_no_fallback :: bool

text \<open>The text of a warning: the field, the variable and the line, never the value.\<close>

definition fallbackWarning :: "env_ref \<Rightarrow> string" where
  "fallbackWarning r =
     ''line '' @ Itoa (er_line r) @ '': '' @ (if er_field r = [] then ''a value in the config file'' else er_field r) @
     [CHR '' '', CHR 0xE2, CHR 0x80, CHR 0x94, CHR '' ''] @ er_name r @
     '' is set but empty, so the fallback written in the config file is what runs (open the file at that line to see it)''"

definition substituteEnv :: "(string \<rightharpoonup> string) \<Rightarrow> yaml \<Rightarrow> yaml \<times> string list \<times> missing_error option" where
  "substituteEnv env n =
     (let r = substitute env [] n; refs = sort_key er_line (re_missing r) in
      (re_node r, map fallbackWarning (re_warnings r),
       if refs = [] then None
       else Some \<lparr>me_refs = refs, me_may_fall_back = list_ex (\<lambda>x. er_field x \<noteq> noFallbackField) refs,
                  me_no_fallback = list_ex (\<lambda>x. er_field x = noFallbackField) refs\<rparr>))"

subsection \<open>Keys of a file\<close>

record visited =
  vs_path :: string
  vs_key :: yaml
  vs_value :: yaml
  vs_plain :: bool

text \<open>The pairs that \<open>visit\<close> is called for; \<open>descend\<close> is its answer.\<close>

fun walkKeys :: "(string \<Rightarrow> bool \<Rightarrow> bool) \<Rightarrow> string \<Rightarrow> bool \<Rightarrow> yaml \<Rightarrow> visited list" where
  "walkKeys descend prefix0 plain (YScalar line t v) = []"
| "walkKeys descend prefix0 plain (YDoc line ns) = concat (map (walkKeys descend prefix0 plain) ns)"
| "walkKeys descend prefix0 plain (YSeq line ns) = concat (map (walkKeys descend prefix0 plain) ns)"
| "walkKeys descend prefix0 plain (YAlias line n) = walkKeys descend prefix0 plain n"
| "walkKeys descend prefix0 plain (YMap line kvs) =
     concat (map (\<lambda>(k, v).
       if is_merge k then walkKeys descend prefix0 plain v
       else
         let path = joinPath prefix0 (fst (keyName k)); keysPlain = (plain \<and> snd (keyName k)) in
         \<lparr>vs_path = path, vs_key = k, vs_value = v, vs_plain = keysPlain\<rparr> #
         (if descend path keysPlain then walkKeys descend path keysPlain v else [])) kvs)"

subsection \<open>The schema\<close>

record gofield =
  gf_name :: string
  gf_yaml :: string
  gf_tag :: string
  gf_unexported :: bool
  gf_anonymous :: bool

datatype gotype = GoScalar | GoPointer gotype | GoSlice gotype | GoStruct "(gofield \<times> gotype) list"

text \<open>\<open>gf_yaml\<close> is the value of the key \<^verbatim>\<open>yaml\<close> in the tag of a field, \<open>gf_tag\<close> the whole tag.\<close>

definition yamlFieldName :: "unicode_lower \<Rightarrow> gofield \<Rightarrow> (string \<times> bool) option" where
  "yamlFieldName ul f =
     (let tag = (if gf_yaml f = [] \<and> \<not> Contains (gf_tag f) '':'' then gf_tag f else gf_yaml f) in
      if tag = ''-'' then None
      else
        let parts = Split (CHR '','') tag; name = hd parts in
        Some (if name = [] then ToLower ul (gf_name f) else name, ''inline'' \<in> set (tl parts)))"

text \<open>The paths below a type, and those with keys below them. A type given as a tree does not contain itself.\<close>

fun expand :: "unicode_lower \<Rightarrow> string \<Rightarrow> gotype \<Rightarrow> string list \<times> string list" where
  "expand ul prefix0 GoScalar = ([], [])"
| "expand ul prefix0 (GoPointer t) = expand ul prefix0 t"
| "expand ul prefix0 (GoSlice t) = expand ul prefix0 t"
| "expand ul prefix0 (GoStruct fs) =
     (let rs = map (\<lambda>(f, t).
        if gf_unexported f \<and> \<not> gf_anonymous f then ([], [])
        else (case yamlFieldName ul f of
                None \<Rightarrow> ([], [])
              | Some (name, inline) \<Rightarrow>
                  if inline then expand ul prefix0 t
                  else
                    let path = (if prefix0 \<noteq> [] then prefix0 @ ''.'' @ name else name); sub = expand ul path t in
                    (path # fst sub, (if prefix0 \<noteq> [] then [prefix0] else []) @ snd sub))) fs in
      (concat (map fst rs), concat (map snd rs)))"

record schema =
  sc_known :: "string list"
  sc_containers :: "string list"

definition knownYAMLPaths :: "unicode_lower \<Rightarrow> gotype \<Rightarrow> schema" where
  "knownYAMLPaths ul t = (let (known, containers) = expand ul [] t in \<lparr>sc_known = known, sc_containers = containers\<rparr>)"

definition schema_descend :: "schema \<Rightarrow> string \<Rightarrow> bool \<Rightarrow> bool" where
  "schema_descend s path plain =
     (if HasPrefix path ''x-'' then False else plain \<and> path \<in> set (sc_known s) \<and> path \<in> set (sc_containers s))"

text \<open>The type \<^verbatim>\<open>Config\<close>: its fields with their keys. The names of the Go fields play no part, since every field has a key.\<close>

abbreviation a_field :: "string \<Rightarrow> gotype \<Rightarrow> gofield \<times> gotype" where
  "a_field key t \<equiv> (\<lparr>gf_name = [], gf_yaml = key, gf_tag = ''yaml:'' @ key, gf_unexported = False, gf_anonymous = False\<rparr>, t)"

definition scalar_fields :: "string list \<Rightarrow> (gofield \<times> gotype) list" where
  "scalar_fields keys = map (\<lambda>k. a_field k GoScalar) keys"

definition chat_type :: gotype where
  "chat_type = GoSlice (GoStruct (scalar_fields [''name'', ''url'', ''timeout'', ''fallback'']))"

definition channels_type :: gotype where
  "channels_type =
     GoStruct
       [a_field ''email'' (GoSlice (GoStruct (scalar_fields [''name'', ''host'', ''port'', ''username'', ''password'', ''from''] @
          [a_field ''to'' (GoSlice GoScalar)] @ scalar_fields [''starttls'', ''tls'', ''timeout'', ''fallback'']))),
        a_field ''telegram'' (GoSlice (GoStruct (scalar_fields [''name'', ''bot_token'', ''chat_id'', ''api_base'', ''proxy'', ''timeout'', ''fallback'']))),
        a_field ''webhook'' (GoSlice (GoStruct (scalar_fields [''name'', ''url'', ''secret'', ''timeout'', ''fallback'']))),
        a_field ''slack'' chat_type, a_field ''teams'' chat_type, a_field ''discord'' chat_type,
        a_field ''ntfy'' (GoSlice (GoStruct (scalar_fields [''name'', ''server'', ''topic'', ''token'', ''username'', ''password'', ''timeout'', ''fallback'']))),
        a_field ''pushover'' (GoSlice (GoStruct (scalar_fields [''name'', ''token'', ''user_key'', ''timeout'', ''fallback''])))]"

definition routing_type :: gotype where
  "routing_type =
     GoPointer (GoStruct
       [a_field ''rules'' (GoSlice (GoStruct
          [a_field ''name'' GoScalar,
           a_field ''match'' (GoStruct [a_field ''type'' (GoSlice GoScalar), a_field ''severity'' (GoSlice GoScalar), a_field ''min_severity'' GoScalar,
             a_field ''source'' (GoSlice GoScalar), a_field ''category'' (GoSlice GoScalar)]),
           a_field ''channels'' (GoSlice GoScalar)])),
        a_field ''default'' (GoSlice GoScalar)])"

definition config_type :: gotype where
  "config_type =
     GoStruct (scalar_fields [''addr'', ''admin_token'', ''public_url''] @
       [a_field ''api_keys'' (GoSlice (GoStruct (scalar_fields [''key'', ''scope''] @ [a_field ''sources'' (GoSlice GoScalar)]))),
        a_field ''database'' (GoStruct (scalar_fields [''driver'', ''dsn''])),
        a_field ''worker'' (GoStruct (scalar_fields [''concurrency'', ''poll_interval'', ''max_attempts'', ''base_backoff'', ''max_backoff''])),
        a_field ''channels'' channels_type,
        a_field ''log'' (GoStruct (scalar_fields [''level'', ''format'', ''file''])),
        a_field ''rate_limit'' (GoStruct (scalar_fields [''enabled'', ''per_ip_per_second'', ''per_ip_burst'', ''ingest_per_second'', ''ingest_burst''] @
           [a_field ''trusted_proxies'' (GoSlice GoScalar)])),
        a_field ''routing'' routing_type, a_field ''notify_on_resolve'' (GoPointer GoScalar), a_field ''retention_days'' GoScalar,
        a_field ''-'' (GoSlice GoScalar)])"

definition configSchema :: "unicode_lower \<Rightarrow> schema" where
  "configSchema ul = knownYAMLPaths ul config_type"

subsection \<open>Unknown keys\<close>

text \<open>The last dot of a path parts it.\<close>

definition splitPath :: "string \<Rightarrow> string \<times> string" where
  "splitPath path =
     (if CHR ''.'' \<in> set path
      then (rev (tl (dropWhile (\<lambda>c. c \<noteq> CHR ''.'') (rev path))), rev (takeWhile (\<lambda>c. c \<noteq> CHR ''.'') (rev path)))
      else ([], path))"

definition sortedKeys :: "string list \<Rightarrow> string list" where
  "sortedKeys known = sort (remdups known)"

definition editBudget :: "string \<Rightarrow> nat" where
  "editBudget name = (let budget = length name div 4 in if budget < 1 then 1 else if budget > 3 then 3 else budget)"

definition nearer :: "string \<Rightarrow> string \<Rightarrow> string \<times> nat \<Rightarrow> string \<Rightarrow> string \<times> nat" where
  "nearer parent name best k =
     (if fst (splitPath k) \<noteq> parent then best
      else let d = editDistance name (snd (splitPath k)) in if d < snd best then (k, d) else best)"

definition suggestNearby :: "string \<Rightarrow> string list \<Rightarrow> string" where
  "suggestNearby path known =
     (let (parent, name) = splitPath path in fst (foldl (nearer parent name) ([], editBudget name + 1) (sortedKeys known)))"

definition suggestKey :: "string \<Rightarrow> string list \<Rightarrow> string" where
  "suggestKey path known =
     (let best = suggestNearby path known in
      if best \<noteq> [] then best
      else (case find (\<lambda>k. snd (splitPath k) = snd (splitPath path)) (sortedKeys known) of Some k \<Rightarrow> k | None \<Rightarrow> []))"

record unknown_key =
  uk_path :: string
  uk_hint :: string
  uk_line :: nat
  uk_dotted :: bool

definition judge :: "schema \<Rightarrow> visited \<Rightarrow> unknown_key option" where
  "judge s v =
     (if schema_descend s (vs_path v) (vs_plain v) \<or> HasPrefix (vs_path v) ''x-'' \<or> (vs_plain v \<and> vs_path v \<in> set (sc_known s)) then None
      else Some \<lparr>uk_path = vs_path v, uk_hint = (if vs_plain v then suggestKey (vs_path v) (sc_known s) else []),
                 uk_line = y_line (vs_key v),
                 uk_dotted = (\<not> vs_plain v \<and> (case vs_key v of YScalar l t x \<Rightarrow> Contains x ''.'' | _ \<Rightarrow> False))\<rparr>)"

definition maxReportedKeys :: nat where "maxReportedKeys = 50"

text \<open>The error: the keys it lists and how many more there are.\<close>

record unknown_error =
  ue_keys :: "unknown_key list"
  ue_more :: nat

definition checkUnknownKeys :: "yaml \<Rightarrow> schema \<Rightarrow> unknown_error option" where
  "checkUnknownKeys doc s =
     (let found = List.map_filter (judge s) (walkKeys (schema_descend s) [] True doc) in
      if found = [] then None
      else Some \<lparr>ue_keys = take maxReportedKeys found, ue_more = length found - maxReportedKeys\<rparr>)"

subsection \<open>Loading\<close>

text \<open>
  Reading the file, \<^verbatim>\<open>yaml.v3\<close> and the environment: the answers of the two calls of the decoder on the file, the tag a
  scalar resolves to, and the decoding of a tree over a configuration, which may fail.
\<close>

datatype decoded = DecodedDoc yaml | DecodedEOF | DecodedError

record yamllib =
  yl_read :: "string \<Rightarrow> string option"
  yl_first :: "string \<Rightarrow> decoded"
  yl_second :: "string \<Rightarrow> decoded"
  yl_ShortTag :: "yaml \<Rightarrow> string"
  yl_Decode :: "yaml \<Rightarrow> Config \<Rightarrow> Config option"
  yl_env :: "string \<rightharpoonup> string"

definition null_source :: "yamllib \<Rightarrow> visited \<Rightarrow> bool" where
  "null_source yl v =
     (vs_plain v \<and> vs_path v = ''api_keys.sources'' \<and>
      (case vs_value v of YScalar l t x \<Rightarrow> yl_ShortTag yl (vs_value v) = ''!!null'' | _ \<Rightarrow> False))"

text \<open>The lines it names; no line is no error.\<close>

definition checkNullSources :: "yamllib \<Rightarrow> yaml \<Rightarrow> schema \<Rightarrow> nat list" where
  "checkNullSources yl doc s = map (\<lambda>v. y_line (vs_key v)) (filter (null_source yl) (walkKeys (schema_descend s) [] True doc))"

datatype load_error =
    ReadFailed
  | ParseFailed
  | ManyDocuments
  | BadFile "missing_error option" "unknown_error option" "nat list"
  | DecodeFailed

definition load_document :: "unicode_lower \<Rightarrow> yamllib \<Rightarrow> yaml \<Rightarrow> load_error + Config" where
  "load_document ul yl parsed =
     (let s = configSchema ul; (doc, warnings, missing) = substituteEnv (yl_env yl) parsed;
          unknown = checkUnknownKeys doc s; nulls = checkNullSources yl doc s in
      if missing \<noteq> None \<or> unknown \<noteq> None \<or> nulls \<noteq> [] then Inl (BadFile missing unknown nulls)
      else (case yl_Decode yl doc Default of
              None \<Rightarrow> Inl DecodeFailed
            | Some c \<Rightarrow> Inr (finish_load (c\<lparr>cf_warnings := warnings\<rparr>))))"

definition Load :: "unicode_lower \<Rightarrow> yamllib \<Rightarrow> string \<Rightarrow> load_error + Config" where
  "Load ul yl configPath =
     (if configPath = [] then Inr (finish_load Default)
      else (case yl_read yl configPath of
              None \<Rightarrow> Inl ReadFailed
            | Some data \<Rightarrow>
               (case yl_first yl data of
                  DecodedError \<Rightarrow> Inl ParseFailed
                | first \<Rightarrow>
                   (case yl_second yl data of
                      DecodedDoc n \<Rightarrow> Inl ManyDocuments
                    | _ \<Rightarrow> (case first of DecodedDoc parsed \<Rightarrow> load_document ul yl parsed | _ \<Rightarrow> Inr (finish_load Default))))))"

end
