(* ===== verification/Config_Keys.thy ===== *)
theory Config_Keys
  imports Config_Env
begin

text \<open>
  What the check of the keys of the file promises, said on the sequences of keys that the file writes, and what a suggestion is worth. The last
  section is about loading: what a loaded file has passed, and two things the loader lets through.
\<close>

subsection \<open>The keys a file writes\<close>

text \<open>
  \<open>writes n ks\<close>: the file has the last key of \<open>ks\<close> below the others. Lists, documents and aliases have no name of their
  own, and the value of a merge key belongs to the mapping around it.
\<close>

inductive writes :: "yaml \<Rightarrow> yaml list \<Rightarrow> bool" where
  writes_key: "(k, v) \<in> set kvs \<Longrightarrow> \<not> is_merge k \<Longrightarrow> writes (YMap line kvs) [k]"
| writes_below: "(k, v) \<in> set kvs \<Longrightarrow> \<not> is_merge k \<Longrightarrow> writes v ks \<Longrightarrow> writes (YMap line kvs) (k # ks)"
| writes_merged: "(k, v) \<in> set kvs \<Longrightarrow> is_merge k \<Longrightarrow> writes v ks \<Longrightarrow> writes (YMap line kvs) ks"
| writes_seq: "n \<in> set ns \<Longrightarrow> writes n ks \<Longrightarrow> writes (YSeq line ns) ks"
| writes_doc: "n \<in> set ns \<Longrightarrow> writes n ks \<Longrightarrow> writes (YDoc line ns) ks"
| writes_alias: "writes n ks \<Longrightarrow> writes (YAlias line n) ks"

inductive_simps writes_simps:
  "writes (YScalar line t v) ks" "writes (YSeq line ns) ks" "writes (YDoc line ns) ks" "writes (YAlias line n) ks"
inductive_simps writes_map: "writes (YMap line kvs) ks"

text \<open>
  Each name on the way is a plain one and the path so far is a setting, until a setting without keys below it or a key for anchors ends the
  judgement.
\<close>

fun key_ok :: "schema \<Rightarrow> string \<Rightarrow> yaml list \<Rightarrow> bool" where
  "key_ok s p [] = True"
| "key_ok s p (k # ks) =
     (let path = joinPath p (fst (keyName k)) in
      HasPrefix path ''x-'' \<or>
      (snd (keyName k) \<and> path \<in> set (sc_known s) \<and> (path \<in> set (sc_containers s) \<longrightarrow> key_ok s path ks)))"

definition judged_bad :: "schema \<Rightarrow> string \<Rightarrow> yaml \<Rightarrow> bool" where
  "judged_bad s p n = (\<exists>v \<in> set (walkKeys (schema_descend s) p True n). judge s v \<noteq> None)"

lemma judged_bad_simps [simp]:
  "judged_bad s p (YScalar line t v) = False"
  "judged_bad s p (YSeq line ns) = (\<exists>n \<in> set ns. judged_bad s p n)"
  "judged_bad s p (YDoc line ns) = (\<exists>n \<in> set ns. judged_bad s p n)"
  "judged_bad s p (YAlias line n) = judged_bad s p n"
  by (auto simp: judged_bad_def)

lemma judge_None:
  "judge s v = None \<longleftrightarrow> HasPrefix (vs_path v) ''x-'' \<or> (vs_plain v \<and> vs_path v \<in> set (sc_known s))"
  by (auto simp: judge_def schema_descend_def split: if_splits)

lemma judged_bad_map:
  "judged_bad s p (YMap line kvs) \<longleftrightarrow>
     (\<exists>(k, v) \<in> set kvs.
        if is_merge k then judged_bad s p v
        else let path = joinPath p (fst (keyName k)) in
          \<not> HasPrefix path ''x-'' \<and>
          (\<not> (snd (keyName k) \<and> path \<in> set (sc_known s)) \<or> path \<in> set (sc_containers s) \<and> judged_bad s path v))"
proof -
  have "judged_bad s p (YMap line kvs) \<longleftrightarrow>
     (\<exists>(k, v) \<in> set kvs.
        if is_merge k then judged_bad s p v
        else let path = joinPath p (fst (keyName k)); plain = snd (keyName k) in
          judge s \<lparr>vs_path = path, vs_key = k, vs_value = v, vs_plain = plain\<rparr> \<noteq> None \<or>
          schema_descend s path plain \<and> judged_bad s path v)"
    unfolding judged_bad_def walkKeys.simps set_concat set_map UN_simps bex_UN
  proof (rule bex_cong [OF refl], goal_cases)
    case (1 kv)
    show ?case by (cases kv) (auto simp: Let_def schema_descend_def)
  qed
  then show ?thesis by (simp only: judge_None) (fastforce simp: Let_def schema_descend_def split: if_splits)
qed

lemma judged_bad_iff: "judged_bad s p n \<longleftrightarrow> (\<exists>ks. writes n ks \<and> \<not> key_ok s p ks)"
proof (induction n arbitrary: p)
  case (YMap line kvs)
  have IH: "judged_bad s q v \<longleftrightarrow> (\<exists>ks. writes v ks \<and> \<not> key_ok s q ks)" if "(k, v) \<in> set kvs" for k v q
    using YMap.IH [OF that, of v] by simp
  show ?case
  proof
    assume "judged_bad s p (YMap line kvs)"
    then show "\<exists>ks. writes (YMap line kvs) ks \<and> \<not> key_ok s p ks"
      unfolding judged_bad_map
      by (fastforce simp: IH Let_def split: if_splits dest: writes_key writes_below writes_merged)
  next
    assume "\<exists>ks. writes (YMap line kvs) ks \<and> \<not> key_ok s p ks"
    then obtain ks where ks: "writes (YMap line kvs) ks" "\<not> key_ok s p ks" by blast
    from ks(1) show "judged_bad s p (YMap line kvs)"
      unfolding judged_bad_map
      by (rule writes_map [THEN iffD1, THEN disjE]) (use ks(2) IH in \<open>fastforce simp: Let_def\<close>)+
  qed
qed (auto simp: writes_simps)

lemma map_filter_empty: "List.map_filter f xs = [] \<longleftrightarrow> (\<forall>x \<in> set xs. f x = None)"
  by (induction xs) (auto simp: List.map_filter_simps split: option.splits)

lemma checkUnknownKeys_None: "checkUnknownKeys n s = None \<longleftrightarrow> (\<forall>ks. writes n ks \<longrightarrow> key_ok s [] ks)"
  using judged_bad_iff [of s "[]" n] by (auto simp: checkUnknownKeys_def map_filter_empty judged_bad_def Let_def)

subsection \<open>Suggestions\<close>

text \<open>
  What a suggestion is worth: the nearest of the keys valid in the same place that are within the budget, otherwise a key of the same
  name elsewhere, otherwise none.
\<close>

definition key_distance :: "string \<Rightarrow> string \<Rightarrow> nat" where
  "key_distance path k = editDistance (snd (splitPath path)) (snd (splitPath k))"

definition near_keys :: "string list \<Rightarrow> string \<Rightarrow> string list" where
  "near_keys known path =
     filter (\<lambda>k. fst (splitPath k) = fst (splitPath path) \<and> key_distance path k \<le> editBudget (snd (splitPath path))) known"

definition hint_ok :: "string list \<Rightarrow> string \<Rightarrow> string \<Rightarrow> bool" where
  "hint_ok known path hint =
     (if near_keys known path \<noteq> []
      then hint \<in> set (near_keys known path) \<and> (\<forall>k \<in> set (near_keys known path). key_distance path hint \<le> key_distance path k)
      else let same = filter (\<lambda>k. snd (splitPath k) = snd (splitPath path)) known in
        if same \<noteq> [] then hint \<in> set same else hint = [])"

definition best_so_far :: "string \<Rightarrow> string list \<Rightarrow> string \<times> nat \<Rightarrow> bool" where
  "best_so_far path ks best =
     (if near_keys ks path = [] then best = ([], editBudget (snd (splitPath path)) + 1)
      else fst best \<in> set (near_keys ks path) \<and> snd best = key_distance path (fst best) \<and>
           (\<forall>k \<in> set (near_keys ks path). snd best \<le> key_distance path k))"

lemma near_keys_snoc: "near_keys (ks @ [k]) path =
    near_keys ks path @
    (if fst (splitPath k) = fst (splitPath path) \<and> key_distance path k \<le> editBudget (snd (splitPath path)) then [k] else [])"
  by (simp add: near_keys_def)

lemma best_so_far_step:
  assumes "best_so_far path ks best"
  shows "best_so_far path (ks @ [k]) (nearer (fst (splitPath path)) (snd (splitPath path)) best k)"
proof -
  have d: "editDistance (snd (splitPath path)) (snd (splitPath k)) = key_distance path k" by (simp add: key_distance_def)
  have b: "snd best \<le> editBudget (snd (splitPath path)) + 1"
    using assms by (auto simp: best_so_far_def near_keys_def split: if_splits)
  show ?thesis
    using assms b unfolding best_so_far_def nearer_def near_keys_snoc d
    by (auto simp: Let_def split: if_splits)
qed

lemma best_so_far_foldl:
  "best_so_far path ks (foldl (nearer (fst (splitPath path)) (snd (splitPath path))) ([], editBudget (snd (splitPath path)) + 1) ks)"
  by (induction ks rule: rev_induct) (auto simp: best_so_far_step, simp add: best_so_far_def near_keys_def)

lemma set_sortedKeys [simp]: "set (sortedKeys known) = set known"
  by (simp add: sortedKeys_def)

lemma set_near_keys_sorted: "set (near_keys (sortedKeys known) path) = set (near_keys known path)"
  by (simp add: near_keys_def)

lemma find_in: "find P xs = Some x \<Longrightarrow> x \<in> set xs \<and> P x"
  by (auto simp: find_Some_iff)

lemma suggestKey_ok:
  assumes "[] \<notin> set known"
  shows "hint_ok known path (suggestKey path known)"
proof -
  let ?near = "set (near_keys known path)"
  have best: "best_so_far path (sortedKeys known)
      (foldl (nearer (fst (splitPath path)) (snd (splitPath path))) ([], editBudget (snd (splitPath path)) + 1) (sortedKeys known))"
    (is "best_so_far _ _ ?best") by (rule best_so_far_foldl)
  have nearby: "suggestNearby path known = fst ?best" by (simp add: suggestNearby_def case_prod_beta)
  have empty: "near_keys (sortedKeys known) path = [] \<longleftrightarrow> near_keys known path = []"
    using set_near_keys_sorted [of known path] by (metis set_empty)
  show ?thesis
  proof (cases "near_keys known path = []")
    case True
    with best nearby empty have "suggestNearby path known = []" by (simp add: best_so_far_def)
    with True show ?thesis
      by (auto simp: hint_ok_def suggestKey_def Let_def filter_empty_conv find_None_iff split: option.splits dest: find_in)
  next
    case False
    with best nearby empty have b: "suggestNearby path known \<in> ?near"
      "\<forall>k \<in> ?near. key_distance path (suggestNearby path known) \<le> key_distance path k"
      by (auto simp: best_so_far_def set_near_keys_sorted)
    then have "suggestNearby path known \<noteq> []" using assms by (auto simp: near_keys_def)
    with b False show ?thesis by (simp add: hint_ok_def suggestKey_def Let_def)
  qed
qed

lemma judge_hint: "judge s v = Some u \<Longrightarrow> [] \<notin> set (sc_known s) \<Longrightarrow> uk_hint u = [] \<or> hint_ok (sc_known s) (uk_path u) (uk_hint u)"
  by (auto simp: judge_def suggestKey_ok split: if_splits)

lemma set_map_filter: "y \<in> set (List.map_filter f xs) \<longleftrightarrow> (\<exists>x \<in> set xs. f x = Some y)"
  by (induction xs) (auto simp: List.map_filter_simps split: option.splits)

lemma config_keys_nonempty: "[] \<notin> set (sc_known (configSchema ul))"
proof -
  have "list_all (\<lambda>k. k \<noteq> []) (sc_known (configSchema ul))" by code_simp
  then show ?thesis by (auto simp: list_all_iff)
qed

text \<open>
  C11: the file is accepted by the key check exactly when every sequence of keys it writes, through lists, aliases and merge
  keys, names settings: plain names, each path known, down to a setting without keys below it or a key reserved for anchors. Each
  suggestion of a refusal is the nearest key of the same place within the budget of edits, or else a key of the same name elsewhere.
\<close>

theorem unknown_keys_refused:
  "(checkUnknownKeys n (configSchema ul) = None \<longleftrightarrow> (\<forall>ks. writes n ks \<longrightarrow> key_ok (configSchema ul) [] ks)) \<and>
   (\<forall>e u. checkUnknownKeys n (configSchema ul) = Some e \<longrightarrow> u \<in> set (ue_keys e) \<longrightarrow>
      uk_hint u = [] \<or> hint_ok (sc_known (configSchema ul)) (uk_path u) (uk_hint u))"
proof -
  have "uk_hint u = [] \<or> hint_ok (sc_known (configSchema ul)) (uk_path u) (uk_hint u)"
    if "checkUnknownKeys n (configSchema ul) = Some e" "u \<in> set (ue_keys e)" for e u
    using that judge_hint [OF _ config_keys_nonempty, of ul _ u]
    by (auto simp: checkUnknownKeys_def Let_def set_map_filter split: if_splits dest!: in_set_takeD)
  then show ?thesis by (auto simp: checkUnknownKeys_None)
qed

text \<open>A file with \<^verbatim>\<open>adr: ":80"\<close> in it.\<close>

definition typo_key :: yaml where "typo_key = YScalar 1 ''!!str'' ''adr''"

definition typo_file :: yaml where
  "typo_file = YDoc 1 [YMap 1 [(typo_key, YScalar 1 ''!!str'' '':80'')]]"

lemma typo_written: "writes typo_file [typo_key]"
  unfolding typo_file_def by (rule writes_doc [where n = "YMap 1 [(typo_key, YScalar 1 ''!!str'' '':80'')]"])
    (auto simp: is_merge_def typo_key_def intro: writes_key)

lemma typo_not_ok: "\<not> key_ok (configSchema ul) [] [typo_key]"
proof -
  have "list_all (\<lambda>k. k \<noteq> ''adr'') (sc_known (configSchema ul))" by code_simp
  then show ?thesis by (auto simp: typo_key_def keyName_def joinPath_def list_all_iff HasPrefix_iff_prefix Let_def)
qed

theorem unknown_keys_refused_witness:
  "\<exists>e. checkUnknownKeys typo_file (configSchema (\<lambda>r. r)) = Some e \<and>
       list_all (\<lambda>u. uk_hint u = [] \<or> hint_ok (sc_known (configSchema (\<lambda>r. r))) (uk_path u) (uk_hint u)) (ue_keys e)"
  using unknown_keys_refused [of typo_file "\<lambda>r. r"] typo_written typo_not_ok [of "\<lambda>r. r"] by (auto simp: list_all_iff)

subsection \<open>What loading lets through\<close>

text \<open>A file that loads is one document, with no reference left without a value, no unknown key and no empty list of sources.\<close>

lemma Load_Inr:
  assumes "Load ul yl path = Inr c" "path \<noteq> []" "yl_read yl path = Some data" "yl_first yl data = DecodedDoc parsed"
  shows "(\<forall>n. yl_second yl data \<noteq> DecodedDoc n) \<and> snd (snd (substituteEnv (yl_env yl) parsed)) = None \<and>
         checkUnknownKeys (fst (substituteEnv (yl_env yl) parsed)) (configSchema ul) = None \<and>
         checkNullSources yl (fst (substituteEnv (yl_env yl) parsed)) (configSchema ul) = []"
  using assms
  by (auto simp: Load_def load_document_def Let_def split: decoded.splits prod.splits if_splits option.splits)

text \<open>A second document that cannot be parsed is dropped with everything in it, where a second one that can be is refused.\<close>

lemma broken_second_document:
  assumes "path \<noteq> []" "yl_read yl path = Some data" "yl_first yl data = DecodedDoc parsed" "yl_second yl data = DecodedError"
  shows "Load ul yl path = load_document ul yl parsed"
  using assms by (simp add: Load_def)

text \<open>
  A reference in a mapping merged in place (\<^verbatim>\<open><<: {admin_token: ${T}}\<close>) is neither replaced nor missed: the
  setting is the text of the reference.
\<close>

definition merged_reference :: yaml where
  "merged_reference =
     YMap 1 [(YScalar 1 ''!!merge'' ''<<'', YMap 1 [(YScalar 1 ''!!str'' ''admin_token'', YScalar 1 ''!!str'' ''${T}'')])]"

lemma merged_reference_kept: "substituteEnv env merged_reference = (merged_reference, [], None)"
  by (simp add: substituteEnv_def merged_reference_def gather_def quiet_def is_merge_def)

lemma plain_reference_missing:
  "env ''T'' = None \<Longrightarrow>
   re_missing (substitute env [] (YMap 1 [(YScalar 1 ''!!str'' ''admin_token'', YScalar 1 ''!!str'' ''${T}'')])) =
     [\<lparr>er_field = ''admin_token'', er_name = ''T'', er_line = 1\<rparr>]"
  by (simp add: gather_def is_merge_def resolve_ref_def envRef_def name_char_def name_start_def keyName_def joinPath_def HasPrefix_iff_prefix)

end
