(* ===== verification/Channel_Text.thy ===== *)
theory Channel_Text
  imports Domain Go_Time Go_Strings
begin

text \<open>
  \<^verbatim>\<open>internal/channels/format.go\<close>: the texts every channel builds its message from, and the cuts that keep them within the limits
  of the services. A string is its bytes. Unicode upper case, \<^verbatim>\<open>strconv.Quote\<close> and the re-indentation of the stored payload
  (package \<^verbatim>\<open>encoding/json\<close>) are the functions of \<open>textlib\<close>. The instants of an event are read from the store, in UTC.
\<close>

record textlib =
  tl_upper :: "string \<Rightarrow> string"
  tl_quote :: "string \<Rightarrow> string"
  tl_indent :: "string \<Rightarrow> string option"
  tl_compact :: "string \<Rightarrow> string option"

definition ascii_upper :: "char \<Rightarrow> char" where
  "ascii_upper c = (let n = (of_char c :: nat) in if 97 \<le> n \<and> n \<le> 122 then char_of (n - 32) else c)"

definition upper_rune :: "textlib \<Rightarrow> string \<Rightarrow> string" where
  "upper_rune lib r =
     (case r of [c] \<Rightarrow> if (of_char c :: nat) < 128 then [ascii_upper c] else RuneError | _ \<Rightarrow> tl_upper lib r)"

definition ToUpper :: "textlib \<Rightarrow> string \<Rightarrow> string" where
  "ToUpper lib s = (if is_ascii s then map ascii_upper s else concat (map (upper_rune lib) (runes s)))"

fun EventState_str :: "EventState \<Rightarrow> string" where
  "EventState_str StateNew = ''new''"
| "EventState_str StateAcknowledged = ''acknowledged''"
| "EventState_str StateResolved = ''resolved''"
| "EventState_str StateMuted = ''muted''"
| "EventState_str StateEscalated = ''escalated''"
| "EventState_str (EventStateOther s) = s"

fun DeliveryKind_str :: "DeliveryKind \<Rightarrow> string" where
  "DeliveryKind_str KindAlert = ''alert''"
| "DeliveryKind_str KindRecovery = ''recovery''"
| "DeliveryKind_str (KindOther s) = s"

subsection \<open>Subject and headline\<close>

definition subjectLine :: "textlib \<Rightarrow> Notification \<Rightarrow> string" where
  "subjectLine lib n =
     (let e = nt_event n in
      if IsRecovery n then ''[RESOLVED] '' @ ev_message e
      else ''['' @ ToUpper lib (Severity_str (ev_severity e)) @ ''/'' @ EventType_str (ev_type e) @ ''] '' @ ev_message e)"

record look =
  lk_emoji :: string
  lk_color :: nat
  lk_card :: string

definition severityLook :: "Notification \<Rightarrow> look" where
  "severityLook n =
     (if IsRecovery n then \<lparr>lk_emoji = [CHR 0xE2, CHR 0x9C, CHR 0x85], lk_color = 0x2EB67D, lk_card = ''good''\<rparr>
      else (case ev_severity (nt_event n) of
              SeverityCritical \<Rightarrow> \<lparr>lk_emoji = [CHR 0xF0, CHR 0x9F, CHR 0x94, CHR 0xB4], lk_color = 0xD0021B, lk_card = ''attention''\<rparr>
            | SeverityError \<Rightarrow> \<lparr>lk_emoji = [CHR 0xF0, CHR 0x9F, CHR 0x9F, CHR 0xA0], lk_color = 0xF5821F, lk_card = ''attention''\<rparr>
            | SeverityWarning \<Rightarrow> \<lparr>lk_emoji = [CHR 0xF0, CHR 0x9F, CHR 0x9F, CHR 0xA1], lk_color = 0xF2C744, lk_card = ''warning''\<rparr>
            | SeveritySuccess \<Rightarrow> \<lparr>lk_emoji = [CHR 0xF0, CHR 0x9F, CHR 0x9F, CHR 0xA2], lk_color = 0x2EB67D, lk_card = ''good''\<rparr>
            | _ \<Rightarrow> \<lparr>lk_emoji = [CHR 0xF0, CHR 0x9F, CHR 0x94, CHR 0xB5], lk_color = 0x439FE0, lk_card = ''accent''\<rparr>))"

definition headline :: "textlib \<Rightarrow> Notification \<Rightarrow> string" where
  "headline lib n = lk_emoji (severityLook n) @ '' '' @ subjectLine lib n"

definition preamble :: "textlib \<Rightarrow> Notification \<Rightarrow> string" where
  "preamble lib n =
     (if IsRecovery n then ''The incident below is resolved.'' @ [CHR 0x0A] else []) @
     (case nt_fallback n of
        None \<Rightarrow> []
      | Some f \<Rightarrow>
          ''Redirected: channel '' @ tl_quote lib (fo_channel f) @ '' could not deliver this alert.'' @ [CHR 0x0A] @
          (if fo_error f \<noteq> [] then ''Its error: '' @ fo_error f @ [CHR 0x0A] else []))"

subsection \<open>Details\<close>

record fact =
  fa_label :: string
  fa_value :: string

abbreviation a_fact :: "string \<Rightarrow> string \<Rightarrow> fact" where
  "a_fact l v \<equiv> \<lparr>fa_label = l, fa_value = v\<rparr>"

text \<open>The layout \<^verbatim>\<open>2006-01-02 15:04:05 MST\<close> of an instant in UTC.\<close>

definition stamp :: "time \<Rightarrow> string" where
  "stamp t =
     (let r = t mod (24 * Hour) in
      format_date (t div (24 * Hour)) @ '' '' @ appendInt 2 (r div Hour) @ '':'' @ appendInt 2 (r mod Hour div Minute) @ '':'' @
      appendInt 2 (r mod Minute div Second) @ '' UTC'')"

definition Round_second :: "duration \<Rightarrow> duration" where
  "Round_second d = (d + Second div 2) div Second * Second"

definition humanDuration :: "duration \<Rightarrow> string" where
  "humanDuration d0 =
     (let d = Round_second (if d0 < 0 then 0 else d0); i = (\<lambda>x. Itoa (nat x)) in
      if d < Minute then i (d div Second) @ ''s''
      else if d < Hour then i (d div Minute) @ ''m'' @ i (d div Second mod 60) @ ''s''
      else if d < 24 * Hour then i (d div Hour) @ ''h'' @ i (d div Minute mod 60) @ ''m''
      else i (d div Hour div 24) @ ''d'' @ i (d div Hour mod 24) @ ''h'')"

definition facts :: "Notification \<Rightarrow> fact list" where
  "facts n =
     (let e = nt_event n in
      [a_fact ''Type'' (EventType_str (ev_type e)), a_fact ''Severity'' (Severity_str (ev_severity e)),
       a_fact ''State'' (EventState_str (ev_state e)), a_fact ''Source'' (ev_source e)] @
      (if ev_category e \<noteq> [] then [a_fact ''Category'' (ev_category e)] else []) @
      (if ev_entity_type e \<noteq> [] \<or> ev_entity_id e \<noteq> [] then [a_fact ''Entity'' (ev_entity_type e @ ''/'' @ ev_entity_id e)] else []) @
      (if ev_trace_id e \<noteq> [] then [a_fact ''Trace'' (ev_trace_id e)] else []) @
      (if ev_dedupe_key e \<noteq> [] then [a_fact ''Key'' (ev_dedupe_key e)] else []) @
      [a_fact ''Event ID'' (ev_id e), a_fact ''Started'' (stamp (ev_created_at e))] @
      (case ev_resolved_at e of
         Some at1 \<Rightarrow>
           if IsRecovery n
           then [a_fact ''Resolved'' (stamp at1), a_fact ''Duration'' (humanDuration (at1 - ev_created_at e))]
           else if ev_last_seen_at e \<noteq> 0 \<and> ev_last_seen_at e > ev_created_at e then [a_fact ''Last seen'' (stamp (ev_last_seen_at e))] else []
       | None \<Rightarrow>
           if ev_last_seen_at e \<noteq> 0 \<and> ev_last_seen_at e > ev_created_at e then [a_fact ''Last seen'' (stamp (ev_last_seen_at e))] else []))"

subsection \<open>Payload and body\<close>

definition prettyJSON :: "textlib \<Rightarrow> string \<Rightarrow> string" where
  "prettyJSON lib raw = (case tl_indent lib raw of None \<Rightarrow> raw | Some out \<Rightarrow> out)"

definition payloadText :: "textlib \<Rightarrow> Notification \<Rightarrow> string" where
  "payloadText lib n =
     (let p = ev_payload (nt_event n) in if p = [] \<or> p = ''{}'' then [] else prettyJSON lib p)"

definition compactPayload :: "textlib \<Rightarrow> Notification \<Rightarrow> string" where
  "compactPayload lib n =
     (let p = ev_payload (nt_event n) in
      if p = [] \<or> p = ''{}'' then [] else (case tl_compact lib p of None \<Rightarrow> p | Some out \<Rightarrow> out))"

text \<open>The verb \<^verbatim>\<open>%-9s\<close> of package \<^verbatim>\<open>fmt\<close>: padded with spaces on the right up to nine characters.\<close>

definition pad9 :: "string \<Rightarrow> string" where
  "pad9 s = s @ replicate (9 - RuneCountInString s) CHR '' ''"

definition fact_line :: "string \<Rightarrow> string \<Rightarrow> string" where
  "fact_line label v = pad9 (label @ '':'') @ '' '' @ v @ [CHR 0x0A]"

definition textBody :: "textlib \<Rightarrow> Notification \<Rightarrow> bool \<Rightarrow> string" where
  "textBody lib n withLink =
     (if preamble lib n \<noteq> [] then preamble lib n @ [CHR 0x0A] else []) @
     concat (map (\<lambda>f. fact_line (fa_label f) (fa_value f)) (facts n)) @
     (if withLink \<and> nt_event_url n \<noteq> [] then fact_line ''Link'' (nt_event_url n) else []) @
     (let p = payloadText lib n in if p \<noteq> [] then [CHR 0x0A] @ ''Payload:'' @ [CHR 0x0A] @ p @ [CHR 0x0A] else [])"

definition plainBody :: "textlib \<Rightarrow> Notification \<Rightarrow> string" where
  "plainBody lib n = textBody lib n True"

subsection \<open>Cuts\<close>

definition truncatedMark :: string where
  "truncatedMark = [CHR 0xE2, CHR 0x80, CHR 0xA6] @ '' [truncated]''"

text \<open>\<^verbatim>\<open>string([]rune(s)[:k])\<close>.\<close>

definition first_runes :: "nat \<Rightarrow> string \<Rightarrow> string" where
  "first_runes k s = concat (map fix_rune (take k (runes s)))"

definition clip :: "string \<Rightarrow> nat \<Rightarrow> string" where
  "clip s n =
     (if RuneCountInString s \<le> n then s
      else first_runes (n - RuneCountInString truncatedMark) s @ truncatedMark)"

definition RuneStart :: "char \<Rightarrow> bool" where
  "RuneStart c = (\<not> cont_byte c)"

fun back_to_start :: "string \<Rightarrow> nat \<Rightarrow> nat" where
  "back_to_start s 0 = 0"
| "back_to_start s (Suc k) = (if RuneStart (s ! Suc k) then Suc k else back_to_start s k)"

definition clipBytes :: "string \<Rightarrow> nat \<Rightarrow> string" where
  "clipBytes s n =
     (if length s \<le> n then s
      else take (back_to_start s (n - length truncatedMark)) s @ truncatedMark)"

definition truncateRunes :: "string \<Rightarrow> nat \<Rightarrow> string" where
  "truncateRunes s n =
     (if length s \<le> n then s else if length (runes s) \<le> n then s else first_runes n s)"

subsection \<open>Lemmas\<close>

lemma runes_first_runes: "runes (first_runes k s) = map fix_rune (take k (runes s))"
  unfolding first_runes_def
  by (rule runes_concat) (auto simp: list_all_iff dest!: in_set_takeD intro: whole_fix_rune)

lemma runes_first_append: "runes (first_runes k s @ t) = map fix_rune (take k (runes s)) @ runes t"
  unfolding first_runes_def
  by (rule runes_concat_append) (auto simp: list_all_iff dest!: in_set_takeD intro: whole_fix_rune)

lemma truncatedMark_size: "RuneCountInString truncatedMark = 13" "length truncatedMark = 15"
  by code_simp+

lemma clip_bound: "RuneCountInString (clip s n) \<le> max n 13"
  using truncatedMark_size(1) by (auto simp: clip_def RuneCountInString_def runes_first_append max_def)

lemma truncateRunes_bound: "RuneCountInString (truncateRunes s n) \<le> n"
proof -
  have "length (runes s) \<le> length s"
  proof (induction s rule: runes.induct)
    case (1 s)
    show ?case
    proof (cases "s = []")
      case False
      then show ?thesis
        using "1.IH" rune_width_pos [OF False] rune_width_le [of s] by (simp add: runes.simps [of s])
    qed simp
  qed
  then show ?thesis by (simp add: truncateRunes_def RuneCountInString_def runes_first_runes)
qed

lemma back_to_start_le: "back_to_start s k \<le> k"
  by (induction k) auto

lemma clipBytes_bound: "length (clipBytes s n) \<le> max n 15"
  using back_to_start_le [of s "n - 15"] truncatedMark_size(2) by (auto simp: clipBytes_def)

text \<open>An ASCII text that a cut shows was there before.\<close>

lemma fix_rune_or: "fix_rune r = r \<or> fix_rune r = RuneError"
  by (auto simp: fix_rune_def split: list.splits if_splits)

lemma prefix_fixed_runes:
  assumes "is_ascii u" "prefix u (concat (map fix_rune rs))"
  shows "prefix u (concat rs)"
  using assms
proof (induction rs arbitrary: u)
  case (Cons r rs)
  show ?case
  proof (cases "fix_rune r = r")
    case True
    then show ?thesis using Cons by (auto simp: prefix_append is_ascii_def)
  next
    case False
    then have "fix_rune r = RuneError" using fix_rune_or by blast
    with Cons.prems have "u = []" by (cases u) (auto simp: is_ascii_def RuneError_def)
    then show ?thesis by simp
  qed
qed simp

lemma ascii_not_error: "is_ascii u \<Longrightarrow> set u \<subseteq> set RuneError \<Longrightarrow> u = []"
  by (cases u) (auto simp: is_ascii_def RuneError_def)

lemma sublist_fixed_runes:
  assumes "is_ascii u" "u \<noteq> []" "sublist u (concat (map fix_rune rs))"
  shows "sublist u (concat rs)"
  using assms(3)
proof (induction rs)
  case (Cons r rs)
  have "sublist u (fix_rune r @ concat (map fix_rune rs))" using Cons.prems by simp
  then consider "sublist u (fix_rune r)" | "sublist u (concat (map fix_rune rs))"
    | u1 u2 where "u = u1 @ u2" "suffix u1 (fix_rune r)" "prefix u2 (concat (map fix_rune rs))"
    by (auto simp: sublist_append)
  then show ?case
  proof cases
    case 1
    then have "fix_rune r = r" using fix_rune_or [of r] set_mono_sublist [OF 1] ascii_not_error [OF assms(1)] assms(2) by auto
    with 1 show ?thesis by (simp add: sublist_append)
  next
    case 2
    then show ?thesis using Cons.IH by (simp add: sublist_append)
  next
    case 3
    have "is_ascii u2" using 3(1) assms(1) by (simp add: is_ascii_def)
    then have p: "prefix u2 (concat rs)" using 3(3) by (rule prefix_fixed_runes)
    have "is_ascii u1" using 3(1) assms(1) by (simp add: is_ascii_def)
    then have "u1 = [] \<or> fix_rune r = r" using fix_rune_or [of r] set_mono_suffix [OF 3(2)] ascii_not_error [of u1] by auto
    then have "suffix u1 r" using 3(2) by auto
    then have "sublist (u1 @ u2) (r @ concat rs)" using p unfolding sublist_append by blast
    then show ?thesis by (simp add: 3(1))
  qed
qed (use assms(2) in simp)

lemma sublist_first_runes: "is_ascii u \<Longrightarrow> u \<noteq> [] \<Longrightarrow> sublist u (first_runes k s) \<Longrightarrow> sublist u s"
  unfolding first_runes_def
  by (drule (2) sublist_fixed_runes) (metis append_take_drop_id concat_append concat_runes sublist_append_rightI sublist_order.order_trans)

end
