(* ===== verification/Channel_Http.thy ===== *)
theory Channel_Http
  imports Channel_Text Go_Marshal Http Registry
begin

text \<open>
  \<^verbatim>\<open>internal/channels/httpsend.go\<close>, \<^verbatim>\<open>telegram.go\<close> and \<^verbatim>\<open>webhook.go\<close>: the channels that post one message to one HTTP endpoint, and what an
  operator gets to read when the endpoint refuses it. The HTTP client is the parameter \<open>do\<close> from requests to results; it
  follows no redirect (\<^verbatim>\<open>noRedirect\<close>). A failed exchange carries the text of its error, the text of its cause when the error is a
  \<^verbatim>\<open>*url.Error\<close>, whether it wraps a cancellation, and the cause of a cancelled context. Decoding the JSON of an
  answer (as an object, or as the fields \<open>ok\<close> and \<open>description\<close> of the Bot API), the JSON of a webhook body and HMAC-SHA256 are parameters too.
\<close>

subsection \<open>Requests and results\<close>

record http_request =
  hr_url :: string
  hr_headers :: "(string \<times> string) list"
  hr_body :: string

record http_failure =
  hf_text :: string
  hf_cause :: "string option"
  hf_canceled :: bool
  hf_ctx :: "string option"

record http_answer =
  ha_status :: nat
  ha_body :: string
  ha_location :: "string option"

datatype http_result = BadRequest http_failure | Failed http_failure | Answered http_answer

record sendlib =
  sl_lib :: golib
  sl_text :: textlib
  sl_object :: "string \<Rightarrow> (string \<rightharpoonup> json) option"
  sl_do :: "http_request \<Rightarrow> http_result"
  sl_telegram :: "string \<Rightarrow> bool \<times> string"
  sl_hmac :: "string \<Rightarrow> string \<Rightarrow> string"

abbreviation failed_with :: "string \<Rightarrow> bool \<Rightarrow> send_error option" where
  "failed_with t c \<equiv> Some \<lparr>se_text = t, se_canceled = c\<rparr>"

subsection \<open>Endpoints and their secrets\<close>

record httpTarget =
  ht_name :: string
  ht_service :: string
  ht_url :: string
  ht_origin :: string
  ht_secrets :: "string list"
  ht_timeout :: duration

definition originOf :: "golib \<Rightarrow> string \<Rightarrow> string" where
  "originOf gl raw =
     (case gl_ParseURL gl raw of
        None \<Rightarrow> ''(unparsable url)''
      | Some u \<Rightarrow> if ur_Host u = [] then ''(unparsable url)'' else ur_Scheme u @ ''://'' @ ur_Host u)"

definition send_timeout :: "duration \<Rightarrow> duration" where
  "send_timeout t = (if t \<le> 0 then DefaultChannelTimeout else t)"

definition newHTTPTarget :: "golib \<Rightarrow> string \<Rightarrow> string \<Rightarrow> string \<Rightarrow> duration \<Rightarrow> string list \<Rightarrow> httpTarget" where
  "newHTTPTarget gl name service rawURL timeout secrets =
     \<lparr>ht_name = name, ht_service = service, ht_url = rawURL, ht_origin = originOf gl rawURL,
      ht_secrets = filter (\<lambda>s. s \<noteq> []) secrets, ht_timeout = send_timeout timeout\<rparr>"

definition urlSecrets :: "golib \<Rightarrow> string \<Rightarrow> string list" where
  "urlSecrets gl raw =
     raw # (case gl_ParseURL gl raw of
              None \<Rightarrow> []
            | Some u \<Rightarrow> (if length (ur_EscapedPath u) > 1 then [ur_EscapedPath u] else []) @ [ur_RawQuery u])"

definition redact :: "string list \<Rightarrow> string \<Rightarrow> string" where
  "redact secrets s = foldl (\<lambda>t secret. ReplaceAll t secret ''***'') s secrets"

subsection \<open>Posting\<close>

definition redirectError :: "golib \<Rightarrow> string \<Rightarrow> http_answer \<Rightarrow> send_error option" where
  "redirectError gl service a =
     (let to = (case ha_location a of None \<Rightarrow> ''(no location)'' | Some l \<Rightarrow> originOf gl l) in
      failed_with (service @ '' answered status '' @ Itoa (ha_status a) @ '': redirect to '' @ to @ '' not followed'') False)"

definition json_detail :: "json option \<Rightarrow> string option" where
  "json_detail v =
     (case v of
        Some (JStr s) \<Rightarrow> if s \<noteq> [] then Some s else None
      | Some (JArr vs) \<Rightarrow>
          (let parts = List.map_filter (\<lambda>p. case p of JStr s \<Rightarrow> Some s | _ \<Rightarrow> None) vs in
           if parts \<noteq> [] then Some (Join parts ''; '') else None)
      | _ \<Rightarrow> None)"

definition responseDetail :: "sendlib \<Rightarrow> string \<Rightarrow> string" where
  "responseDetail sl data =
     (let plain = Join (Fields data) '' '' in
      case sl_object sl data of
        None \<Rightarrow> plain
      | Some m \<Rightarrow>
          (case List.map_filter (\<lambda>key. json_detail (m key)) [''error'', ''message'', ''description'', ''errors''] of
             [] \<Rightarrow> plain
           | d # _ \<Rightarrow> d))"

definition refusal :: "string \<Rightarrow> nat \<Rightarrow> string" where
  "refusal service code =
     (if code = 429 then service @ '' rate limited the message (status 429)''
      else if code \<ge> 500 then service @ '' server error (status '' @ Itoa code @ '')''
      else service @ '' rejected the message (status '' @ Itoa code @ '')'')"

definition refused_detail :: "sendlib \<Rightarrow> httpTarget \<Rightarrow> string \<Rightarrow> string" where
  "refused_detail sl h body = clip (redact (ht_secrets h) (responseDetail sl (take 4096 body))) 300"

definition post_request :: "httpTarget \<Rightarrow> string \<Rightarrow> string \<Rightarrow> string \<Rightarrow> http_request" where
  "post_request h contentType body auth =
     \<lparr>hr_url = ht_url h,
      hr_headers = [(''Content-Type'', contentType), (''User-Agent'', ''AlertLoop/1'')] @ (if auth \<noteq> [] then [(''Authorization'', auth)] else []),
      hr_body = body\<rparr>"

definition post :: "sendlib \<Rightarrow> httpTarget \<Rightarrow> string \<Rightarrow> string \<Rightarrow> string \<Rightarrow> send_error option" where
  "post sl h contentType body auth =
     (case sl_do sl (post_request h contentType body auth) of
        BadRequest _ \<Rightarrow> failed_with (''build '' @ ht_service h @ '' request for '' @ ht_origin h @ '': invalid url'') False
      | Failed f \<Rightarrow>
          failed_with (ht_service h @ '' request to '' @ ht_origin h @ '' failed: '' @ (case hf_cause f of Some c \<Rightarrow> c | None \<Rightarrow> hf_text f))
            (hf_canceled f)
      | Answered a \<Rightarrow>
          if 200 \<le> ha_status a \<and> ha_status a < 300 then None
          else if 300 \<le> ha_status a \<and> ha_status a < 400 then redirectError (sl_lib sl) (ht_service h) a
          else
            let detail = refused_detail sl h (ha_body a) in
            failed_with (refusal (ht_service h) (ha_status a) @ (if detail \<noteq> [] then '': '' @ detail else [])) False)"

definition postJSON :: "sendlib \<Rightarrow> httpTarget \<Rightarrow> json \<Rightarrow> string \<Rightarrow> send_error option" where
  "postJSON sl h v auth = post sl h ''application/json'' (json_encode False v) auth"

subsection \<open>Telegram\<close>

record Telegram =
  tg_name :: string
  tg_bot_token :: string
  tg_chat_id :: string
  tg_api_base :: string
  tg_secrets :: "string list"
  tg_timeout :: duration

definition proxy_secrets :: "url option \<Rightarrow> string list" where
  "proxy_secrets proxy =
     (case proxy of
        None \<Rightarrow> []
      | Some u \<Rightarrow>
          (case ur_password u of
             None \<Rightarrow> []
           | Some pw \<Rightarrow> if pw = [] then [] else pw # (if QueryEscape pw \<noteq> pw then [QueryEscape pw] else [])))"

definition NewTelegram :: "string \<Rightarrow> string \<Rightarrow> string \<Rightarrow> string \<Rightarrow> url option \<Rightarrow> duration \<Rightarrow> Telegram" where
  "NewTelegram name botToken chatID apiBase proxy timeout =
     \<lparr>tg_name = name, tg_bot_token = botToken, tg_chat_id = chatID,
      tg_api_base = TrimRight (if apiBase = [] then ''https://api.telegram.org'' else apiBase) (CHR ''/''),
      tg_secrets = (if botToken \<noteq> [] then [botToken] else []) @ proxy_secrets proxy, tg_timeout = send_timeout timeout\<rparr>"

definition telegramMaxText :: nat where "telegramMaxText = 4096"

definition telegram_text :: "textlib \<Rightarrow> Notification \<Rightarrow> string" where
  "telegram_text lib n = truncateRunes (subjectLine lib n @ [CHR 0x0A, CHR 0x0A] @ plainBody lib n) telegramMaxText"

definition telegram_refused :: "sendlib \<Rightarrow> Telegram \<Rightarrow> http_answer \<Rightarrow> string" where
  "telegram_refused sl t a =
     (let data = take 8192 (ha_body a); desc = snd (sl_telegram sl data) in
      redact (tg_secrets t) (if desc = [] then TrimSpace data else desc))"

definition telegram_request :: "textlib \<Rightarrow> Telegram \<Rightarrow> Notification \<Rightarrow> http_request" where
  "telegram_request lib t n =
     \<lparr>hr_url = tg_api_base t @ ''/bot'' @ tg_bot_token t @ ''/sendMessage'', hr_headers = [(''Content-Type'', ''application/json'')],
      hr_body = json_encode True (JObj [(''chat_id'', JStr (tg_chat_id t)), (''text'', JStr (telegram_text lib n))])\<rparr>"

definition Telegram_Send :: "sendlib \<Rightarrow> Telegram \<Rightarrow> Notification \<Rightarrow> send_error option" where
  "Telegram_Send sl t n =
     (case sl_do sl (telegram_request (sl_text sl) t n) of
        BadRequest f \<Rightarrow> failed_with (''build telegram request: '' @ redact (tg_secrets t) (hf_text f)) False
      | Failed f \<Rightarrow>
          (let msg = redact (tg_secrets t) (hf_text f) in
           case hf_ctx f of
             Some cause \<Rightarrow> failed_with (''telegram request failed: '' @ msg @ '' ('' @ cause @ '')'') (hf_canceled f)
           | None \<Rightarrow> failed_with (''telegram request failed: '' @ msg) False)
      | Answered a \<Rightarrow>
          if 300 \<le> ha_status a \<and> ha_status a < 400 then redirectError (sl_lib sl) ''telegram'' a
          else if ha_status a < 200 \<or> ha_status a \<ge> 300 \<or> \<not> fst (sl_telegram sl (take 8192 (ha_body a)))
          then failed_with (''telegram send failed (status '' @ Itoa (ha_status a) @ ''): '' @ telegram_refused sl t a) False
          else None)"

subsection \<open>Webhooks\<close>

record Webhook =
  wh_name :: string
  wh_url :: string
  wh_origin :: string
  wh_secret :: string
  wh_timeout :: duration

definition NewWebhook :: "golib \<Rightarrow> string \<Rightarrow> string \<Rightarrow> string \<Rightarrow> duration \<Rightarrow> Webhook" where
  "NewWebhook gl name rawURL secret timeout =
     \<lparr>wh_name = name, wh_url = rawURL, wh_origin = originOf gl rawURL, wh_secret = secret, wh_timeout = send_timeout timeout\<rparr>"

definition redactURLError :: "Webhook \<Rightarrow> http_failure \<Rightarrow> string" where
  "redactURLError w f = (case hf_cause f of Some c \<Rightarrow> wh_origin w @ '': '' @ c | None \<Rightarrow> hf_text f)"

record webhookPayload =
  wp_event :: Event
  wp_kind :: DeliveryKind
  wp_fallback :: "FallbackOrigin option"
  wp_event_url :: string
  wp_timestamp :: string

definition SignatureHeader :: string where "SignatureHeader = ''X-AlertLoop-Signature''"
definition SignatureVersionHeader :: string where "SignatureVersionHeader = ''X-AlertLoop-Signature-Version''"

definition hex_of :: "string \<Rightarrow> string" where
  "hex_of s = concat (map (\<lambda>c. [lowerhex (of_char c div 16), lowerhex (of_char c mod 16)]) s)"

definition Sign :: "sendlib \<Rightarrow> string \<Rightarrow> string \<Rightarrow> string" where
  "Sign sl secret body = hex_of (sl_hmac sl secret body)"

definition webhook_payload :: "Notification \<Rightarrow> string \<Rightarrow> webhookPayload" where
  "webhook_payload n now =
     \<lparr>wp_event = nt_event n, wp_kind = OrAlert (nt_kind n), wp_fallback = nt_fallback n, wp_event_url = nt_event_url n, wp_timestamp = now\<rparr>"

definition webhook_request :: "sendlib \<Rightarrow> Webhook \<Rightarrow> string \<Rightarrow> http_request" where
  "webhook_request sl w body =
     \<lparr>hr_url = wh_url w,
      hr_headers = [(''Content-Type'', ''application/json''), (''User-Agent'', ''AlertLoop/1'')] @
        (if wh_secret w \<noteq> [] then [(SignatureVersionHeader, ''v1''), (SignatureHeader, Sign sl (wh_secret w) body)] else []),
      hr_body = body\<rparr>"

text \<open>\<open>marshal\<close> is \<^verbatim>\<open>json.Marshal\<close> of the payload: its text, or the text of its error.\<close>

definition Webhook_Send :: "sendlib \<Rightarrow> (webhookPayload \<Rightarrow> string + string) \<Rightarrow> string \<Rightarrow> Webhook \<Rightarrow> Notification \<Rightarrow> send_error option" where
  "Webhook_Send sl marshal now w n =
     (case marshal (webhook_payload n now) of
        Inl e \<Rightarrow> failed_with (''marshal webhook payload: '' @ e) False
      | Inr body \<Rightarrow>
         (case sl_do sl (webhook_request sl w body) of
            BadRequest f \<Rightarrow> failed_with (''build webhook request: '' @ redactURLError w f) (hf_canceled f)
          | Failed f \<Rightarrow> failed_with (''webhook request failed: '' @ redactURLError w f) (hf_canceled f)
          | Answered a \<Rightarrow>
              if 300 \<le> ha_status a \<and> ha_status a < 400 then redirectError (sl_lib sl) ''webhook'' a
              else if ha_status a < 200 \<or> ha_status a \<ge> 300 then failed_with (''webhook returned status '' @ Itoa (ha_status a)) False
              else None))"

end
