(* ===== verification/Channel_Send.thy ===== *)
theory Channel_Send
  imports Channel_Http
begin

text \<open>
  \<^verbatim>\<open>internal/channels/chat.go\<close> and \<^verbatim>\<open>push.go\<close>: the messages of the chat and push channels, which hand them to \<open>post\<close>. A message is a JSON
  value; \<open>json_encode\<close> is its text. The keys of a Go map come in their order.
\<close>

subsection \<open>Chat\<close>

definition linkTitle :: string where "linkTitle = ''Open in AlertLoop''"
definition chatHeadlineMax :: nat where "chatHeadlineMax = 1000"
definition chatPreambleMax :: nat where "chatPreambleMax = 400"
definition chatFactMax :: nat where "chatFactMax = 200"
definition chatPayloadMax :: nat where "chatPayloadMax = 2500"
definition discordContentMax :: nat where "discordContentMax = 2000"

definition chatPayload :: "textlib \<Rightarrow> Notification \<Rightarrow> string" where
  "chatPayload lib n =
     (let p = payloadText lib n in
      if p = [] then [] else ''```'' @ [CHR 0x0A] @ clip p chatPayloadMax @ [CHR 0x0A] @ ''```'')"

definition joinNonEmpty :: "string list \<Rightarrow> string" where
  "joinNonEmpty parts = Join (filter (\<lambda>p. p \<noteq> []) (map TrimSpace parts)) [CHR 0x0A, CHR 0x0A]"

definition slack_entity :: "char \<Rightarrow> string" where
  "slack_entity c =
     (if c = CHR ''&'' then ''&amp;'' else if c = CHR ''<'' then ''&lt;'' else if c = CHR ''>'' then ''&gt;'' else [c])"

definition slackEntities :: "string \<Rightarrow> string" where
  "slackEntities s = concat (map slack_entity s)"

definition mention_words :: "string list" where
  "mention_words = [''channel'', ''here'', ''all'', ''everyone'']"

text \<open>The word of a group mention at the start of a text, of any case.\<close>

definition mention :: "string \<Rightarrow> bool" where
  "mention s = list_ex (\<lambda>w. map ascii_lower (take (Suc (length w)) s) = CHR ''@'' # w) mention_words"

definition ZWSP :: string where "ZWSP = [CHR 0xE2, CHR 0x80, CHR 0x8B]"

fun break_mentions :: "string \<Rightarrow> string" where
  "break_mentions [] = []"
| "break_mentions (c # s) = (if mention (c # s) then c # ZWSP @ break_mentions s else c # break_mentions s)"

definition slackEscape :: "string \<Rightarrow> string" where
  "slackEscape s = break_mentions (slackEntities s)"

definition hex6 :: "nat \<Rightarrow> string" where
  "hex6 n = map (\<lambda>i. upperhex (n div 16 ^ i mod 16)) [5, 4, 3, 2, 1, 0]"

definition NewSlack :: "golib \<Rightarrow> string \<Rightarrow> string \<Rightarrow> duration \<Rightarrow> httpTarget" where
  "NewSlack gl name webhookURL timeout = newHTTPTarget gl name ''slack'' webhookURL timeout (urlSecrets gl webhookURL)"

definition slack_fields :: "Notification \<Rightarrow> json list" where
  "slack_fields n =
     map (\<lambda>f. JObj [(''title'', JStr (fa_label f)), (''value'', JStr (slackEscape (clip (fa_value f) chatFactMax))), (''short'', JBool True)]) (facts n)"

definition slack_message :: "textlib \<Rightarrow> Notification \<Rightarrow> json" where
  "slack_message lib n =
     (let head = slackEscape (clip (headline lib n) chatHeadlineMax);
          text = slackEscape (joinNonEmpty [clip (preamble lib n) chatPreambleMax, chatPayload lib n]) in
      JObj [(''text'', JStr head),
            (''attachments'',
              JArr [JObj ([(''fallback'', JStr head), (''color'', JStr (''#'' @ hex6 (lk_color (severityLook n))))] @
                          (if nt_event_url n \<noteq> [] then [(''title'', JStr linkTitle), (''title_link'', JStr (nt_event_url n))] else []) @
                          (if text \<noteq> [] then [(''text'', JStr text)] else []) @
                          [(''fields'', JArr (slack_fields n)), (''footer'', JStr ''AlertLoop''), (''mrkdwn_in'', JArr [JStr ''text''])])])])"

definition Slack_Send :: "sendlib \<Rightarrow> httpTarget \<Rightarrow> Notification \<Rightarrow> send_error option" where
  "Slack_Send sl h n = postJSON sl h (slack_message (sl_text sl) n) []"

definition NewTeams :: "golib \<Rightarrow> string \<Rightarrow> string \<Rightarrow> duration \<Rightarrow> httpTarget" where
  "NewTeams gl name webhookURL timeout = newHTTPTarget gl name ''teams'' webhookURL timeout (urlSecrets gl webhookURL)"

definition teams_head :: "textlib \<Rightarrow> Notification \<Rightarrow> json" where
  "teams_head lib n =
     JObj [(''color'', JStr (lk_card (severityLook n))), (''size'', JStr ''Medium''), (''text'', JStr (clip (headline lib n) chatHeadlineMax)),
           (''type'', JStr ''TextBlock''), (''weight'', JStr ''Bolder''), (''wrap'', JBool True)]"

text \<open>A text block with further \<open>entries\<close>, whose keys come before \<^verbatim>\<open>text\<close>.\<close>

definition textBlock :: "(string \<times> json) list \<Rightarrow> string \<Rightarrow> json" where
  "textBlock entries t = JObj (entries @ [(''text'', JStr t), (''type'', JStr ''TextBlock''), (''wrap'', JBool True)])"

definition teams_body :: "textlib \<Rightarrow> Notification \<Rightarrow> json list" where
  "teams_body lib n =
     [teams_head lib n] @
     map (textBlock []) (filter (\<lambda>l. l \<noteq> []) (Split (CHR 0x0A) (TrimSpace (clip (preamble lib n) chatPreambleMax)))) @
     [JObj [(''facts'', JArr (map (\<lambda>f. JObj [(''title'', JStr (fa_label f)), (''value'', JStr (clip (fa_value f) chatFactMax))]) (facts n))),
            (''type'', JStr ''FactSet'')]] @
     (let p = compactPayload lib n in
      if p \<noteq> [] then [textBlock [(''fontType'', JStr ''Monospace'')] (clip p chatPayloadMax)] else [])"

definition teams_message :: "textlib \<Rightarrow> Notification \<Rightarrow> json" where
  "teams_message lib n =
     JObj [(''type'', JStr ''message''),
           (''attachments'',
             JArr [JObj [(''contentType'', JStr ''application/vnd.microsoft.card.adaptive''),
                         (''content'',
                           JObj ([(''$schema'', JStr ''http://adaptivecards.io/schemas/adaptive-card.json'')] @
                                 (if nt_event_url n \<noteq> []
                                  then [(''actions'', JArr [JObj [(''title'', JStr linkTitle), (''type'', JStr ''Action.OpenUrl''), (''url'', JStr (nt_event_url n))]])]
                                  else []) @
                                 [(''body'', JArr (teams_body lib n)), (''msteams'', JObj [(''width'', JStr ''Full'')]),
                                  (''type'', JStr ''AdaptiveCard''), (''version'', JStr ''1.4'')]))]])]"

definition Teams_Send :: "sendlib \<Rightarrow> httpTarget \<Rightarrow> Notification \<Rightarrow> send_error option" where
  "Teams_Send sl h n = postJSON sl h (teams_message (sl_text sl) n) []"

definition NewDiscord :: "golib \<Rightarrow> string \<Rightarrow> string \<Rightarrow> duration \<Rightarrow> httpTarget" where
  "NewDiscord gl name webhookURL timeout = newHTTPTarget gl name ''discord'' webhookURL timeout (urlSecrets gl webhookURL)"

definition discord_field :: "fact \<Rightarrow> json" where
  "discord_field f =
     (let v = clip (fa_value f) chatFactMax in
      JObj [(''name'', JStr (fa_label f)), (''value'', JStr (if v = [] then ''-'' else v)), (''inline'', JBool True)])"

definition discord_content :: "textlib \<Rightarrow> Notification \<Rightarrow> string" where
  "discord_content lib n = clip (headline lib n) (min chatHeadlineMax discordContentMax)"

definition discord_message :: "textlib \<Rightarrow> Notification \<Rightarrow> json" where
  "discord_message lib n =
     (let descr = joinNonEmpty [clip (preamble lib n) chatPreambleMax, chatPayload lib n] in
      JObj [(''content'', JStr (discord_content lib n)),
            (''embeds'',
              JArr [JObj ((if nt_event_url n \<noteq> [] then [(''title'', JStr linkTitle), (''url'', JStr (nt_event_url n))] else []) @
                          (if descr \<noteq> [] then [(''description'', JStr descr)] else []) @
                          [(''color'', JInt (int (lk_color (severityLook n)))), (''fields'', JArr (map discord_field (facts n))),
                           (''footer'', JObj [(''text'', JStr ''AlertLoop'')])])]),
            (''allowed_mentions'', JObj [(''parse'', JArr [])])])"

definition Discord_Send :: "sendlib \<Rightarrow> httpTarget \<Rightarrow> Notification \<Rightarrow> send_error option" where
  "Discord_Send sl h n = postJSON sl h (discord_message (sl_text sl) n) []"

subsection \<open>Push\<close>

record Ntfy =
  ny_target :: httpTarget
  ny_topic :: string
  ny_auth :: string

text \<open>\<^verbatim>\<open>base64.StdEncoding\<close>: the raw encoding padded to a multiple of four.\<close>

definition StdEncode :: "string \<Rightarrow> string" where
  "StdEncode s = (let e = EncodeToString RawStdEncoding s in e @ replicate ((4 - length e mod 4) mod 4) CHR ''='')"

definition NewNtfy :: "golib \<Rightarrow> string \<Rightarrow> string \<Rightarrow> string \<Rightarrow> string \<Rightarrow> string \<Rightarrow> string \<Rightarrow> duration \<Rightarrow> Ntfy" where
  "NewNtfy gl name server0 topic token username password timeout =
     (let server = (if TrimRight server0 (CHR ''/'') = [] then ''https://ntfy.sh'' else TrimRight server0 (CHR ''/''));
          basic = (if token = [] \<and> username \<noteq> [] then StdEncode (username @ '':'' @ password) else []);
          auth = (if token \<noteq> [] then ''Bearer '' @ token else if username \<noteq> [] then ''Basic '' @ basic else []) in
      \<lparr>ny_target = newHTTPTarget gl name ''ntfy'' (server @ ''/'') timeout [token, password, basic, topic], ny_topic = topic, ny_auth = auth\<rparr>)"

definition ntfyMessageMax :: nat where "ntfyMessageMax = 4000"
definition ntfyBodyMax :: nat where "ntfyBodyMax = 8192"

record ntfyMessage =
  nm_topic :: string
  nm_title :: string
  nm_message :: string
  nm_priority :: int
  nm_tags :: "string list"
  nm_click :: string

definition ntfyMark :: "Notification \<Rightarrow> int \<times> string list" where
  "ntfyMark n =
     (if IsRecovery n then (2, [''white_check_mark'', ''resolved''])
      else (let sev = Severity_str (ev_severity (nt_event n)) in
            case ev_severity (nt_event n) of
              SeverityCritical \<Rightarrow> (5, [''rotating_light'', sev])
            | SeverityError \<Rightarrow> (4, [''red_circle'', sev])
            | SeverityWarning \<Rightarrow> (3, [''warning'', sev])
            | SeveritySuccess \<Rightarrow> (2, [''green_circle'', sev])
            | _ \<Rightarrow> (2, [''information_source'', sev])))"

definition ntfy_json :: "ntfyMessage \<Rightarrow> json" where
  "ntfy_json m =
     JObj ([(''topic'', JStr (nm_topic m)), (''title'', JStr (nm_title m)), (''message'', JStr (nm_message m)),
            (''priority'', JInt (nm_priority m)), (''tags'', JArr (map JStr (nm_tags m)))] @
           (if nm_click m \<noteq> [] then [(''click'', JStr (nm_click m))] else []))"

definition ntfy_encode :: "ntfyMessage \<Rightarrow> string" where
  "ntfy_encode m = json_encode False (ntfy_json m)"

definition ntfy_message :: "textlib \<Rightarrow> string \<Rightarrow> Notification \<Rightarrow> ntfyMessage" where
  "ntfy_message lib topic n =
     \<lparr>nm_topic = topic, nm_title = clip (subjectLine lib n) 250, nm_message = clipBytes (textBody lib n False) ntfyMessageMax,
      nm_priority = fst (ntfyMark n), nm_tags = snd (ntfyMark n), nm_click = nt_event_url n\<rparr>"

definition ntfy_body :: "textlib \<Rightarrow> string \<Rightarrow> Notification \<Rightarrow> string" where
  "ntfy_body lib topic n =
     (let msg = ntfy_message lib topic n; body = ntfy_encode msg; over = length body - ntfyBodyMax in
      if over > 0 then ntfy_encode (msg\<lparr>nm_message := clipBytes (nm_message msg) (length (nm_message msg) - over)\<rparr>) else body)"

definition Ntfy_Send :: "sendlib \<Rightarrow> Ntfy \<Rightarrow> Notification \<Rightarrow> send_error option" where
  "Ntfy_Send sl t n = post sl (ny_target t) ''application/json'' (ntfy_body (sl_text sl) (ny_topic t) n) (ny_auth t)"

record Pushover =
  po_target :: httpTarget
  po_token :: string
  po_user_key :: string

definition NewPushover :: "golib \<Rightarrow> string \<Rightarrow> string \<Rightarrow> string \<Rightarrow> string \<Rightarrow> duration \<Rightarrow> Pushover" where
  "NewPushover gl name token userKey apiBase timeout =
     (let base = (if TrimRight apiBase (CHR ''/'') = [] then ''https://api.pushover.net'' else TrimRight apiBase (CHR ''/'')) in
      \<lparr>po_target = newHTTPTarget gl name ''pushover'' (base @ ''/1/messages.json'') timeout [token, userKey], po_token = token, po_user_key = userKey\<rparr>)"

definition pushoverTitleMax :: nat where "pushoverTitleMax = 250"
definition pushoverMessageMax :: nat where "pushoverMessageMax = 1024"
definition pushoverURLMax :: nat where "pushoverURLMax = 512"

definition pushoverPriority :: "Notification \<Rightarrow> int" where
  "pushoverPriority n =
     (if IsRecovery n then - 1
      else (case ev_severity (nt_event n) of SeverityCritical \<Rightarrow> 1 | SeverityError \<Rightarrow> 0 | SeverityWarning \<Rightarrow> 0 | _ \<Rightarrow> - 1))"

text \<open>The form, in the order of its keys.\<close>

definition pushover_form :: "textlib \<Rightarrow> Pushover \<Rightarrow> Notification \<Rightarrow> (string \<times> string) list" where
  "pushover_form lib p n =
     (let link = (nt_event_url n \<noteq> [] \<and> length (nt_event_url n) \<le> pushoverURLMax) in
      [(''message'', clip (textBody lib n False) pushoverMessageMax), (''priority'', Itoa_int (pushoverPriority n)),
       (''title'', clip (subjectLine lib n) pushoverTitleMax), (''token'', po_token p)] @
      (if link then [(''url'', nt_event_url n), (''url_title'', linkTitle)] else []) @
      [(''user'', po_user_key p)])"

definition form_encode :: "(string \<times> string) list \<Rightarrow> string" where
  "form_encode form = Join (map (\<lambda>(k, v). QueryEscape k @ ''='' @ QueryEscape v) form) ''&''"

definition Pushover_Send :: "sendlib \<Rightarrow> Pushover \<Rightarrow> Notification \<Rightarrow> send_error option" where
  "Pushover_Send sl p n = post sl (po_target p) ''application/x-www-form-urlencoded'' (form_encode (pushover_form (sl_text sl) p n)) []"

end
