(* ===== verification/Channel_Mail.thy ===== *)
theory Channel_Mail
  imports Channel_Http
begin

text \<open>
  \<^verbatim>\<open>internal/channels/email.go\<close>. \<open>buildMessage\<close> renders a mail; the encoding of its subject (\<^verbatim>\<open>mime.QEncoding\<close>) and its date are parameters.
  Sending is a conversation with an SMTP server: \<open>smtp_send\<close> gives the commands issued, in order, and the error, against a
  server given by its answers (\<open>None\<close> is success, \<open>Some\<close> the text of an error). A context that was cancelled
  meanwhile has a cause, and \<open>wraps\<close> says whether the error already carries it.
\<close>

record EmailConfig =
  em_name :: string
  em_host :: string
  em_port :: int
  em_username :: string
  em_password :: string
  em_from :: string
  em_to :: "string list"
  em_starttls :: bool
  em_tls :: bool
  em_timeout :: duration

record smtpMailer =
  sm_addr :: string
  sm_host :: string
  sm_username :: string
  sm_password :: string
  sm_starttls :: bool
  sm_implicit :: bool
  sm_timeout :: duration

record Email =
  el_name :: string
  el_from :: string
  el_to :: "string list"
  el_sender :: smtpMailer
  el_timeout :: duration

text \<open>\<^verbatim>\<open>net.JoinHostPort\<close>.\<close>

definition JoinHostPort :: "string \<Rightarrow> string \<Rightarrow> string" where
  "JoinHostPort host port = (if CHR '':'' \<in> set host then ''['' @ host @ '']:'' @ port else host @ '':'' @ port)"

definition NewEmail :: "EmailConfig \<Rightarrow> Email" where
  "NewEmail c =
     (let timeout = send_timeout (em_timeout c) in
      \<lparr>el_name = em_name c, el_from = em_from c, el_to = em_to c,
       el_sender = \<lparr>sm_addr = JoinHostPort (em_host c) (Itoa_int (em_port c)), sm_host = em_host c, sm_username = em_username c,
                    sm_password = em_password c, sm_starttls = em_starttls c, sm_implicit = em_tls c, sm_timeout = timeout\<rparr>,
       el_timeout = timeout\<rparr>)"

subsection \<open>The message\<close>

definition header_rune :: "string \<Rightarrow> string" where
  "header_rune r = (case r of [c] \<Rightarrow> if (of_char c :: nat) < 32 then [] else fix_rune r | _ \<Rightarrow> r)"

definition sanitizeHeader :: "string \<Rightarrow> string" where
  "sanitizeHeader v = TrimSpace (TruncateRunes (concat (map header_rune (runes v))) MaxHeaderRunes)"

definition messageID :: "Notification \<Rightarrow> string \<Rightarrow> string" where
  "messageID n from0 =
     (let domainPart = (case last_index from0 (CHR ''@'') of
                          Some i \<Rightarrow> if i + 1 < length from0 then drop (i + 1) from0 else ''alertloop.local''
                        | None \<Rightarrow> ''alertloop.local'');
          kind = DeliveryKind_str (OrAlert (nt_kind n));
          eid = (if ev_id (nt_event n) \<noteq> [] then ev_id (nt_event n) else ''unknown'') in
      case nt_fallback n of
        Some f \<Rightarrow>
          if fo_attempt f \<noteq> [] then ''<'' @ eid @ ''.'' @ kind @ ''.fallback-'' @ fo_attempt f @ ''@'' @ domainPart @ ''>''
          else ''<'' @ eid @ ''.'' @ kind @ ''@'' @ domainPart @ ''>''
      | None \<Rightarrow> ''<'' @ eid @ ''.'' @ kind @ ''@'' @ domainPart @ ''>'')"

definition CRLF :: string where "CRLF = [CHR 0x0D, CHR 0x0A]"

definition mail_headers :: "(string \<Rightarrow> string) \<Rightarrow> string \<Rightarrow> string \<Rightarrow> string list \<Rightarrow> string \<Rightarrow> string \<Rightarrow> string list" where
  "mail_headers qencode date from0 to subject msgID =
     [''From: '' @ sanitizeHeader from0,
      ''To: '' @ Join (map sanitizeHeader to) '', '',
      ''Subject: '' @ qencode (sanitizeHeader subject),
      ''Date: '' @ date,
      ''Message-ID: '' @ sanitizeHeader msgID,
      ''Auto-Submitted: auto-generated'',
      ''MIME-Version: 1.0'',
      ''Content-Type: text/plain; charset=UTF-8'']"

definition buildMessage :: "(string \<Rightarrow> string) \<Rightarrow> string \<Rightarrow> string \<Rightarrow> string list \<Rightarrow> string \<Rightarrow> string \<Rightarrow> string \<Rightarrow> string" where
  "buildMessage qencode date from0 to subject body msgID =
     concat (map (\<lambda>h. h @ CRLF) (mail_headers qencode date from0 to subject msgID)) @ CRLF @ ReplaceAll body [CHR 0x0A] CRLF"

subsection \<open>The conversation\<close>

record smtp_server =
  sx_dial :: "string option"
  sx_greet :: "string option"
  sx_offers_starttls :: bool
  sx_starttls :: "string option"
  sx_auth :: "string option"
  sx_mail :: "string option"
  sx_rcpt :: "string \<Rightarrow> string option"
  sx_data :: "string option"
  sx_write :: "string option"
  sx_close :: "string option"

datatype smtp_command =
    CDial bool string
  | CStartTLS
  | CAuth string string
  | CMail string
  | CRcpt string
  | CData
  | CMessage string
  | CQuit

text \<open>Commands with the first error among their answers.\<close>

type_synonym conversation = "smtp_command list \<times> string option"

definition say :: "smtp_command \<Rightarrow> string \<Rightarrow> string option \<Rightarrow> conversation \<Rightarrow> conversation" where
  "say c what answer rest =
     (case answer of Some e \<Rightarrow> ([c], Some (what @ '': '' @ e)) | None \<Rightarrow> (c # fst rest, snd rest))"

fun say_rcpts :: "(string \<Rightarrow> string) \<Rightarrow> smtp_server \<Rightarrow> string list \<Rightarrow> conversation \<Rightarrow> conversation" where
  "say_rcpts quote srv [] rest = rest"
| "say_rcpts quote srv (r # rs) rest = say (CRcpt r) (''smtp rcpt '' @ quote r) (sx_rcpt srv r) (say_rcpts quote srv rs rest)"

definition smtp_transfer :: "(string \<Rightarrow> string) \<Rightarrow> smtpMailer \<Rightarrow> smtp_server \<Rightarrow> string \<Rightarrow> string list \<Rightarrow> string \<Rightarrow> conversation" where
  "smtp_transfer quote m srv from0 to msg =
     (let transfer = say (CMail from0) ''smtp mail from'' (sx_mail srv)
                       (say_rcpts quote srv to
                         (say CData ''smtp data'' (sx_data srv)
                           (case sx_write srv of
                              Some e \<Rightarrow> ([CMessage msg], Some (''smtp write: '' @ e))
                            | None \<Rightarrow> say (CMessage msg) ''smtp close data'' (sx_close srv) ([CQuit], None)))) in
      if sm_username m \<noteq> [] then say (CAuth (sm_username m) (sm_password m)) ''smtp auth'' (sx_auth srv) transfer else transfer)"

definition smtp_talk :: "(string \<Rightarrow> string) \<Rightarrow> smtpMailer \<Rightarrow> smtp_server \<Rightarrow> string \<Rightarrow> string list \<Rightarrow> string \<Rightarrow> conversation" where
  "smtp_talk quote m srv from0 to msg =
     say (CDial (sm_implicit m) (sm_addr m)) ''dial smtp'' (sx_dial srv)
      (case sx_greet srv of
         Some e \<Rightarrow> ([], Some (''smtp client: '' @ e))
       | None \<Rightarrow>
           if \<not> sm_implicit m \<and> sm_starttls m
           then (if \<not> sx_offers_starttls srv
                 then ([], Some (''smtp server '' @ quote (sm_host m) @ '' does not support STARTTLS but it is required''))
                 else say CStartTLS ''starttls'' (sx_starttls srv) (smtp_transfer quote m srv from0 to msg))
           else smtp_transfer quote m srv from0 to msg)"

text \<open>
  \<open>cause\<close> is the cause of a cancelled context. The deferred function that adds it to an error is set up once the connection stands.
\<close>

definition smtp_send :: "(string \<Rightarrow> string) \<Rightarrow> string option \<Rightarrow> bool \<Rightarrow> smtpMailer \<Rightarrow> smtp_server \<Rightarrow> string \<Rightarrow> string list \<Rightarrow> string \<Rightarrow> conversation" where
  "smtp_send quote cause wraps m srv from0 to msg =
     (let (cmds, res) = smtp_talk quote m srv from0 to msg in
      (cmds,
       case res of
         None \<Rightarrow> None
       | Some e \<Rightarrow>
           (case cause of
              Some c \<Rightarrow> if sx_dial srv = None \<and> \<not> wraps then Some (e @ '' ('' @ c @ '')'') else Some e
            | None \<Rightarrow> Some e)))"

definition Email_Send :: "sendlib \<Rightarrow> (string \<Rightarrow> string) \<Rightarrow> string \<Rightarrow> string option \<Rightarrow> bool \<Rightarrow> smtp_server \<Rightarrow> Email \<Rightarrow> Notification \<Rightarrow>
    smtp_command list \<times> send_error option" where
  "Email_Send sl qencode date cause wraps srv e n =
     (let lib = sl_text sl;
          msg = buildMessage qencode date (el_from e) (el_to e) (subjectLine lib n) (plainBody lib n) (messageID n (el_from e));
          (cmds, res) = smtp_send (tl_quote lib) cause wraps (el_sender e) srv (el_from e) (el_to e) msg in
      (cmds, case res of None \<Rightarrow> None | Some t \<Rightarrow> failed_with (''smtp send: '' @ t) (cause \<noteq> None \<and> (wraps \<or> sx_dial srv = None))))"

end
