(* ===== verification/Channel_Properties.thy ===== *)
theory Channel_Properties
  imports Channel_Send Channel_Mail
begin

text \<open>
  Properties of the channels: secrets are not shown in errors, an event cannot add headers to a mail or mention people in a chat,
  mail that must be encrypted is never sent in the clear, and every message fits the limits of its service.
\<close>

subsection \<open>Secrets\<close>

text \<open>
  The secrets that do not occur in a text. A secret with a star is not counted: the stars that replace another secret can complete it, which
  shows nothing of it. The list of secrets of a channel has no empty one.
\<close>

definition hides_where :: "(string \<Rightarrow> bool) \<Rightarrow> string list \<Rightarrow> string \<Rightarrow> bool" where
  "hides_where P secrets shown = (\<forall>u \<in> set secrets. P u \<longrightarrow> u \<noteq> [] \<longrightarrow> CHR ''*'' \<notin> set u \<longrightarrow> \<not> sublist u shown)"

abbreviation hides :: "string list \<Rightarrow> string \<Rightarrow> bool" where
  "hides \<equiv> hides_where (\<lambda>_. True)"

lemma redact_hides: "hides secrets (redact secrets s)"
proof -
  have "\<not> sublist u (foldl (\<lambda>t secret. ReplaceAll t secret ''***'') s secrets)"
    if u: "u \<noteq> []" "CHR ''*'' \<notin> set u" "u \<in> set secrets \<or> \<not> sublist u s" for u
    using u(3)
  proof (induction secrets arbitrary: s)
    case (Cons x xs)
    have "''***'' = replicate (Suc 2) CHR ''*''" by (simp add: numeral_2_eq_2)
    then have "u = x \<or> \<not> sublist u s \<Longrightarrow> \<not> sublist u (ReplaceAll s x ''***'')"
      using ReplaceAll_gone [of "CHR ''*''" u x s 2] u(1,2) by simp
    with Cons show ?case by auto
  qed simp
  then show ?thesis by (simp add: hides_where_def redact_def)
qed

lemma valid_runes: "ValidString s \<Longrightarrow> r \<in> set (runes s) \<Longrightarrow> fix_rune r = r"
proof (induction s rule: runes.induct)
  case (1 s)
  show ?case
  proof (cases "s = []")
    case False
    have v: "rune_valid s" "ValidString (drop (rune_width s) s)" using "1.prems"(1) False by (simp_all add: ValidString.simps [of s])
    have "fix_rune (take (rune_width s) s) = take (rune_width s) s"
      using v(1) False by (auto simp: fix_rune_def rune_width_def rune_valid_def lead_size_def Let_def split: list.split if_splits)
    then show ?thesis using "1.IH" [OF False v(2)] "1.prems"(2) False by (auto simp: runes.simps [of s])
  qed (use "1.prems" in simp)
qed

lemma sublist_first_runes_valid:
  assumes "ValidString s" "sublist u (first_runes k s)"
  shows "sublist u s"
proof -
  have "map fix_rune (take k (runes s)) = take k (runes s)" using valid_runes [OF assms(1)] by (auto intro: map_idI dest: in_set_takeD)
  then have "s = first_runes k s @ concat (drop k (runes s))" by (metis append_take_drop_id concat_append concat_runes first_runes_def)
  with assms(2) show ?thesis by (metis sublist_append_rightI sublist_order.order_trans)
qed

text \<open>
  A cut of a text that is not valid UTF-8 writes the replacement character for the bytes that are wrong, so a secret which has bytes of that
  character can come about only there.
\<close>

lemma clip_hides:
  assumes "hides secrets s"
  shows "\<exists>shown. (clip s n = shown \<or> clip s n = shown @ truncatedMark) \<and> hides_where is_ascii secrets shown \<and> (ValidString s \<longrightarrow> hides secrets shown)"
proof (cases "RuneCountInString s \<le> n")
  case False
  have "hides_where is_ascii secrets (first_runes k s)" for k
    using assms sublist_first_runes by (auto simp: hides_where_def)
  moreover have "ValidString s \<longrightarrow> hides secrets (first_runes k s)" for k
    using assms sublist_first_runes_valid by (auto simp: hides_where_def)
  ultimately show ?thesis using False by (auto simp: clip_def)
qed (use assms in \<open>auto simp: clip_def hides_where_def\<close>)

definition discloses :: "string list \<Rightarrow> string \<Rightarrow> string \<Rightarrow> string \<Rightarrow> bool" where
  "discloses secrets text frame rest = (\<exists>shown. hides secrets shown \<and> text = frame @ shown @ rest)"

text \<open>Of a redirect a text shows the scheme and the host of the target, as the service wrote them, and nothing else.\<close>

definition names_target :: "golib \<Rightarrow> string \<Rightarrow> http_answer \<Rightarrow> string \<Rightarrow> bool" where
  "names_target gl service a text =
     (\<exists>to. text = service @ '' answered status '' @ Itoa (ha_status a) @ '': redirect to '' @ to @ '' not followed'' \<and>
        (to \<in> {''(no location)'', ''(unparsable url)''} \<or>
         (\<exists>l u. ha_location a = Some l \<and> gl_ParseURL gl l = Some u \<and> to = ur_Scheme u @ ''://'' @ ur_Host u)))"

lemma redirect_names_target: "redirectError gl service a = Some e \<Longrightarrow> names_target gl service a (se_text e)"
  by (auto simp: redirectError_def names_target_def originOf_def Let_def split: option.splits)

text \<open>The host is the service's own text, so a service can have anything quoted that is written as a host.\<close>

lemma redirect_quotes_host:
  assumes "ha_location a = Some l" "gl_ParseURL gl l = Some u" "ur_Host u \<noteq> []"
  shows "\<exists>e. redirectError gl service a = Some e \<and> sublist (ur_Host u) (se_text e)"
proof -
  have "redirectError gl service a =
      failed_with ((service @ '' answered status '' @ Itoa (ha_status a) @ '': redirect to '' @ ur_Scheme u @ ''://'') @ ur_Host u @ '' not followed'') False"
    using assms by (simp add: redirectError_def originOf_def)
  then show ?thesis by (simp only: option.inject ex_simps simp_thms send_error.simps) (metis send_error.select_convs(1) sublist_appendI)
qed

text \<open>What is shown of an answer that refuses a message posted to an endpoint.\<close>

definition refused_with :: "sendlib \<Rightarrow> httpTarget \<Rightarrow> http_answer \<Rightarrow> string \<Rightarrow> bool" where
  "refused_with sl h a text =
     (text = refusal (ht_service h) (ha_status a) \<or>
      (\<exists>shown. text \<in> {refusal (ht_service h) (ha_status a) @ '': '' @ shown, refusal (ht_service h) (ha_status a) @ '': '' @ shown @ truncatedMark} \<and>
         hides_where is_ascii (ht_secrets h) shown \<and>
         (ValidString (redact (ht_secrets h) (responseDetail sl (take 4096 (ha_body a)))) \<longrightarrow> hides (ht_secrets h) shown)))"

lemma telegram_discloses:
  assumes "Telegram_Send sl t n = Some e"
  shows "case sl_do sl (telegram_request (sl_text sl) t n) of
              BadRequest f \<Rightarrow> discloses (tg_secrets t) (se_text e) ''build telegram request: '' []
            | Failed f \<Rightarrow>
                discloses (tg_secrets t) (se_text e) ''telegram request failed: '' (case hf_ctx f of Some c \<Rightarrow> '' ('' @ c @ '')'' | None \<Rightarrow> [])
            | Answered a \<Rightarrow>
                if 300 \<le> ha_status a \<and> ha_status a < 400 then names_target (sl_lib sl) ''telegram'' a (se_text e)
                else discloses (tg_secrets t) (se_text e) (''telegram send failed (status '' @ Itoa (ha_status a) @ ''): '') []"
  using assms
  by (auto simp: Telegram_Send_def telegram_refused_def Let_def discloses_def redact_hides intro: redirect_names_target
      split: http_result.splits option.splits if_splits)

lemma post_discloses:
  assumes "post sl h ct body auth = Some e"
  shows "case sl_do sl (post_request h ct body auth) of
              BadRequest f \<Rightarrow> se_text e = ''build '' @ ht_service h @ '' request for '' @ ht_origin h @ '': invalid url''
            | Failed f \<Rightarrow>
                se_text e = ht_service h @ '' request to '' @ ht_origin h @ '' failed: '' @ (case hf_cause f of Some c \<Rightarrow> c | None \<Rightarrow> hf_text f)
            | Answered a \<Rightarrow>
                if 300 \<le> ha_status a \<and> ha_status a < 400 then names_target (sl_lib sl) (ht_service h) a (se_text e)
                else refused_with sl h a (se_text e)"
proof (cases "sl_do sl (post_request h ct body auth)")
  case (Answered a)
  let ?d = "refused_detail sl h (ha_body a)"
  show ?thesis
  proof (cases "300 \<le> ha_status a \<and> ha_status a < 400")
    case False
    with assms Answered have "se_text e = refusal (ht_service h) (ha_status a) @ (if ?d \<noteq> [] then '': '' @ ?d else [])"
      by (auto simp: post_def Let_def split: if_splits)
    moreover obtain shown where "?d = shown \<or> ?d = shown @ truncatedMark" "hides_where is_ascii (ht_secrets h) shown"
        "ValidString (redact (ht_secrets h) (responseDetail sl (take 4096 (ha_body a)))) \<longrightarrow> hides (ht_secrets h) shown"
      using clip_hides [OF redact_hides] unfolding refused_detail_def by blast
    ultimately have "refused_with sl h a (se_text e)" unfolding refused_with_def by (cases "?d = []") auto
    with False Answered show ?thesis by auto
  qed (use assms Answered in \<open>auto simp: post_def intro: redirect_names_target split: if_splits\<close>)
qed (use assms in \<open>auto simp: post_def\<close>)

text \<open>
  C10: what an operator reads when a message was not delivered. A secret is counted here if it has no star. If the service refuses the message,
  the text is a fixed one for service and status followed by at most a part of the answer, and perhaps the mark of a cut; no secret occurs
  in that part: no ASCII secret ever, no other secret if what redaction leaves of the answer is valid UTF-8. If the service answers with
  a redirect, the text shows the scheme and host of its target, unredacted, and no more. If there is no answer, the
  text shows the origin of the endpoint and the cause of the error without the URL around it. A Telegram channel quotes errors of the transport with the full URL
  in them, and answers uncut, without the bot token and the proxy password.
\<close>

theorem secrets_not_disclosed:
  "(post sl h ct body auth = Some e \<longrightarrow>
      (case sl_do sl (post_request h ct body auth) of
         BadRequest f \<Rightarrow> se_text e = ''build '' @ ht_service h @ '' request for '' @ ht_origin h @ '': invalid url''
       | Failed f \<Rightarrow>
           se_text e = ht_service h @ '' request to '' @ ht_origin h @ '' failed: '' @ (case hf_cause f of Some c \<Rightarrow> c | None \<Rightarrow> hf_text f)
       | Answered a \<Rightarrow>
           if 300 \<le> ha_status a \<and> ha_status a < 400 then names_target (sl_lib sl) (ht_service h) a (se_text e)
           else refused_with sl h a (se_text e))) \<and>
   (Telegram_Send sl t n = Some e' \<longrightarrow>
      (case sl_do sl (telegram_request (sl_text sl) t n) of
         BadRequest f \<Rightarrow> discloses (tg_secrets t) (se_text e') ''build telegram request: '' []
       | Failed f \<Rightarrow>
           discloses (tg_secrets t) (se_text e') ''telegram request failed: '' (case hf_ctx f of Some c \<Rightarrow> '' ('' @ c @ '')'' | None \<Rightarrow> [])
       | Answered a \<Rightarrow>
           if 300 \<le> ha_status a \<and> ha_status a < 400 then names_target (sl_lib sl) ''telegram'' a (se_text e')
           else discloses (tg_secrets t) (se_text e') (''telegram send failed (status '' @ Itoa (ha_status a) @ ''): '') []))"
  using post_discloses telegram_discloses by blast

subsection \<open>Mail headers\<close>

definition no_breaks :: "string \<Rightarrow> bool" where
  "no_breaks s = (CHR 0x0D \<notin> set s \<and> CHR 0x0A \<notin> set s)"

lemma no_breaks_append [simp]: "no_breaks (s @ t) \<longleftrightarrow> no_breaks s \<and> no_breaks t"
  by (auto simp: no_breaks_def)

lemma no_breaks_subset: "set t \<subseteq> set s \<Longrightarrow> no_breaks s \<Longrightarrow> no_breaks t"
  by (auto simp: no_breaks_def)

lemma whole_rune_bytes:
  assumes "whole_rune r" "1 < length r" "c \<in> set r"
  shows "128 \<le> (of_char c :: nat)"
proof -
  have r: "rune_valid r" "lead_size (of_char (r ! 0)) = length r"
    using assms(1,2) by (cases r; auto simp: whole_rune_def rune_width_def)+
  obtain i where i: "i < length r" "c = r ! i" using assms(3) by (auto simp: in_set_conv_nth)
  have "length r \<le> 4" using r(2) by (auto simp: lead_size_def split: if_splits)
  with i(1) consider "i = 0" | "i = 1" | "i = 2" "3 \<le> length r" | "i = 3" "4 \<le> length r" by linarith
  then show ?thesis
  proof cases
    case 1
    then show ?thesis using r(2) assms(2) i(2) by (auto simp: lead_size_def split: if_splits)
  next
    case 2
    then show ?thesis using r assms(2) i(2) by (auto simp: rune_valid_iff second_byte_def Let_def split: if_splits)
  qed (use r i(2) in \<open>auto simp: rune_valid_iff cont_byte_def Let_def\<close>)
qed

lemma header_rune_breaks:
  assumes "r \<in> set (runes v)"
  shows "no_breaks (header_rune r)"
proof (cases "\<exists>c. r = [c]")
  case True
  then show ?thesis by (auto simp: header_rune_def fix_rune_def RuneError_def no_breaks_def split: if_splits)
next
  case False
  have "r \<noteq> []" using assms by (rule runes_nonempty)
  with False have l: "1 < length r" by (cases r rule: remdups_adj.cases) auto
  have w: "whole_rune r" using assms by (rule rune_cases) (use False in auto)
  have "no_breaks r"
    using whole_rune_bytes [OF w l, of "CHR 0x0D"] whole_rune_bytes [OF w l, of "CHR 0x0A"] by (auto simp: no_breaks_def)
  moreover have "header_rune r = r" using False by (simp add: header_rune_def split: list.split)
  ultimately show ?thesis by simp
qed

lemma set_TrimSpace: "set (TrimSpace s) \<subseteq> set s"
  unfolding TrimSpace_def trim_left_def
  using set_mono_prefix [OF trim_right_prefix] set_mono_suffix [OF trim_left_with_suffix] by blast

lemma set_TruncateRunes: "set (TruncateRunes s n) \<subseteq> set s"
  using runes_bytes by (fastforce simp: TruncateRunes_eq dest: in_set_takeD)

lemma sanitizeHeader_breaks: "no_breaks (sanitizeHeader v)"
proof -
  have "no_breaks (concat (map header_rune (runes v)))"
    using header_rune_breaks [of _ v] by (auto simp: no_breaks_def)
  then show ?thesis
    unfolding sanitizeHeader_def by (rule no_breaks_subset [rotated]) (use set_TrimSpace set_TruncateRunes in blast)
qed

lemma Join_breaks: "list_all no_breaks ss \<Longrightarrow> no_breaks sep \<Longrightarrow> no_breaks (Join ss sep)"
  by (induction ss sep rule: Join.induct) (auto simp: no_breaks_def)

lemma mail_headers_breaks:
  assumes "\<And>v. no_breaks v \<Longrightarrow> no_breaks (qencode v)" "no_breaks date"
  shows "list_all no_breaks (mail_headers qencode date from0 to subject msgID)"
proof -
  have "no_breaks (Join (map sanitizeHeader to) '', '')"
    by (rule Join_breaks, simp add: list_all_iff sanitizeHeader_breaks) (simp add: no_breaks_def)
  then show ?thesis using assms sanitizeHeader_breaks by (simp add: mail_headers_def) (simp add: no_breaks_def)
qed

text \<open>What a mail server reads as headers: the lines before the first empty one.\<close>

definition header_lines :: "string \<Rightarrow> string list" where
  "header_lines msg = takeWhile (\<lambda>l. l \<noteq> [] \<and> l \<noteq> [CHR 0x0D]) (Split (CHR 0x0A) msg)"

definition header_name :: "string \<Rightarrow> string" where
  "header_name l = takeWhile (\<lambda>c. c \<noteq> CHR '':'') l"

lemma Split_headers:
  "list_all no_breaks hs \<Longrightarrow> Split (CHR 0x0A) (concat (map (\<lambda>h. h @ CRLF) hs) @ rest) = map (\<lambda>h. h @ [CHR 0x0D]) hs @ Split (CHR 0x0A) rest"
proof (induction hs)
  case (Cons h hs)
  have "Split (CHR 0x0A) ((h @ [CHR 0x0D]) @ CHR 0x0A # (concat (map (\<lambda>h. h @ CRLF) hs) @ rest)) =
      (h @ [CHR 0x0D]) # Split (CHR 0x0A) (concat (map (\<lambda>h. h @ CRLF) hs) @ rest)"
    using Cons.prems by (intro Split_append) (simp add: no_breaks_def)
  with Cons show ?case by (simp add: CRLF_def)
qed simp

text \<open>
  C23: no header injection. Whatever the texts of an event, a sender and recipients are, the headers that a mail server reads from the
  message are exactly the eight that \<^verbatim>\<open>buildMessage\<close> writes, each on one line; no text of an event starts a header or ends them.
\<close>

theorem no_header_injection:
  assumes "\<And>v. no_breaks v \<Longrightarrow> no_breaks (qencode v)" "no_breaks date"
  shows "header_lines (buildMessage qencode date from0 to subject body msgID) =
           map (\<lambda>h. h @ [CHR 0x0D]) (mail_headers qencode date from0 to subject msgID) \<and>
         map header_name (header_lines (buildMessage qencode date from0 to subject body msgID)) =
           [''From'', ''To'', ''Subject'', ''Date'', ''Message-ID'', ''Auto-Submitted'', ''MIME-Version'', ''Content-Type''] \<and>
         (\<forall>h \<in> set (mail_headers qencode date from0 to subject msgID). no_breaks h)"
proof -
  let ?hs = "mail_headers qencode date from0 to subject msgID"
  have hs: "list_all no_breaks ?hs" using assms by (rule mail_headers_breaks)
  have "Split (CHR 0x0A) (buildMessage qencode date from0 to subject body msgID) =
      map (\<lambda>h. h @ [CHR 0x0D]) ?hs @ [CHR 0x0D] # Split (CHR 0x0A) (ReplaceAll body [CHR 0x0A] CRLF)"
    unfolding buildMessage_def Split_headers [OF hs]
    using Split_append [of "CHR 0x0A" "[CHR 0x0D]" "ReplaceAll body [CHR 0x0A] CRLF"] by (simp add: CRLF_def)
  then have l: "header_lines (buildMessage qencode date from0 to subject body msgID) = map (\<lambda>h. h @ [CHR 0x0D]) ?hs"
    by (simp add: header_lines_def mail_headers_def)
  moreover have "map header_name (map (\<lambda>h. h @ [CHR 0x0D]) ?hs) =
      [''From'', ''To'', ''Subject'', ''Date'', ''Message-ID'', ''Auto-Submitted'', ''MIME-Version'', ''Content-Type'']"
    by (simp add: mail_headers_def header_name_def)
  ultimately show ?thesis using hs by (simp add: list_all_iff)
qed

subsection \<open>Mail in the clear\<close>

lemma say_cases: "fst (say c what answer rest) = [c] \<or> fst (say c what answer rest) = c # fst rest"
  by (cases answer) (simp_all add: say_def)

lemma say_None_iff: "snd (say c what answer rest) = None \<longleftrightarrow> answer = None \<and> snd rest = None"
  by (cases answer) (simp_all add: say_def)

lemma say_fst: "answer = None \<Longrightarrow> fst (say c what answer rest) = c # fst rest"
  by (simp add: say_def)

lemma say_rcpts_None:
  "snd (say_rcpts quote srv rs rest) = None \<Longrightarrow> snd rest = None \<and> set (fst rest) \<subseteq> set (fst (say_rcpts quote srv rs rest))"
  by (induction rs) (auto simp: say_None_iff say_fst)

lemma smtp_transfer_sent:
  assumes "snd (smtp_transfer quote m srv from0 to msg) = None"
  shows "CMessage msg \<in> set (fst (smtp_transfer quote m srv from0 to msg)) \<and> sx_write srv = None \<and> sx_close srv = None"
proof -
  let ?body = "case sx_write srv of Some e \<Rightarrow> ([CMessage msg], Some (''smtp write: '' @ e))
      | None \<Rightarrow> say (CMessage msg) ''smtp close data'' (sx_close srv) ([CQuit], None)"
  let ?rcpts = "say_rcpts quote srv to (say CData ''smtp data'' (sx_data srv) ?body)"
  have r: "snd ?rcpts = None" "set (fst ?rcpts) \<subseteq> set (fst (smtp_transfer quote m srv from0 to msg))"
    using assms by (auto simp: smtp_transfer_def Let_def say_None_iff say_fst split: if_splits)
  from say_rcpts_None [OF r(1)] have d: "sx_data srv = None" "snd ?body = None" "set (fst ?body) \<subseteq> set (fst ?rcpts)"
    by (auto simp: say_None_iff say_fst)
  then have "sx_write srv = None \<and> sx_close srv = None" by (auto simp: say_None_iff split: option.splits)
  with d r(2) show ?thesis by (auto simp: say_fst)
qed

text \<open>
  C12: mail that must be encrypted is never sent in the clear. With \<^verbatim>\<open>starttls\<close> on a plaintext connection nothing follows the dialling
  but the upgrade, and nothing follows an upgrade that failed: neither credentials nor the mail. A send that reports success has issued the
  message and the server has accepted it, over a connection that is encrypted if either setting asks for it.
\<close>

theorem mail_never_in_clear:
  assumes "smtp_send quote cause wraps m srv from0 to msg = (cmds, res)" "sm_starttls m \<or> sm_implicit m"
  shows "(cmds = [CDial (sm_implicit m) (sm_addr m)] \<or> sm_implicit m \<or>
          (\<exists>rest. cmds = CDial False (sm_addr m) # CStartTLS # rest \<and> (rest \<noteq> [] \<longrightarrow> sx_offers_starttls srv \<and> sx_starttls srv = None))) \<and>
         hd cmds = CDial (sm_implicit m) (sm_addr m) \<and>
         (res = None \<longrightarrow> CMessage msg \<in> set cmds \<and> sx_write srv = None \<and> sx_close srv = None \<and>
            (sm_implicit m \<or> sx_offers_starttls srv \<and> sx_starttls srv = None))"
proof -
  have c: "cmds = fst (smtp_talk quote m srv from0 to msg)" "res = None \<longleftrightarrow> snd (smtp_talk quote m srv from0 to msg) = None"
    using assms(1) by (auto simp: smtp_send_def split: prod.splits option.splits if_splits)
  let ?t = "smtp_transfer quote m srv from0 to msg"
  show ?thesis
  proof (cases "sx_dial srv = None \<and> sx_greet srv = None")
    case False
    then show ?thesis unfolding c by (auto simp: smtp_talk_def say_def split: option.splits)
  next
    case True
    show ?thesis
    proof (cases "sm_implicit m")
      case True
      with \<open>sx_dial srv = None \<and> sx_greet srv = None\<close> show ?thesis
        unfolding c using smtp_transfer_sent [of quote m srv from0 to msg] by (auto simp: smtp_talk_def say_fst say_None_iff)
    next
      case False
      with assms(2) \<open>sx_dial srv = None \<and> sx_greet srv = None\<close> show ?thesis
        unfolding c using smtp_transfer_sent [of quote m srv from0 to msg] say_cases [of CStartTLS "''starttls''" "sx_starttls srv" ?t]
        by (cases "sx_starttls srv") (auto simp: smtp_talk_def say_def)
    qed
  qed
qed

subsection \<open>Mentions in a chat\<close>

lemma ascii_lower_at: "ascii_lower c = CHR ''@'' \<longleftrightarrow> c = CHR ''@''"
proof
  assume a: "ascii_lower c = CHR ''@''"
  let ?n = "of_char c :: nat"
  have "\<not> (65 \<le> ?n \<and> ?n \<le> 90)"
  proof
    assume n: "65 \<le> ?n \<and> ?n \<le> 90"
    then have "ascii_lower c = char_of (?n + 32)" by (simp add: ascii_lower_def)
    then have "(of_char (ascii_lower c) :: nat) = ?n + 32" using n by simp
    with a n show False by simp
  qed
  with a show "c = CHR ''@''" by (auto simp: ascii_lower_def Let_def split: if_splits)
qed (simp add: ascii_lower_def)

lemma mention_at: "mention s \<Longrightarrow> \<exists>t. s = CHR ''@'' # t"
  by (cases s) (auto simp: mention_def mention_words_def ascii_lower_at)

lemma break_mentions_prefix:
  "CHR ''@'' \<notin> set p \<Longrightarrow> prefix p (break_mentions s) \<Longrightarrow> prefix p s"
proof (induction s arbitrary: p)
  case (Cons c s)
  show ?case
  proof (cases p)
    case (Cons x p')
    with Cons.prems have c: "x = c" "c \<noteq> CHR ''@''" by (auto split: if_splits)
    then have "\<not> mention (c # s)" using mention_at by blast
    with Cons c Cons.prems Cons.IH show ?thesis by auto
  qed simp
qed simp

lemma mention_transfer:
  assumes "mention (c # t)" "\<And>p. CHR ''@'' \<notin> set p \<Longrightarrow> prefix p t \<Longrightarrow> prefix p s"
  shows "mention (c # s)"
proof -
  obtain w where w: "w \<in> set mention_words" "ascii_lower c = CHR ''@''" "map ascii_lower (take (length w) t) = w"
    using assms(1) by (auto simp: mention_def list_ex_iff)
  have at_free: "CHR ''@'' \<notin> set w" using w(1) by (auto simp: mention_words_def)
  have "CHR ''@'' \<notin> set (take (length w) t)"
  proof
    assume "CHR ''@'' \<in> set (take (length w) t)"
    then have "ascii_lower (CHR ''@'') \<in> set (map ascii_lower (take (length w) t))" unfolding set_map by (rule imageI)
    then show False using w(3) at_free ascii_lower_at [of "CHR ''@''"] by simp
  qed
  then have "prefix (take (length w) t) s" using assms(2) take_is_prefix by blast
  moreover have "length (take (length w) t) = length w" using w(3) by (metis length_map)
  ultimately have "take (length w) s = take (length w) t" by (metis prefix_def append_eq_conv_conj)
  then have "map ascii_lower (take (length w) s) = w" using w(3) by simp
  with w(1,2) show ?thesis by (auto simp: mention_def list_ex_iff intro!: bexI [of _ w])
qed

lemma break_mentions_none: "\<not> mention (drop i (break_mentions s))"
proof (induction s arbitrary: i)
  case (Cons c s)
  show ?case
  proof (cases "mention (c # s)")
    case True
    have z: "\<not> mention (c # ZWSP @ t)" for t
      by (auto simp: mention_def mention_words_def ZWSP_def ascii_lower_def)
    have "\<not> mention (drop j (ZWSP @ break_mentions s))" for j
    proof (cases "j < 3")
      case True
      then have "j = 0 \<or> j = 1 \<or> j = 2" by auto
      then show ?thesis by (auto simp: ZWSP_def dest!: mention_at)
    next
      case False
      then show ?thesis using Cons.IH [of "j - 3"] by (simp add: ZWSP_def drop_Cons' numeral_3_eq_3)
    qed
    with True z [of "break_mentions s"] show ?thesis by (cases i) simp_all
  next
    case False
    then have "\<not> mention (c # break_mentions s)" using mention_transfer [of c "break_mentions s" s] break_mentions_prefix by blast
    with False Cons.IH show ?thesis by (cases i) simp_all
  qed
qed (auto simp: mention_def mention_words_def)

lemma set_break_mentions: "set (break_mentions s) \<subseteq> set s \<union> set ZWSP"
  by (induction s) auto

text \<open>
  C24: an event cannot ring a whole chat. In what is sent to Slack, Mattermost or Rocket.Chat for any text, nowhere does a group
  mention begin, in any case of its letters, and no character is left that Slack reads as the start or end of a control sequence.
\<close>

theorem no_mentions:
  "(\<forall>i. \<not> mention (drop i (slackEscape s))) \<and> CHR ''<'' \<notin> set (slackEscape s) \<and> CHR ''>'' \<notin> set (slackEscape s)"
proof -
  have "CHR ''<'' \<notin> set (slackEntities s)" "CHR ''>'' \<notin> set (slackEntities s)"
    by (auto simp: slackEntities_def slack_entity_def split: if_splits)
  then show ?thesis
    unfolding slackEscape_def using break_mentions_none set_break_mentions [of "slackEntities s"] by (auto simp: ZWSP_def)
qed

end
