(* ===== verification/Channel_Limits.thy ===== *)
theory Channel_Limits
  imports Channel_Send
begin

text \<open>
  The limits of the services: how long the texts are that the channels send, and that the second cut of an ntfy message makes its
  JSON body small enough.
\<close>

subsection \<open>Cutting at a character\<close>

lemma second_cont: "second_byte x c \<Longrightarrow> cont_byte c"
  by (auto simp: second_byte_def cont_byte_def Let_def split: if_splits)

lemma inside_rune:
  assumes "0 < k" "k < rune_width s"
  shows "cont_byte (s ! k)"
proof -
  have v: "rune_valid s" "s \<noteq> []" "k < lead_size (of_char (s ! 0))"
    using assms by (auto simp: rune_width_def split: list.splits if_splits)
  have "lead_size (of_char (s ! 0)) \<le> 4" by (simp add: lead_size_def)
  with assms(1) v(3) consider "k = 1" "2 \<le> lead_size (of_char (s ! 0))" | "k = 2" "3 \<le> lead_size (of_char (s ! 0))"
    | "k = 3" "4 \<le> lead_size (of_char (s ! 0))" by linarith
  then show ?thesis using v(1) by cases (auto simp: rune_valid_iff intro: second_cont)
qed

lemma runes_split:
  assumes "k \<le> length s" "k = 0 \<or> k = length s \<or> RuneStart (s ! k)"
  shows "runes s = runes (take k s) @ runes (drop k s)"
  using assms
proof (induction s arbitrary: k rule: runes.induct)
  case (1 s)
  let ?w = "rune_width s"
  show ?case
  proof (cases "s = [] \<or> k = 0")
    case False
    then have ne: "s \<noteq> []" "0 < k" by simp_all
    have w: "?w \<le> k"
    proof (rule ccontr)
      assume "\<not> ?w \<le> k"
      then have "cont_byte (s ! k)" "k < length s" using inside_rune [OF ne(2)] rune_width_le [of s] by simp_all
      with "1.prems" ne(2) show False by (simp add: RuneStart_def)
    qed
    have t: "take k s = take ?w s @ take (k - ?w) (drop ?w s)" using w by (metis le_add_diff_inverse take_add)
    have "rune_width (take k s) = ?w" using w "1.prems"(1) by (intro rune_width_local) (simp_all add: take_is_prefix)
    moreover have "take k s \<noteq> []" using ne by simp
    ultimately have "runes (take k s) = take ?w s # runes (take (k - ?w) (drop ?w s))"
      using w by (simp add: runes.simps [of "take k s"] min_absorb1 drop_take)
    moreover have "runes (drop ?w s) = runes (take (k - ?w) (drop ?w s)) @ runes (drop (k - ?w) (drop ?w s))"
      using "1.prems" w by (intro "1.IH" [OF ne(1)]) auto
    ultimately show ?thesis using w ne(1) by (simp add: runes.simps [of s])
  qed auto
qed

lemma back_to_start_start: "back_to_start s k = 0 \<or> RuneStart (s ! back_to_start s k)"
  by (induction k) auto

lemma clipBytes_parts:
  assumes "n < length s"
  obtains k where "k \<le> n - 15" "k \<le> length s" "clipBytes s n = take k s @ truncatedMark"
    "runes s = runes (take k s) @ runes (drop k s)" "runes (clipBytes s n) = runes (take k s) @ runes truncatedMark"
proof -
  let ?k = "back_to_start s (n - 15)"
  have k: "?k \<le> n - 15" "?k \<le> length s" using back_to_start_le [of s "n - 15"] assms by simp_all
  have c: "clipBytes s n = take ?k s @ truncatedMark" using assms truncatedMark_size(2) by (simp add: clipBytes_def)
  have "runes s = runes (take ?k s) @ runes (drop ?k s)" using k(2) back_to_start_start [of s "n - 15"] by (intro runes_split) auto
  moreover have "RuneStart (hd truncatedMark)" by code_simp
  then have "RuneStart ((take ?k s @ truncatedMark) ! ?k)" using k(2) by (simp add: nth_append truncatedMark_def)
  then have "runes (take ?k s @ truncatedMark) = runes (take ?k s) @ runes truncatedMark"
    using runes_split [of ?k "take ?k s @ truncatedMark"] k(2) by (simp add: min_absorb2)
  ultimately show ?thesis using k c that by metis
qed

lemma clipBytes_short: "n < length s \<Longrightarrow> n < 15 \<Longrightarrow> clipBytes s n = truncatedMark"
  using truncatedMark_size(2) by (simp add: clipBytes_def)

subsection \<open>Lengths of JSON\<close>

lemma json_rune_length: "length r \<le> length (json_rune esc r)"
  by (auto simp: json_rune_def json_byte_def Let_def split: list.split)

lemma json_runes_length: "length (concat rs) \<le> length (concat (map (json_rune esc) rs))"
  by (induction rs) (auto intro: add_mono json_rune_length)

lemma json_mark: "concat (map (json_rune False) (runes truncatedMark)) = truncatedMark"
  by code_simp

text \<open>A cut part never encodes shorter than it is.\<close>

lemma clipBytes_json:
  assumes "15 \<le> n" "n < length s"
  shows "length (json_chars False (clipBytes s n)) + (length s - n) \<le> length (json_chars False s)"
proof -
  from assms(2) obtain k where k: "k \<le> n - 15" "k \<le> length s"
    "runes s = runes (take k s) @ runes (drop k s)" "runes (clipBytes s n) = runes (take k s) @ runes truncatedMark"
    by (rule clipBytes_parts)
  have "length (drop k s) \<le> length (concat (map (json_rune False) (runes (drop k s))))"
    using json_runes_length [of "runes (drop k s)" False] by simp
  then show ?thesis
    using k(1,2) assms unfolding json_chars_def k(3,4) by (simp add: json_mark truncatedMark_size)
qed

lemma ntfy_encode_length:
  "length (ntfy_encode (m\<lparr>nm_message := x\<rparr>)) = length (ntfy_encode (m\<lparr>nm_message := []\<rparr>)) + length (json_chars False x)"
  by (simp add: ntfy_encode_def ntfy_json_def json_string_def json_chars_def)

lemma ntfy_second_cut:
  assumes "ntfyBodyMax < length (ntfy_encode m)"
    and "m' = m\<lparr>nm_message := clipBytes (nm_message m) (length (nm_message m) - (length (ntfy_encode m) - ntfyBodyMax))\<rparr>"
  shows "length (ntfy_encode m') \<le> max ntfyBodyMax (length (ntfy_encode (m\<lparr>nm_message := truncatedMark\<rparr>)))"
proof -
  let ?s = "nm_message m" let ?over = "length (ntfy_encode m) - ntfyBodyMax" let ?F = "length (ntfy_encode (m\<lparr>nm_message := []\<rparr>))"
  have m: "length (ntfy_encode m) = ?F + length (json_chars False ?s)" using ntfy_encode_length [of ?s m] by simp
  have m': "length (ntfy_encode m') = ?F + length (json_chars False (clipBytes ?s (length ?s - ?over)))"
    unfolding assms(2) by (rule ntfy_encode_length)
  show ?thesis
  proof (cases "15 \<le> length ?s - ?over")
    case True
    have o: "0 < ?over" "?over \<le> length ?s" using True assms(1) by linarith+
    then have "length (json_chars False (clipBytes ?s (length ?s - ?over))) + (length ?s - (length ?s - ?over)) \<le> length (json_chars False ?s)"
      by (intro clipBytes_json [OF True]) linarith
    moreover have "length ?s - (length ?s - ?over) = ?over" using o(2) by (rule diff_diff_cancel)
    ultimately have "length (json_chars False (clipBytes ?s (length ?s - ?over))) + ?over \<le> length (json_chars False ?s)" by argo
    with m m' assms(1) show ?thesis by simp
  next
    case False
    show ?thesis
    proof (cases "length ?s \<le> length ?s - ?over")
      case True
      with assms(1) have "length ?s = 0" by linarith
      then have "?s = []" by simp
      with m m' assms(1) ntfy_encode_length [of truncatedMark m] show ?thesis
        by (simp add: clipBytes_def json_chars_def le_max_iff_disj)
    next
      case nl: False
      then have "clipBytes ?s (length ?s - ?over) = truncatedMark" using False by (intro clipBytes_short) linarith+
      with m' ntfy_encode_length [of truncatedMark m] show ?thesis by simp
    qed
  qed
qed

subsection \<open>Trimming and counting\<close>

lemma spaces_whole: "list_all whole_rune spaces"
  by code_simp

lemma whole_rune_start: "whole_rune p \<Longrightarrow> p \<noteq> [] \<and> RuneStart (p ! 0)"
  by (cases p) (auto simp: whole_rune_def rune_valid_def RuneStart_def cont_byte_def lead_size_def Let_def split: if_splits)

lemma runes_snoc_whole:
  assumes "whole_rune p"
  shows "runes (t @ p) = runes t @ [p]"
proof -
  have "RuneStart ((t @ p) ! length t)" using whole_rune_start [OF assms] by (simp add: nth_append)
  then have "runes (t @ p) = runes (take (length t) (t @ p)) @ runes (drop (length t) (t @ p))" by (intro runes_split) simp_all
  moreover have "runes p = [p]" using whole_rune_append [OF assms, of "[]"] by simp
  ultimately show ?thesis by simp
qed

lemma strip_any_SomeE: "strip_any ps s = Some t \<Longrightarrow> \<exists>p \<in> set ps. s = p @ t"
  by (induction ps) (auto split: if_splits, metis append_take_drop_id)

lemma trim_left_count: "list_all whole_rune ps \<Longrightarrow> length (runes (trim_left_with ps s)) \<le> length (runes s)"
proof (induction ps s rule: trim_left_with.induct)
  case (1 ps s)
  show ?case
  proof (cases "strip_any ps s")
    case (Some t)
    obtain p where "s = p @ t" "whole_rune p" using strip_any_SomeE [OF Some] "1.prems" by (auto simp: list_all_iff)
    then have "length (runes t) \<le> length (runes s)" by (simp add: whole_rune_append)
    with "1.IH" [OF Some "1.prems"] show ?thesis by (simp add: trim_left_with.simps [of ps s] Some)
  qed (simp add: trim_left_with.simps [of ps s])
qed

lemma trim_right_count: "list_all (\<lambda>p. whole_rune (rev p)) ps \<Longrightarrow> length (runes (rev (trim_left_with ps s))) \<le> length (runes (rev s))"
proof (induction ps s rule: trim_left_with.induct)
  case (1 ps s)
  show ?case
  proof (cases "strip_any ps s")
    case (Some t)
    obtain p where "s = p @ t" "whole_rune (rev p)" using strip_any_SomeE [OF Some] "1.prems" by (auto simp: list_all_iff)
    then have "length (runes (rev t)) \<le> length (runes (rev s))" by (simp add: runes_snoc_whole)
    with "1.IH" [OF Some "1.prems"] show ?thesis by (simp add: trim_left_with.simps [of ps s] Some)
  qed (simp add: trim_left_with.simps [of ps s])
qed

lemma TrimSpace_count: "RuneCountInString (TrimSpace s) \<le> RuneCountInString s"
proof -
  have "list_all (\<lambda>p. whole_rune (rev p)) (map rev spaces)" using spaces_whole by (simp add: list_all_iff)
  from trim_right_count [OF this, of "rev (trim_left s)"] have "length (runes (TrimSpace s)) \<le> length (runes (trim_left s))"
    by (simp add: TrimSpace_def trim_right_def)
  also have "\<dots> \<le> length (runes s)" unfolding trim_left_def by (rule trim_left_count [OF spaces_whole])
  finally show ?thesis by (simp add: RuneCountInString_def)
qed

lemma RuneCount_newline: "RuneCountInString (s @ CHR 0x0A # t) = RuneCountInString s + 1 + RuneCountInString t"
  by (simp add: RuneCountInString_def runes_boundary)

lemma joinNonEmpty_count: "RuneCountInString (joinNonEmpty [a, b]) \<le> RuneCountInString a + RuneCountInString b + 2"
proof -
  have two: "RuneCountInString (s @ CHR 0x0A # CHR 0x0A # t) = RuneCountInString s + RuneCountInString t + 2" for s t
    using RuneCount_newline [of s "CHR 0x0A # t"] RuneCount_newline [of "[]" t] by (simp add: RuneCountInString_def)
  show ?thesis using TrimSpace_count [of a] TrimSpace_count [of b]
    by (auto simp: joinNonEmpty_def two)
qed

lemma RuneCount_pos: "s \<noteq> [] \<Longrightarrow> 1 \<le> RuneCountInString s"
  by (simp add: RuneCountInString_def runes.simps [of s])

subsection \<open>The message for Discord\<close>

text \<open>
  Discord's own limits on an embed, read off the message that is sent: title, description, number, names and values of the fields,
  footer, and all of them together, in characters; no field is empty.
\<close>

definition entry_at :: "string \<Rightarrow> json \<Rightarrow> json" where
  "entry_at k j = (case j of JObj kvs \<Rightarrow> (case map_of kvs k of Some v \<Rightarrow> v | None \<Rightarrow> JNull) | _ \<Rightarrow> JNull)"

definition count_at :: "string \<Rightarrow> json \<Rightarrow> nat" where
  "count_at k j = (case entry_at k j of JStr s \<Rightarrow> RuneCountInString s | _ \<Rightarrow> 0)"

definition items_at :: "string \<Rightarrow> json \<Rightarrow> json list" where
  "items_at k j = (case entry_at k j of JArr vs \<Rightarrow> vs | _ \<Rightarrow> [])"

definition fits_embed :: "json \<Rightarrow> bool" where
  "fits_embed m =
     (let fs = items_at ''fields'' m; footer = count_at ''text'' (entry_at ''footer'' m) in
      count_at ''title'' m \<le> 256 \<and> count_at ''description'' m \<le> 4096 \<and> length fs \<le> 25 \<and> footer \<le> 2048 \<and>
      list_all (\<lambda>f. 1 \<le> count_at ''name'' f \<and> count_at ''name'' f \<le> 256 \<and> 1 \<le> count_at ''value'' f \<and> count_at ''value'' f \<le> 1024) fs \<and>
      count_at ''title'' m + count_at ''description'' m + sum_list (map (\<lambda>f. count_at ''name'' f + count_at ''value'' f) fs) + footer \<le> 6000)"

lemma facts_labels:
  "f \<in> set (facts n) \<Longrightarrow> fa_label f \<in> set [''Type'', ''Severity'', ''State'', ''Source'', ''Category'', ''Entity'', ''Trace'', ''Key'', ''Event ID'',
     ''Started'', ''Resolved'', ''Duration'', ''Last seen'']"
  by (auto simp: facts_def Let_def split: if_splits option.splits)

lemma facts_label_count:
  assumes "f \<in> set (facts n)"
  shows "1 \<le> RuneCountInString (fa_label f) \<and> RuneCountInString (fa_label f) \<le> 9"
proof -
  have "list_all (\<lambda>l. 1 \<le> RuneCountInString l \<and> RuneCountInString l \<le> 9) [''Type'', ''Severity'', ''State'', ''Source'', ''Category'', ''Entity'',
      ''Trace'', ''Key'', ''Event ID'', ''Started'', ''Resolved'', ''Duration'', ''Last seen'']" by code_simp
  then show ?thesis using facts_labels [OF assms] unfolding list_all_iff by blast
qed

lemma facts_number: "length (facts n) \<le> 12"
  by (auto simp: facts_def Let_def split: option.split)

lemma discord_field_count:
  assumes "f \<in> set (facts n)"
  shows "1 \<le> count_at ''name'' (discord_field f) \<and> count_at ''name'' (discord_field f) \<le> 9 \<and>
         1 \<le> count_at ''value'' (discord_field f) \<and> count_at ''value'' (discord_field f) \<le> 200"
proof -
  let ?v = "clip (fa_value f) chatFactMax"
  have "RuneCountInString ?v \<le> 200" using clip_bound [of "fa_value f" 200] by (simp add: chatFactMax_def)
  moreover have "RuneCountInString ''-'' = 1" by code_simp
  ultimately show ?thesis using facts_label_count [OF assms] RuneCount_pos [of ?v]
    by (auto simp: discord_field_def count_at_def entry_at_def Let_def)
qed

lemma sum_list_le: "(\<And>x. x \<in> set xs \<Longrightarrow> g x \<le> k) \<Longrightarrow> sum_list (map g xs) \<le> length xs * (k :: nat)"
  by (induction xs) (auto intro: add_mono)

lemma discord_fields_total: "sum_list (map (\<lambda>f. count_at ''name'' f + count_at ''value'' f) (map discord_field (facts n))) \<le> 12 * 209"
proof -
  let ?size = "\<lambda>f. count_at ''name'' f + count_at ''value'' f"
  have "?size (discord_field f) \<le> 209" if "f \<in> set (facts n)" for f using discord_field_count [OF that] by linarith
  then have "sum_list (map (\<lambda>f. ?size (discord_field f)) (facts n)) \<le> length (facts n) * 209" by (rule sum_list_le)
  also have "\<dots> \<le> 12 * 209" using facts_number by (rule mult_right_mono) simp
  finally show ?thesis by (simp add: comp_def)
qed

lemma chatPayload_count: "RuneCountInString (chatPayload lib n) \<le> 2508"
proof -
  have fence: "RuneCountInString (''```'' @ [CHR 0x0A] @ p @ [CHR 0x0A] @ ''```'') = 8 + RuneCountInString p" for p
  proof -
    have "RuneCountInString ''```'' = 3" by code_simp
    then show ?thesis using RuneCount_newline [of "''```''" "p @ CHR 0x0A # ''```''"] RuneCount_newline [of p "''```''"] by simp
  qed
  show ?thesis
  proof (cases "payloadText lib n = []")
    case False
    then have "chatPayload lib n = ''```'' @ [CHR 0x0A] @ clip (payloadText lib n) 2500 @ [CHR 0x0A] @ ''```''"
      by (simp add: chatPayload_def chatPayloadMax_def Let_def)
    with clip_bound [of "payloadText lib n" 2500] show ?thesis by (simp only: fence)
  qed (simp add: chatPayload_def RuneCountInString_def)
qed

lemma discord_embed_fits: "list_all fits_embed (items_at ''embeds'' (discord_message lib n)) \<and> length (items_at ''embeds'' (discord_message lib n)) = 1"
proof -
  define descr where "descr = joinNonEmpty [clip (preamble lib n) chatPreambleMax, chatPayload lib n]"
  define m where "m = JObj ((if nt_event_url n \<noteq> [] then [(''title'', JStr linkTitle), (''url'', JStr (nt_event_url n))] else []) @
      (if descr \<noteq> [] then [(''description'', JStr descr)] else []) @
      [(''color'', JInt (int (lk_color (severityLook n)))), (''fields'', JArr (map discord_field (facts n))), (''footer'', JObj [(''text'', JStr ''AlertLoop'')])])"
  have "RuneCountInString (clip (preamble lib n) chatPreambleMax) \<le> 400" using clip_bound [of "preamble lib n" 400] by (simp add: chatPreambleMax_def)
  with joinNonEmpty_count [of "clip (preamble lib n) chatPreambleMax" "chatPayload lib n"] chatPayload_count [of lib n]
  have d: "RuneCountInString descr \<le> 2910" unfolding descr_def by linarith
  have t: "RuneCountInString linkTitle = 17" "RuneCountInString ''AlertLoop'' = 9" by code_simp+
  have at: "count_at ''title'' m \<le> 17" "count_at ''description'' m \<le> 2910" "items_at ''fields'' m = map discord_field (facts n)"
      "count_at ''text'' (entry_at ''footer'' m) = 9"
    using d t by (simp_all add: m_def count_at_def items_at_def entry_at_def)
  have "list_all (\<lambda>f. 1 \<le> count_at ''name'' f \<and> count_at ''name'' f \<le> 256 \<and> 1 \<le> count_at ''value'' f \<and> count_at ''value'' f \<le> 1024)
      (map discord_field (facts n))"
    using discord_field_count [of _ n] by (fastforce simp: list_all_iff)
  then have "fits_embed m" using at facts_number [of n] discord_fields_total [of n] by (simp add: fits_embed_def Let_def del: map_map)
  moreover have "items_at ''embeds'' (discord_message lib n) = [m]"
    by (simp add: discord_message_def items_at_def entry_at_def m_def descr_def Let_def)
  ultimately show ?thesis by simp
qed

subsection \<open>The body for ntfy\<close>

lemma runes_size: "r \<in> set (runes s) \<Longrightarrow> length r \<le> 4"
proof (induction s rule: runes.induct)
  case (1 s)
  have "rune_width s \<le> 4" by (simp add: rune_width_def lead_size_def split: list.split)
  then show ?case using 1 by (cases "s = []") (auto simp: runes.simps [of s])
qed

lemma json_rune_size: "length r \<le> 4 \<Longrightarrow> length (json_rune False r) \<le> 6"
  by (auto simp: json_rune_def json_byte_def Let_def split: list.split)

lemma json_chars_size: "length (json_chars False s) \<le> RuneCountInString s * 6"
  using sum_list_le [of "runes s" "\<lambda>r. length (json_rune False r)" 6] json_rune_size runes_size
  by (simp add: json_chars_def length_concat comp_def RuneCountInString_def)

lemma ntfy_mark_size:
  "length (Itoa_int (fst (ntfyMark n))) = 1"
  "length (json_encode False (JArr (map JStr (snd (ntfyMark n))))) \<le> 31 + length (json_chars False (Severity_str (ev_severity (nt_event n))))"
proof -
  have i: "Itoa_int 2 = ''2''" "Itoa_int 3 = ''3''" "Itoa_int 4 = ''4''" "Itoa_int 5 = ''5''"
    by (simp_all add: Itoa_int_def Itoa.simps digit_char_def) code_simp+
  show "length (Itoa_int (fst (ntfyMark n))) = 1" by (simp add: ntfyMark_def i Let_def split: Severity.split)
  have j: "length (json_chars False ''white_check_mark'') = 16" "length (json_chars False ''resolved'') = 8" "length (json_chars False ''rotating_light'') = 14"
    "length (json_chars False ''red_circle'') = 10" "length (json_chars False ''warning'') = 7" "length (json_chars False ''green_circle'') = 12"
    "length (json_chars False ''information_source'') = 18" by code_simp+
  show "length (json_encode False (JArr (map JStr (snd (ntfyMark n))))) \<le> 31 + length (json_chars False (Severity_str (ev_severity (nt_event n))))"
    by (auto simp: ntfyMark_def json_string_def j Let_def split: Severity.split)
qed

text \<open>With nothing but the mark of a cut for the message the body is small, apart from topic, link and the word for the severity.\<close>

lemma ntfy_least_size:
  "length (ntfy_encode ((ntfy_message lib topic n)\<lparr>nm_message := truncatedMark\<rparr>)) \<le>
     1700 + length (json_chars False topic) + length (json_chars False (nt_event_url n)) + length (json_chars False (Severity_str (ev_severity (nt_event n))))"
proof -
  let ?m = "ntfy_message lib topic n"
  have k: "length (json_chars False ''topic'') = 5" "length (json_chars False ''title'') = 5" "length (json_chars False ''message'') = 7"
    "length (json_chars False ''priority'') = 8" "length (json_chars False ''tags'') = 4" "length (json_chars False ''click'') = 5" by code_simp+
  have "length (json_chars False (nm_title ?m)) \<le> 1500"
    using json_chars_size [of "nm_title ?m"] clip_bound [of "subjectLine lib n" 250] by (simp add: ntfy_message_def)
  moreover have "length (json_chars False truncatedMark) = 15" by code_simp
  moreover have "length (json_encode False (JArr (map JStr (nm_tags ?m)))) \<le> 31 + length (json_chars False (Severity_str (ev_severity (nt_event n))))"
    using ntfy_mark_size(2) by (simp add: ntfy_message_def del: json_encode.simps)
  moreover have "length (Itoa_int (nm_priority ?m)) = 1" using ntfy_mark_size(1) by (simp add: ntfy_message_def)
  moreover have "nm_topic ?m = topic" "nm_click ?m = nt_event_url n" by (simp_all add: ntfy_message_def)
  ultimately show ?thesis
    by (auto simp: ntfy_encode_def ntfy_json_def json_string_def k simp del: json_encode.simps(5))
qed

text \<open>
  C25: messages fit the limits of their services. The text for Telegram has at most 4096 characters; the content for Discord at
  most 2000, and its embed keeps each of Discord's limits and the one on their sum; title and message for Pushover have at most 250 and 1024
  and its link at most 512 bytes; title and message for ntfy at most 250 characters and 4000 bytes. The JSON body for ntfy has at most 8192 bytes,
  unless the topic, the link and the word for the severity, which are not cut, take more than 6492 bytes in it.
\<close>

theorem messages_within_limits:
  "RuneCountInString (telegram_text lib n) \<le> telegramMaxText \<and>
   count_at ''content'' (discord_message lib n) \<le> discordContentMax \<and>
   length (items_at ''embeds'' (discord_message lib n)) = 1 \<and> list_all fits_embed (items_at ''embeds'' (discord_message lib n)) \<and>
   (\<forall>k v. (k, v) \<in> set (pushover_form lib p n) \<longrightarrow>
      (k = ''title'' \<longrightarrow> RuneCountInString v \<le> pushoverTitleMax) \<and> (k = ''message'' \<longrightarrow> RuneCountInString v \<le> pushoverMessageMax) \<and>
      (k = ''url'' \<longrightarrow> length v \<le> pushoverURLMax)) \<and>
   RuneCountInString (nm_title (ntfy_message lib topic n)) \<le> 250 \<and> length (nm_message (ntfy_message lib topic n)) \<le> ntfyMessageMax \<and>
   length (ntfy_body lib topic n) \<le>
     max ntfyBodyMax (1700 + length (json_chars False topic) + length (json_chars False (nt_event_url n)) +
                      length (json_chars False (Severity_str (ev_severity (nt_event n)))))"
proof -
  have "length (ntfy_body lib topic n) \<le> max ntfyBodyMax (length (ntfy_encode ((ntfy_message lib topic n)\<lparr>nm_message := truncatedMark\<rparr>)))"
    using ntfy_second_cut [of "ntfy_message lib topic n", OF _ refl] by (auto simp: ntfy_body_def Let_def)
  with ntfy_least_size [of lib topic n] have "length (ntfy_body lib topic n) \<le>
      max ntfyBodyMax (1700 + length (json_chars False topic) + length (json_chars False (nt_event_url n)) +
                       length (json_chars False (Severity_str (ev_severity (nt_event n)))))"
    by (auto simp: le_max_iff_disj)
  moreover have "RuneCountInString (clip s 250) \<le> 250" "RuneCountInString (clip s 1000) \<le> 1000" "RuneCountInString (clip s 1024) \<le> 1024"
      "length (clipBytes s 4000) \<le> 4000" for s
    using clip_bound [of s 250] clip_bound [of s 1000] clip_bound [of s 1024] clipBytes_bound [of s 4000] by simp_all
  moreover from this(2) [of "headline lib n"] have "count_at ''content'' (discord_message lib n) \<le> discordContentMax"
    by (simp add: count_at_def entry_at_def discord_message_def discord_content_def chatHeadlineMax_def discordContentMax_def Let_def)
  ultimately show ?thesis using discord_embed_fits
    by (auto simp: telegram_text_def truncateRunes_bound pushover_form_def
        pushoverTitleMax_def pushoverMessageMax_def ntfy_message_def ntfyMessageMax_def Let_def split: if_splits)
qed

end
