(* ===== verification/Channel_Examples.thy ===== *)
theory Channel_Examples
  imports Channel_Properties Channel_Limits
begin

text \<open>The properties of the channels at concrete inputs.\<close>

definition demo_text :: textlib where
  "demo_text = \<lparr>tl_upper = id, tl_quote = id, tl_indent = Some, tl_compact = Some\<rparr>"

definition demo_alert :: Notification where
  "demo_alert =
     Alert \<lparr>ev_id = ''e1'', ev_type = EventIncident, ev_severity = SeverityCritical, ev_state = StateNew, ev_source = ''db'', ev_category = [],
            ev_message = ''disk full @Channel <!here>'', ev_entity_type = [], ev_entity_id = [], ev_trace_id = [], ev_dedupe_key = ''k'',
            ev_payload = ''{}'', ev_created_at = 0, ev_updated_at = 0, ev_last_seen_at = 0, ev_resolved_at = None\<rparr>"

text \<open>A service that quotes the secret address in its refusal.\<close>

definition leaky :: sendlib where
  "leaky = \<lparr>sl_lib = demo_lib, sl_text = demo_text, sl_object = (\<lambda>_. None),
            sl_do = (\<lambda>r. Answered \<lparr>ha_status = 403, ha_body = ''no https://chat/T0K for you'', ha_location = None\<rparr>),
            sl_telegram = (\<lambda>_. (False, ''bad token T0K'')), sl_hmac = (\<lambda>_ _. [])\<rparr>"

definition demo_target :: httpTarget where
  "demo_target = NewSlack demo_lib ''ops'' ''https://chat/T0K'' 0"

definition demo_telegram :: Telegram where
  "demo_telegram = NewTelegram ''tg'' ''T0K'' ''7'' [] None 0"

definition refused_post :: send_error where
  "refused_post = \<lparr>se_text = ''slack rejected the message (status 403): no *** for you'', se_canceled = False\<rparr>"

definition refused_bot :: send_error where
  "refused_bot = \<lparr>se_text = ''telegram send failed (status 403): bad token ***'', se_canceled = False\<rparr>"

definition demo_answer :: http_answer where
  "demo_answer = \<lparr>ha_status = 403, ha_body = ''no https://chat/T0K for you'', ha_location = None\<rparr>"

lemma leaky_do: "sl_do leaky r = Answered demo_answer" "ha_status demo_answer = 403" "ha_body demo_answer = ''no https://chat/T0K for you''"
  by (simp_all add: leaky_def demo_answer_def)

lemma demo_secrets: "ht_secrets demo_target = [''https://chat/T0K'']" "tg_secrets demo_telegram = [''T0K'']" "ht_service demo_target = ''slack''"
  by code_simp+

lemma demo_refusal: "refusal ''slack'' 403 = ''slack rejected the message (status 403)''" "Itoa 403 = ''403''"
proof -
  show i: "Itoa 403 = ''403''" by (simp add: Itoa.simps digit_char_def) code_simp
  show "refusal ''slack'' 403 = ''slack rejected the message (status 403)''" by (simp add: refusal_def i)
qed

lemma demo_detail: "refused_detail leaky demo_target ''no https://chat/T0K for you'' = ''no *** for you''"
proof -
  have t: "take 4096 ''no https://chat/T0K for you'' = ''no https://chat/T0K for you''" by simp
  have r: "redact [''https://chat/T0K''] (responseDetail leaky ''no https://chat/T0K for you'') = ''no *** for you''"
    "RuneCountInString ''no *** for you'' = 14" by code_simp+
  show ?thesis unfolding refused_detail_def t demo_secrets r(1) by (simp add: clip_def r(2))
qed

lemma demo_bot: "telegram_refused leaky demo_telegram demo_answer = ''bad token ***''"
proof -
  have "redact [''T0K''] ''bad token T0K'' = ''bad token ***''" by code_simp
  then show ?thesis by (simp add: telegram_refused_def demo_secrets leaky_def)
qed

lemma demo_posts:
  "post leaky demo_target ''text/plain'' [] [] = Some refused_post" "Telegram_Send leaky demo_telegram demo_alert = Some refused_bot"
  using demo_detail demo_refusal demo_bot
  by (simp_all add: post_def Telegram_Send_def leaky_do demo_secrets refused_post_def refused_bot_def)

theorem secrets_not_disclosed_witness:
  "refused_with leaky demo_target demo_answer (se_text refused_post) \<and> se_text refused_post \<noteq> refusal (ht_service demo_target) 403 \<and>
   discloses [''T0K''] (se_text refused_bot) ''telegram send failed (status 403): '' []"
proof -
  have "se_text refused_post \<noteq> ''slack rejected the message (status 403)''" by code_simp
  with secrets_not_disclosed [of leaky demo_target "''text/plain''" "[]" "[]" refused_post demo_telegram demo_alert refused_bot]
    demo_posts demo_secrets leaky_do demo_refusal
  show ?thesis by simp
qed

theorem no_header_injection_witness:
  "map header_name (header_lines (buildMessage id ''now'' ''a@b'' [''c@d''] (''up'' @ CRLF @ ''Bcc: x'') ''body'' ''<1>'')) =
     [''From'', ''To'', ''Subject'', ''Date'', ''Message-ID'', ''Auto-Submitted'', ''MIME-Version'', ''Content-Type'']"
proof -
  have "no_breaks ''now''" by code_simp
  then show ?thesis
    using no_header_injection [of id "''now''" "''a@b''" "[''c@d'']" "''up'' @ CRLF @ ''Bcc: x''" "''body''" "''<1>''"] by (metis id_apply)
qed

definition demo_mailer :: smtpMailer where
  "demo_mailer = el_sender (NewEmail \<lparr>em_name = ''mail'', em_host = ''mx'', em_port = 587, em_username = ''u'', em_password = ''p'', em_from = ''a@b'',
                                     em_to = [''c@d''], em_starttls = True, em_tls = False, em_timeout = 0\<rparr>)"

definition plain_server :: smtp_server where
  "plain_server = \<lparr>sx_dial = None, sx_greet = None, sx_offers_starttls = False, sx_starttls = None, sx_auth = None, sx_mail = None, sx_rcpt = (\<lambda>_. None),
                   sx_data = None, sx_write = None, sx_close = None\<rparr>"

theorem mail_never_in_clear_witness:
  "fst (smtp_send id None False demo_mailer plain_server ''a@b'' [''c@d''] ''hello'') = [CDial False ''mx:587'']"
proof -
  define r where "r = smtp_send id None False demo_mailer plain_server ''a@b'' [''c@d''] ''hello''"
  have "sm_starttls demo_mailer" "\<not> sm_implicit demo_mailer" "sm_addr demo_mailer = ''mx:587''" "\<not> CStartTLS \<in> set (fst r)"
    unfolding r_def by code_simp+
  then show ?thesis using mail_never_in_clear [of id None False demo_mailer plain_server "''a@b''" "[''c@d'']" "''hello''" "fst r" "snd r"]
    unfolding r_def by auto
qed

definition demo_pushover :: Pushover where
  "demo_pushover = NewPushover demo_lib ''phone'' ''T'' ''U'' [] 0"

theorem messages_within_limits_witness:
  "RuneCountInString (clip (subjectLine demo_text demo_alert) pushoverTitleMax) \<le> pushoverTitleMax \<and>
   list_all fits_embed (items_at ''embeds'' (discord_message demo_text demo_alert))"
proof -
  have "(''title'', clip (subjectLine demo_text demo_alert) pushoverTitleMax) \<in> set (pushover_form demo_text demo_pushover demo_alert)"
    by (simp add: pushover_form_def Let_def)
  then show ?thesis using messages_within_limits [of demo_text demo_alert demo_pushover "''topic''"] by blast
qed

end
