(* ===== verification/App.thy ===== *)
theory App
  imports Config Channel_Send Channel_Mail Worker Service Auth "HOL-Library.AList"
begin

text \<open>
  \<^verbatim>\<open>internal/app/app.go\<close>: how a configuration becomes a running instance. \<open>App_New\<close> builds the registry, the router and the services from a
  validated configuration; opening and migrating the database are the parameters \<open>opened\<close> and \<open>migrated\<close>. \<open>Send\<close> is the dispatch of the
  channel interface. The goroutines of \<^verbatim>\<open>RunServer\<close>, \<^verbatim>\<open>RunWorker\<close> and \<^verbatim>\<open>RunAll\<close> are not modelled, only what they build.
\<close>

subsection \<open>Modes and credentials\<close>

definition ModeServer :: string where "ModeServer = ''server''"
definition ModeWorker :: string where "ModeWorker = ''worker''"
definition ModeAll :: string where "ModeAll = ''all''"
definition ModeCheckDB :: string where "ModeCheckDB = ''check-db''"
definition ModeUser :: string where "ModeUser = ''user''"

definition Modes :: "string list" where
  "Modes = [ModeServer, ModeWorker, ModeAll, ModeCheckDB, ModeUser]"

definition modeServesHTTP :: "string \<Rightarrow> bool" where
  "modeServesHTTP mode = (mode = ModeServer \<or> mode = ModeAll)"

text \<open>\<open>False\<close> is the refusal to start.\<close>

definition RequireCredential :: "Config \<Rightarrow> string \<Rightarrow> bool" where
  "RequireCredential cfg mode =
     (if \<not> modeServesHTTP mode then True
      else if cf_admin_token cfg \<noteq> [] \<or> length (cf_api_keys cfg) > 0 then True else False)"

definition minCredentialLen :: nat where "minCredentialLen = 32"

datatype weak_credential = WeakDemoToken | WeakAdminToken | WeakKey nat string | UnlimitedIngestKey nat

definition weak_admin_token :: "Config \<Rightarrow> weak_credential list" where
  "weak_admin_token cfg =
     (if cf_admin_token cfg = DemoAdminToken then [WeakDemoToken]
      else if cf_admin_token cfg \<noteq> [] \<and> length (cf_admin_token cfg) < minCredentialLen then [WeakAdminToken] else [])"

definition WeakCredentialWarnings :: "Config \<Rightarrow> string \<Rightarrow> weak_credential list" where
  "WeakCredentialWarnings cfg mode =
     (if \<not> modeServesHTTP mode then []
      else
        let keys = enumerate 0 (cf_api_keys cfg);
            ingestKeys = length (filter (\<lambda>k. ak_scope k = ScopeIngest) (cf_api_keys cfg)) in
        weak_admin_token cfg @
        map (\<lambda>(i, k). WeakKey i (ak_scope k)) (filter (\<lambda>(i, k). length (ak_key k) < minCredentialLen) keys) @
        (if ingestKeys > 1
         then map (\<lambda>(i, k). UnlimitedIngestKey i) (filter (\<lambda>(i, k). ak_scope k = ScopeIngest \<and> ak_sources k = None) keys)
         else []))"

subsection \<open>Channels\<close>

datatype channel =
    ChEmail Email
  | ChTelegram Telegram
  | ChWebhook Webhook
  | ChSlack httpTarget
  | ChTeams httpTarget
  | ChDiscord httpTarget
  | ChNtfy Ntfy
  | ChPushover Pushover

text \<open>The methods \<^verbatim>\<open>Type\<close>, \<^verbatim>\<open>Name\<close> and \<^verbatim>\<open>Timeout\<close> of the channels.\<close>

fun as_channel :: "channel \<Rightarrow> Channel" where
  "as_channel (ChEmail e) = \<lparr>ch_type = ChannelEmail, ch_name = el_name e, ch_timeout = el_timeout e\<rparr>"
| "as_channel (ChTelegram t) = \<lparr>ch_type = ChannelTelegram, ch_name = tg_name t, ch_timeout = tg_timeout t\<rparr>"
| "as_channel (ChWebhook w) = \<lparr>ch_type = ChannelWebhook, ch_name = wh_name w, ch_timeout = wh_timeout w\<rparr>"
| "as_channel (ChSlack h) = \<lparr>ch_type = ChannelSlack, ch_name = ht_name h, ch_timeout = ht_timeout h\<rparr>"
| "as_channel (ChTeams h) = \<lparr>ch_type = ChannelTeams, ch_name = ht_name h, ch_timeout = ht_timeout h\<rparr>"
| "as_channel (ChDiscord h) = \<lparr>ch_type = ChannelDiscord, ch_name = ht_name h, ch_timeout = ht_timeout h\<rparr>"
| "as_channel (ChNtfy t) = \<lparr>ch_type = ChannelNtfy, ch_name = ht_name (ny_target t), ch_timeout = ht_timeout (ny_target t)\<rparr>"
| "as_channel (ChPushover p) = \<lparr>ch_type = ChannelPushover, ch_name = ht_name (po_target p), ch_timeout = ht_timeout (po_target p)\<rparr>"

definition email_of :: "EmailChannel \<Rightarrow> channel" where
  "email_of e =
     ChEmail (NewEmail \<lparr>em_name = ec_name e, em_host = ec_host e, em_port = ec_port e, em_username = ec_username e, em_password = ec_password e,
                        em_from = ec_from e, em_to = ec_to e, em_starttls = ec_starttls e, em_tls = ec_tls e, em_timeout = ec_timeout e\<rparr>)"

fun telegrams_of :: "golib \<Rightarrow> TelegramChannel list \<Rightarrow> config_error + channel list" where
  "telegrams_of gl [] = Inr []"
| "telegrams_of gl (t # ts) =
     (case ParseProxyURL gl (tc_proxy t) of
        Inl e \<Rightarrow> Inl (BadProxy (tc_name t) e)
      | Inr proxy \<Rightarrow>
          map_sum id ((#) (ChTelegram (NewTelegram (tc_name t) (tc_bot_token t) (tc_chat_id t) (tc_api_base t) proxy (tc_timeout t))))
            (telegrams_of gl ts))"

definition other_channels :: "golib \<Rightarrow> Channels \<Rightarrow> channel list" where
  "other_channels gl c =
     map (\<lambda>w. ChWebhook (NewWebhook gl (wc_name w) (wc_url w) (wc_secret w) (wc_timeout w))) (cs_webhook c) @
     map (\<lambda>h. ChSlack (NewSlack gl (cc_name h) (cc_url h) (cc_timeout h))) (cs_slack c) @
     map (\<lambda>h. ChTeams (NewTeams gl (cc_name h) (cc_url h) (cc_timeout h))) (cs_teams c) @
     map (\<lambda>h. ChDiscord (NewDiscord gl (cc_name h) (cc_url h) (cc_timeout h))) (cs_discord c) @
     map (\<lambda>t. ChNtfy (NewNtfy gl (nc_name t) (nc_server t) (nc_topic t) (nc_token t) (nc_username t) (nc_password t) (nc_timeout t))) (cs_ntfy c) @
     map (\<lambda>p. ChPushover (NewPushover gl (pc_name p) (pc_token p) (pc_user_key p) [] (pc_timeout p))) (cs_pushover c)"

definition buildChannels :: "golib \<Rightarrow> Channels \<Rightarrow> config_error + channel list" where
  "buildChannels gl c =
     map_sum id (\<lambda>ts. map email_of (cs_email c) @ ts @ other_channels gl c) (telegrams_of gl (cs_telegram c))"

definition buildRegistry :: "golib \<Rightarrow> Channels \<Rightarrow> config_error + Registry" where
  "buildRegistry gl c = map_sum id (\<lambda>chans. NewRegistry (map (Some \<circ> as_channel) chans)) (buildChannels gl c)"

text \<open>What a send needs of the world besides the HTTP client: the clock of a mail or webhook, the encoders and the SMTP server.\<close>

record sendworld =
  sw_lib :: sendlib
  sw_marshal :: "webhookPayload \<Rightarrow> string + string"
  sw_now :: string
  sw_qencode :: "string \<Rightarrow> string"
  sw_date :: string
  sw_cause :: "string option"
  sw_wraps :: bool
  sw_smtp :: "string \<Rightarrow> smtp_server"

fun Send :: "sendworld \<Rightarrow> channel \<Rightarrow> Notification \<Rightarrow> send_error option" where
  "Send w (ChEmail e) n = snd (Email_Send (sw_lib w) (sw_qencode w) (sw_date w) (sw_cause w) (sw_wraps w) (sw_smtp w (sm_addr (el_sender e))) e n)"
| "Send w (ChTelegram t) n = Telegram_Send (sw_lib w) t n"
| "Send w (ChWebhook h) n = Webhook_Send (sw_lib w) (sw_marshal w) (sw_now w) h n"
| "Send w (ChSlack h) n = Slack_Send (sw_lib w) h n"
| "Send w (ChTeams h) n = Teams_Send (sw_lib w) h n"
| "Send w (ChDiscord h) n = Discord_Send (sw_lib w) h n"
| "Send w (ChNtfy t) n = Ntfy_Send (sw_lib w) t n"
| "Send w (ChPushover p) n = Pushover_Send (sw_lib w) p n"

subsection \<open>Assembly\<close>

datatype app_error = InvalidConfig config_error | NotOpened | NotMigrated | NoRegistry config_error | NoRouter router_error

definition buildRouter :: "unicode_lower \<Rightarrow> Routing option \<Rightarrow> ChannelTarget list \<Rightarrow> router_error + Router" where
  "buildRouter ul cfg targets = (case cfg of None \<Rightarrow> Inr (NewAllChannels targets) | Some r \<Rightarrow> New ul r targets)"

record App =
  pa_cfg :: Config
  pa_version :: string
  pa_registry :: Registry
  pa_router :: Router
  pa_ingest :: IngestService
  pa_recovery :: RecoveryNotifier

definition App_New :: "golib \<Rightarrow> string list \<Rightarrow> bool \<Rightarrow> bool \<Rightarrow> string \<Rightarrow> Config \<Rightarrow> app_error + App" where
  "App_New gl kinds opened migrated version cfg =
     (case Validate gl kinds cfg of
        Some e \<Rightarrow> Inl (InvalidConfig e)
      | None \<Rightarrow>
          if \<not> opened then Inl NotOpened
          else if \<not> migrated then Inl NotMigrated
          else (case buildRegistry gl (cf_channels cfg) of
                  Inl e \<Rightarrow> Inl (NoRegistry e)
                | Inr registry \<Rightarrow>
                   (let recovery = NewRecoveryNotifier (ShouldNotifyOnResolve cfg) (wo_max_attempts (cf_worker cfg)) in
                    case buildRouter (gl_lower gl) (cf_routing cfg) (Targets registry) of
                      Inl e \<Rightarrow> Inl (NoRouter e)
                    | Inr router \<Rightarrow>
                        Inr \<lparr>pa_cfg = cfg, pa_version = version, pa_registry = registry, pa_router = router,
                             pa_ingest = NewIngestService (Some router) (wo_max_attempts (cf_worker cfg)) recovery,
                             pa_recovery = recovery\<rparr>)))"

text \<open>The worker that \<^verbatim>\<open>RunWorker\<close> runs, and the tables of keys and the proxies that \<^verbatim>\<open>RunServer\<close> gives the server.\<close>

definition app_worker :: "App \<Rightarrow> Worker" where
  "app_worker a =
     NewWorker (pa_registry a)
       \<lparr>op_concurrency = wo_concurrency (cf_worker (pa_cfg a)), op_poll_interval = wo_poll_interval (cf_worker (pa_cfg a)),
        op_base_backoff = wo_base_backoff (cf_worker (pa_cfg a)), op_max_backoff = wo_max_backoff (cf_worker (pa_cfg a)),
        op_stale_after = 0, op_shutdown_grace = 0, op_fallbacks = Fallbacks (cf_channels (pa_cfg a)), op_public_url = cf_public_url (pa_cfg a)\<rparr>"

definition key_scopes :: "Config \<Rightarrow> (string \<times> string) list" where
  "key_scopes cfg = foldl (\<lambda>m k. AList.update (ak_key k) (ak_scope k) m) [] (cf_api_keys cfg)"

definition key_sources :: "Config \<Rightarrow> string \<Rightarrow> string list option" where
  "key_sources cfg =
     foldl (\<lambda>m k. case ak_sources k of Some ss \<Rightarrow> m(ak_key k \<mapsto> ss) | None \<Rightarrow> m) Map.empty (cf_api_keys cfg)"

definition NewTrustedProxies :: "golib \<Rightarrow> string list \<Rightarrow> string + TrustedProxies" where
  "NewTrustedProxies gl entries = ParseTrustedProxies gl entries"

definition app_auth :: "golib \<Rightarrow> App \<Rightarrow> request \<Rightarrow> 'v response + caller" where
  "app_auth gl a r = apiKeyAuth gl (key_scopes (pa_cfg a)) (key_sources (pa_cfg a)) (cf_admin_token (pa_cfg a)) r"

subsection \<open>What the startup log says of the routing\<close>

definition describeMatch :: "MatchView \<Rightarrow> string" where
  "describeMatch m =
     (let part = (\<lambda>name vs. if vs \<noteq> [] then [name @ ''=['' @ Join vs '' '' @ '']''] else []);
          parts = part ''type'' (mv_type m) @ part ''severity'' (mv_severity m) @
                  (if mv_min_severity m \<noteq> [] then [''min_severity='' @ mv_min_severity m] else []) @
                  part ''source'' (mv_source m) @ part ''category'' (mv_category m) in
      if parts = [] then ''any event'' else Join parts '' '')"

definition unused_channels :: "App \<Rightarrow> string list" where
  "unused_channels a =
     filter (\<lambda>name. \<not> (\<exists>nf \<in> set (named_fallbacks (cf_channels (pa_cfg a))). Fallbacks (cf_channels (pa_cfg a)) (fst nf) = Some name))
       (UnusedChannels (pa_router a))"

subsection \<open>Retention\<close>

text \<open>
  One sweep: the ended sessions in the accounts, then the events older than the window, in UTC, and the orphaned attempts. A failing
  statement is logged and not modelled. \<open>polls\<close> and \<open>polls'\<close> are what the loops read of the context.
\<close>

definition retention_cutoff :: "Config \<Rightarrow> time \<Rightarrow> time" where
  "retention_cutoff cfg now = now - cf_retention_days cfg * (24 * Hour)"

definition cleanup_sessions :: "time \<Rightarrow> 'z accounts_scheme \<Rightarrow> nat \<times> 'z accounts_scheme" where
  "cleanup_sessions now a = DeleteExpiredSessions now (now - IdleTimeout) a"

definition cleanup_events :: "Config \<Rightarrow> bool list \<Rightarrow> bool list \<Rightarrow> time \<Rightarrow> nat option db" where
  "cleanup_events cfg polls polls' now =
     (if cf_retention_days cfg \<le> 0 then State_Monad.return (Some 0)
      else do {
        n \<leftarrow> DeleteEventsBefore polls (retention_cutoff cfg now);
        _ \<leftarrow> DeleteDeliveryAttemptsBefore polls' (retention_cutoff cfg now);
        State_Monad.return n
      })"

end
