(* ===== verification/App_Properties.thy ===== *)
theory App_Properties
  imports App
begin

text \<open>
  A configuration that \<open>Validate\<close> accepts starts: its channels become the registry, its routing a router that sends to registered channels
  only, and its fallbacks lead to registered channels.
\<close>

lemma telegrams_of_total:
  "\<forall>t \<in> set ts. check_telegram gl t = None \<Longrightarrow>
     \<exists>cs. telegrams_of gl ts = Inr cs \<and> map (ch_name \<circ> as_channel) cs = map tc_name ts \<and> (\<forall>c \<in> set cs. 0 < ch_timeout (as_channel c))"
proof (induction ts)
  case (Cons t ts)
  then obtain cs where cs: "telegrams_of gl ts = Inr cs" "map (ch_name \<circ> as_channel) cs = map tc_name ts" "\<forall>c \<in> set cs. 0 < ch_timeout (as_channel c)"
    by (auto simp: comp_def)
  have "check_telegram gl t = None" using Cons.prems by simp
  then obtain p where "ParseProxyURL gl (tc_proxy t) = Inr p" by (auto simp: check_telegram_def split: sum.splits)
  with cs show ?case by (simp add: NewTelegram_def send_timeout_def DefaultChannelTimeout_def comp_def)
qed simp

lemma other_channels_names:
  "map (ch_name \<circ> as_channel) (other_channels gl c) =
     map wc_name (cs_webhook c) @ chat_names c @ map nc_name (cs_ntfy c) @ map pc_name (cs_pushover c)"
  "ch \<in> set (other_channels gl c) \<Longrightarrow> 0 < ch_timeout (as_channel ch)"
  by (auto simp: other_channels_def chat_names_def comp_def NewWebhook_def NewSlack_def NewTeams_def NewDiscord_def NewNtfy_def NewPushover_def
      newHTTPTarget_def send_timeout_def DefaultChannelTimeout_def Let_def)

lemma email_of_props: "ch_name (as_channel (email_of e)) = ec_name e" "0 < ch_timeout (as_channel (email_of e))"
  by (simp_all add: email_of_def NewEmail_def Let_def send_timeout_def DefaultChannelTimeout_def)

lemma buildChannels_total:
  assumes "channels_complete gl c"
  obtains chans where "buildChannels gl c = Inr chans" "map (ch_name \<circ> as_channel) chans = channel_names c"
    "\<forall>ch \<in> set chans. 0 < ch_timeout (as_channel ch)"
proof -
  obtain ts where ts: "telegrams_of gl (cs_telegram c) = Inr ts" "map (ch_name \<circ> as_channel) ts = map tc_name (cs_telegram c)"
    "\<forall>ch \<in> set ts. 0 < ch_timeout (as_channel ch)"
    using telegrams_of_total [of "cs_telegram c" gl] assms by (auto simp: channels_complete_def)
  let ?chans = "map email_of (cs_email c) @ ts @ other_channels gl c"
  have "map (ch_name \<circ> as_channel) ?chans = channel_names c"
    using ts(2) other_channels_names(1) [of gl c] by (simp add: channel_names_parts email_of_props comp_def)
  moreover have "\<forall>ch \<in> set ?chans. 0 < ch_timeout (as_channel ch)"
    using ts(3) other_channels_names(2) [of _ gl c] email_of_props(2) by auto
  ultimately show ?thesis using ts(1) that [of ?chans] by (simp add: buildChannels_def)
qed

lemma registry_rows:
  assumes "distinct (map ch_name chs)"
  shows "rg_order (NewRegistry (map Some chs)) = map ch_name chs \<and>
         (\<forall>n. rg_by_name (NewRegistry (map Some chs)) n = None \<longleftrightarrow> n \<notin> ch_name ` set chs) \<and>
         (\<forall>ch \<in> set chs. rg_by_name (NewRegistry (map Some chs)) (ch_name ch) = Some ch)"
  using assms
proof (induction chs rule: rev_induct)
  case (snoc c chs)
  let ?r = "NewRegistry (map Some chs)"
  have r: "rg_order ?r = map ch_name chs" "\<And>n. rg_by_name ?r n = None \<longleftrightarrow> n \<notin> ch_name ` set chs"
    "\<And>ch. ch \<in> set chs \<Longrightarrow> rg_by_name ?r (ch_name ch) = Some ch" using snoc by auto
  have "NewRegistry (map Some (chs @ [c])) = register ?r (Some c)" by (simp add: NewRegistry_def)
  moreover have "rg_by_name ?r (ch_name c) = None" using snoc.prems r(2) by simp
  moreover have "\<forall>ch \<in> set chs. ch_name ch \<noteq> ch_name c" using snoc.prems by (simp add: image_iff) metis
  ultimately show ?case using r by (simp add: register_def)
qed (simp add: NewRegistry_def)

lemma buildRegistry_total:
  assumes "channels_complete gl c" "distinct (channel_names c)"
  obtains reg where "buildRegistry gl c = Inr reg" "rg_order reg = channel_names c" "targetNames (Targets reg) = channel_names c"
    "\<And>n. n \<in> set (channel_names c) \<Longrightarrow> \<exists>ch. registry_Get reg n = Some ch \<and> 0 < ch_timeout ch"
proof -
  obtain chans where ch: "buildChannels gl c = Inr chans" "map (ch_name \<circ> as_channel) chans = channel_names c"
    "\<forall>ch \<in> set chans. 0 < ch_timeout (as_channel ch)"
    using assms(1) by (rule buildChannels_total)
  let ?reg = "NewRegistry (map Some (map as_channel chans))"
  have names: "map ch_name (map as_channel chans) = channel_names c" using ch(2) by simp
  have d: "distinct (map ch_name (map as_channel chans))" unfolding names by (rule assms(2))
  from registry_rows [OF d] have o: "rg_order ?reg = channel_names c" "\<And>ch. ch \<in> set chans \<Longrightarrow> registry_Get ?reg (ch_name (as_channel ch)) = Some (as_channel ch)"
    unfolding names registry_Get_def by auto
  have "\<exists>x. registry_Get ?reg n = Some x \<and> 0 < ch_timeout x" if n: "n \<in> set (channel_names c)" for n
  proof -
    obtain x where "x \<in> set chans" "n = ch_name (as_channel x)" using n unfolding ch(2) [symmetric] by auto
    with o(2) ch(3) show ?thesis by blast
  qed
  moreover have "targetNames (Targets ?reg) = channel_names c" using wf_Targets [OF wf_NewRegistry] o(1) by (simp add: targetNames_def)
  ultimately show ?thesis using that [of ?reg] ch(1) o(1) by (simp add: buildRegistry_def)
qed

lemma Route_registered:
  assumes "buildRouter ul cfg ts = Inr r"
  shows "set (dc_channels (Route ul r e)) \<subseteq> set ts"
proof (cases cfg)
  case None
  with assms show ?thesis by (auto simp: buildRouter_def NewAllChannels_def Route_def)
next
  case (Some c)
  with assms have n: "New ul c ts = Inr r" by (simp add: buildRouter_def)
  have "set (ru_channels rl) \<subseteq> set ts" if "rl \<in> set (ro_rules r)" for rl
    using New_InrD(1) [OF n] that by (auto simp: compiled_def list_all2_conv_all_nth in_set_conv_nth)
  with New_InrD(6) [OF n] route_rules_cases [of "ro_rules r" "eventValuesOf ul e" "ro_def r"] show ?thesis
    unfolding Route_def by (metis Decision.select_convs(3))
qed

text \<open>
  C9: a configuration that validation accepts starts. Whatever order Go visits the chat channels in, the answer of \<open>Validate\<close> is the
  same, and once the database is open and migrated \<open>App_New\<close> succeeds: the registry holds exactly the configured channels in order, under their
  distinct names and each with a positive timeout, every fallback is another registered channel, every route leads to registered channels, and the
  attempts per delivery are positive.
\<close>

theorem validated_config_starts:
  assumes "any_order kinds" "Validate gl kinds cfg = None" "star_free (gl_lower gl)"
  shows "(\<forall>kinds'. any_order kinds' \<longrightarrow> Validate gl kinds' cfg = None) \<and>
         (\<exists>a. App_New gl kinds True True version cfg = Inr a \<and>
            rg_order (pa_registry a) = channel_names (cf_channels cfg) \<and> distinct (channel_names (cf_channels cfg)) \<and>
            (\<forall>n \<in> set (channel_names (cf_channels cfg)). \<exists>ch. registry_Get (pa_registry a) n = Some ch \<and> 0 < ch_timeout ch) \<and>
            (\<forall>n f. op_fallbacks (wk_opts (app_worker a)) n = Some f \<longrightarrow> f \<noteq> n \<and> registry_Get (pa_registry a) f \<noteq> None) \<and>
            (\<forall>e. set (dc_channels (Route (gl_lower gl) (pa_router a) e)) \<subseteq> set (Targets (pa_registry a))) \<and>
            0 < is_max_attempts (pa_ingest a))"
proof -
  let ?c = "cf_channels cfg"
  have v: "valid_config gl cfg" using assms(1,2) by (simp add: Validate_None_iff)
  then have c: "channels_complete gl ?c" "distinct (channel_names ?c)"
    "\<And>n f. Fallbacks ?c n = Some f \<Longrightarrow> f \<noteq> n \<and> f \<in> set (channel_names ?c)"
    "\<And>r. cf_routing cfg = Some r \<Longrightarrow> validate_Routing (gl_lower gl) (set (channel_names ?c)) r = None"
    by (simp_all add: valid_config_def Let_def)
  obtain reg where reg: "buildRegistry gl ?c = Inr reg" "rg_order reg = channel_names ?c" "targetNames (Targets reg) = channel_names ?c"
    "\<And>n. n \<in> set (channel_names ?c) \<Longrightarrow> \<exists>ch. registry_Get reg n = Some ch \<and> 0 < ch_timeout ch"
    using c(1,2) by (rule buildRegistry_total) blast
  obtain router where router: "buildRouter (gl_lower gl) (cf_routing cfg) (Targets reg) = Inr router"
    using validate_New [OF assms(3), of "Targets reg"] c(4) reg(3) by (cases "cf_routing cfg") (auto simp: buildRouter_def)
  define a where "a = \<lparr>pa_cfg = cfg, pa_version = version, pa_registry = reg, pa_router = router,
      pa_ingest = NewIngestService (Some router) (wo_max_attempts (cf_worker cfg)) (NewRecoveryNotifier (ShouldNotifyOnResolve cfg) (wo_max_attempts (cf_worker cfg))),
      pa_recovery = NewRecoveryNotifier (ShouldNotifyOnResolve cfg) (wo_max_attempts (cf_worker cfg))\<rparr>"
  have "App_New gl kinds True True version cfg = Inr a" using assms(2) reg(1) router by (simp add: App_New_def a_def Let_def)
  moreover have "op_fallbacks (wk_opts (app_worker a)) = Fallbacks ?c"
    by (simp add: app_worker_def a_def NewWorker_def applyDefaults_def Let_def)
  moreover have "0 < is_max_attempts (pa_ingest a)" by (simp add: a_def NewIngestService_def DefaultMaxAttempts_def)
  moreover have "set (dc_channels (Route (gl_lower gl) (pa_router a) e)) \<subseteq> set (Targets (pa_registry a))" for e
    using Route_registered [OF router] by (simp add: a_def)
  moreover have "rg_order (pa_registry a) = channel_names ?c" "pa_registry a = reg" by (simp_all add: a_def reg(2))
  ultimately show ?thesis using v c reg(4) Validate_None_iff [of _ gl cfg] by (metis option.distinct(1))
qed

text \<open>
  An instance without any credential, which \<open>RequireCredential\<close> keeps from starting, would not answer everybody: the middleware refuses every
  request to it.
\<close>

lemma no_credential_no_access:
  assumes "cf_admin_token (pa_cfg a) = []" "cf_api_keys (pa_cfg a) = []"
  shows "\<exists>refusal. app_auth gl a r = Inl refusal"
  using assms by (auto simp: app_auth_def key_scopes_def apiKeyAuth_def lookupKey_def Let_def)

definition demo_startup :: golib where
  "demo_startup = demo_lib\<lparr>gl_lower := demo_lower\<rparr>"

definition demo_config :: Config where
  "demo_config =
     Default\<lparr>cf_channels :=
       \<lparr>cs_email = [\<lparr>ec_name = ''mail'', ec_host = ''mx'', ec_port = 25, ec_username = [], ec_password = [], ec_from = ''a@b'', ec_to = [''c@d''],
                      ec_starttls = False, ec_tls = False, ec_timeout = 0, ec_fallback = ''hook''\<rparr>],
        cs_telegram = [],
        cs_webhook = [\<lparr>wc_name = ''hook'', wc_url = ''https://x'', wc_secret = [], wc_timeout = 0, wc_fallback = []\<rparr>],
        cs_slack = [], cs_teams = [], cs_discord = [], cs_ntfy = [], cs_pushover = []\<rparr>,
       cf_routing := Some \<lparr>rt_rules = [], rt_default = [''mail'']\<rparr>\<rparr>"

theorem validated_config_starts_witness:
  "\<exists>a. App_New demo_startup [''teams'', ''discord'', ''slack''] True True ''1'' demo_config = Inr a \<and> rg_order (pa_registry a) = [''mail'', ''hook'']"
proof -
  have o: "any_order [''teams'', ''discord'', ''slack'']" by (simp add: any_order_def add_mset_commute)
  have v: "Validate demo_startup [''teams'', ''discord'', ''slack''] demo_config = None" by code_simp
  have s: "star_free (gl_lower demo_startup)" by (simp add: demo_startup_def demo_lower_star_free)
  have n: "channel_names (cf_channels demo_config) = [''mail'', ''hook'']" by code_simp
  show ?thesis using validated_config_starts [OF o v s, of "''1''"] unfolding n by blast
qed

end
