(* ===== verification/Go_Query.thy ===== *)
theory Go_Query
  imports Go_Strings Go_Encode
begin

text \<open>
  URL queries as Go's \<^verbatim>\<open>net/url\<close> reads and writes them. A \<^verbatim>\<open>url.Values\<close>, a map from names to lists, is the list of its pairs: those of
  a name in the order of its list. \<open>Encode\<close> sorts by name, so the order of different names in the list does not matter to it.
\<close>

type_synonym Values = "(string \<times> string) list"

definition from_hex :: "char \<Rightarrow> nat option" where
  "from_hex c =
     (let n = (of_char c :: nat) in
      if 48 \<le> n \<and> n \<le> 57 then Some (n - 48)
      else if 65 \<le> n \<and> n \<le> 70 then Some (n - 55)
      else if 97 \<le> n \<and> n \<le> 102 then Some (n - 87) else None)"

definition hex_byte :: "char \<Rightarrow> char \<Rightarrow> char option" where
  "hex_byte a b = (case (from_hex a, from_hex b) of (Some x, Some y) \<Rightarrow> Some (char_of (x * 16 + y)) | _ \<Rightarrow> None)"

text \<open>\<^verbatim>\<open>url.QueryUnescape\<close>; \<open>None\<close> is a malformed escape.\<close>

fun QueryUnescape :: "string \<Rightarrow> string option" where
  "QueryUnescape [] = Some []"
| "QueryUnescape (c # s) =
     (if c = CHR ''%''
      then (case s of
              a # b # r \<Rightarrow> (case hex_byte a b of None \<Rightarrow> None | Some d \<Rightarrow> map_option ((#) d) (QueryUnescape r))
            | _ \<Rightarrow> None)
      else map_option ((#) (if c = CHR ''+'' then CHR '' '' else c)) (QueryUnescape s))"

text \<open>\<^verbatim>\<open>strings.Cut\<close>: what is before the separator, what is after it, and whether it is there.\<close>

definition Cut :: "string \<Rightarrow> char \<Rightarrow> string \<times> string \<times> bool" where
  "Cut s c = (case IndexByte s c of Some i \<Rightarrow> (take i s, drop (Suc i) s, True) | None \<Rightarrow> (s, [], False))"

definition parse_pair :: "string \<Rightarrow> (string \<times> string) option" where
  "parse_pair p =
     (let (k, v, _) = Cut p (CHR ''='') in
      case (QueryUnescape k, QueryUnescape v) of (Some k', Some v') \<Rightarrow> Some (k', v') | _ \<Rightarrow> None)"

text \<open>\<^verbatim>\<open>url.ParseQuery\<close>; \<open>None\<close> is its error.\<close>

definition ParseQuery :: "string \<Rightarrow> Values option" where
  "ParseQuery q =
     (let parts = filter (\<lambda>p. p \<noteq> []) (Split (CHR ''&'') q) in
      if list_ex (\<lambda>p. CHR '';'' \<in> set p \<or> parse_pair p = None) parts then None
      else Some (map (the \<circ> parse_pair) parts))"

definition encode_pair :: "string \<times> string \<Rightarrow> string" where
  "encode_pair kv = QueryEscape (fst kv) @ ''='' @ QueryEscape (snd kv)"

definition Encode :: "Values \<Rightarrow> string" where
  "Encode vs = Join (map encode_pair (sort_key fst vs)) ''&''"

definition values_of :: "Values \<Rightarrow> string \<Rightarrow> string list" where
  "values_of vs k = map snd (filter (\<lambda>kv. fst kv = k) vs)"

subsection \<open>Reading undoes writing\<close>

lemma upperhex_props:
  assumes "n < 16"
  shows "from_hex (upperhex n) = Some n" "unreserved (upperhex n)" "upperhex n \<notin> set ''%+&=;''"
proof -
  have "list_all (\<lambda>n. from_hex (upperhex n) = Some n \<and> unreserved (upperhex n) \<and> upperhex n \<notin> set ''%+&=;'') [0..<16]"
    by code_simp
  with assms show "from_hex (upperhex n) = Some n" "unreserved (upperhex n)" "upperhex n \<notin> set ''%+&=;''"
    by (auto simp: list_all_iff)
qed

lemma unreserved_plain: "unreserved c \<Longrightarrow> c \<notin> set ''%+&=;''"
  by (auto simp: unreserved_def)

definition escape_char :: "char \<Rightarrow> string" where
  "escape_char c =
     (if unreserved c then [c] else if c = CHR '' '' then ''+''
      else (let n = (of_char c :: nat) in CHR ''%'' # [upperhex (n div 16), upperhex (n mod 16)]))"

lemma QueryEscape_Cons: "QueryEscape (c # s) = escape_char c @ QueryEscape s" "QueryEscape [] = []"
  by (simp_all add: QueryEscape_def escape_char_def)

lemma of_char_nibbles: "(of_char c :: nat) div 16 < 16" "(of_char c :: nat) mod 16 < 16"
proof -
  have "(of_char c :: nat) < 256" by simp
  then show "(of_char c :: nat) div 16 < 16" by (simp add: div_less_iff_less_mult)
  show "(of_char c :: nat) mod 16 < 16" by simp
qed

lemma hex_byte_of: "hex_byte (upperhex ((of_char c :: nat) div 16)) (upperhex ((of_char c :: nat) mod 16)) = Some c"
  by (simp add: hex_byte_def upperhex_props of_char_nibbles)

lemma unescape_escape_char: "QueryUnescape (escape_char c @ s) = map_option ((#) c) (QueryUnescape s)"
  using unreserved_plain [of c] hex_byte_of [of c] by (auto simp: escape_char_def Let_def)

lemma QueryUnescape_QueryEscape [simp]: "QueryUnescape (QueryEscape s) = Some s"
  by (induction s) (simp_all add: QueryEscape_Cons unescape_escape_char)

lemma escape_char_set: "d \<in> set (escape_char c) \<Longrightarrow> d \<noteq> CHR ''&'' \<and> d \<noteq> CHR ''='' \<and> d \<noteq> CHR '';''"
  using unreserved_plain [of d] upperhex_props(3) [OF of_char_nibbles(1) [of c]] upperhex_props(3) [OF of_char_nibbles(2) [of c]]
  by (auto simp: escape_char_def Let_def split: if_splits)

lemma QueryEscape_set: "d \<in> set (QueryEscape s) \<Longrightarrow> d \<noteq> CHR ''&'' \<and> d \<noteq> CHR ''='' \<and> d \<noteq> CHR '';''"
  by (induction s) (auto simp: QueryEscape_Cons dest: escape_char_set)

lemma QueryEscape_plain: "d \<in> set (QueryEscape s) \<Longrightarrow> unreserved d \<or> d = CHR ''%'' \<or> d = CHR ''+''"
proof (induction s)
  case (Cons c s)
  have "e \<in> set (escape_char c) \<Longrightarrow> unreserved e \<or> e = CHR ''%'' \<or> e = CHR ''+''" for e
    using upperhex_props(2) [OF of_char_nibbles(1) [of c]] upperhex_props(2) [OF of_char_nibbles(2) [of c]]
    by (auto simp: escape_char_def Let_def split: if_splits)
  with Cons show ?case by (auto simp: QueryEscape_Cons)
qed (simp add: QueryEscape_Cons)

lemma set_Join: "set (Join ss sep) \<subseteq> \<Union> (set ` set ss) \<union> set sep"
  by (induction ss sep rule: Join.induct) auto

lemma Cut_found: "c \<notin> set p \<Longrightarrow> Cut (p @ c # s) c = (p, s, True)"
  by (simp add: Cut_def IndexByte_append)

lemma parse_encode_pair [simp]: "parse_pair (encode_pair kv) = Some kv"
proof -
  have "CHR ''='' \<notin> set (QueryEscape (fst kv))" using QueryEscape_set by blast
  then show ?thesis by (simp add: parse_pair_def encode_pair_def Cut_found)
qed

lemma encode_pair_set: "CHR ''&'' \<notin> set (encode_pair kv)" "CHR '';'' \<notin> set (encode_pair kv)" "encode_pair kv \<noteq> []"
  by (auto simp: encode_pair_def dest: QueryEscape_set)

lemma Split_Join:
  assumes "ss \<noteq> []" "\<And>s. s \<in> set ss \<Longrightarrow> c \<notin> set s"
  shows "Split c (Join ss [c]) = ss"
  using assms
proof (induction ss "[c]" rule: Join.induct)
  case (3 s t ss)
  then show ?case by (simp add: Split_append)
qed (simp_all add: Split_none)

lemma ParseQuery_Encode: "ParseQuery (Encode vs) = Some (sort_key fst vs)"
proof (cases "vs = []")
  case False
  then have "sort_key fst vs \<noteq> []" by (metis length_sort length_0_conv)
  then have "Split (CHR ''&'') (Encode vs) = map encode_pair (sort_key fst vs)"
    unfolding Encode_def by (intro Split_Join) (auto simp: encode_pair_set(1))
  moreover have "filter (\<lambda>p. p \<noteq> []) (map encode_pair ws) = map encode_pair ws" for ws
    by (simp add: filter_id_conv encode_pair_set(3))
  ultimately show ?thesis
    by (simp add: ParseQuery_def list_ex_iff encode_pair_set(2) o_def)
qed (simp add: ParseQuery_def Encode_def)

lemma sort_key_idem: "sort_key f (sort_key f xs) = sort_key f xs"
  by (rule sort_key_id_if_sorted) simp

lemma Encode_sorted: "Encode (sort_key fst vs) = Encode vs"
  by (simp add: Encode_def sort_key_idem)

lemma values_of_sorted [simp]: "values_of (sort_key fst vs) k = values_of vs k"
  by (simp add: values_of_def sort_key_stable)

lemma values_of_append [simp]: "values_of (vs @ ws) k = values_of vs k @ values_of ws k"
  by (simp add: values_of_def)

lemma Encode_eq_Nil [simp]: "Encode vs = [] \<longleftrightarrow> vs = []"
proof
  assume "Encode vs = []"
  then have "ParseQuery (Encode vs) = Some []" by (simp add: ParseQuery_def)
  then show "vs = []" by (metis ParseQuery_Encode option.inject length_sort length_0_conv)
qed (simp add: Encode_def)

end
