(* ===== verification/Storage_Dsn.thy ===== *)
theory Storage_Dsn
  imports Go_Query Http
begin

text \<open>
  How the database is addressed: \<^verbatim>\<open>internal/storage/dialect.go\<close>, \<^verbatim>\<open>dsn.go\<close> and the part of \<^verbatim>\<open>check.go\<close> that looks at a SQLite file. The settings that
  a SQLite address must have are merged into what the operator wrote, and an error about a PostgreSQL address must not quote its password.
  \<^verbatim>\<open>pgx.ParseConfig\<close>, \<^verbatim>\<open>sql.Open\<close> and \<^verbatim>\<open>os.Stat\<close> are the parameters \<open>pgx\<close>. The fixed texts of the errors are constructors.
\<close>

subsection \<open>Dialects\<close>

record dialect =
  di_name :: string

definition sqliteLower :: string where "sqliteLower = ''alertloop_lower''"

fun rebind_from :: "nat \<Rightarrow> string \<Rightarrow> string" where
  "rebind_from n [] = []"
| "rebind_from n (c # s) = (if c = CHR ''?'' then CHR ''$'' # Itoa (n + 1) @ rebind_from (n + 1) s else c # rebind_from n s)"

definition rebind :: "dialect \<Rightarrow> string \<Rightarrow> string" where
  "rebind d query = (if di_name d \<noteq> ''postgres'' then query else rebind_from 0 query)"

definition supportsSkipLocked :: "dialect \<Rightarrow> bool" where
  "supportsSkipLocked d = (di_name d = ''postgres'')"

definition rowLock :: "dialect \<Rightarrow> string" where
  "rowLock d = (if di_name d = ''postgres'' then '' FOR UPDATE'' else [])"

definition shareLock :: "dialect \<Rightarrow> string" where
  "shareLock d = (if di_name d = ''postgres'' then '' FOR SHARE'' else [])"

definition lower_function :: "dialect \<Rightarrow> string" where
  "lower_function d = (if di_name d = ''postgres'' then ''lower'' else sqliteLower)"

text \<open>A statement has as many numbered parameters as it has marks, each its own.\<close>

definition marks :: "string \<Rightarrow> nat" where
  "marks s = length (filter (\<lambda>c. c = CHR ''?'') s)"

lemma rebind_from_append: "rebind_from n (s @ t) = rebind_from n s @ rebind_from (n + marks s) t"
  by (induction s arbitrary: n) (auto simp: marks_def)

lemma rebind_mark:
  "di_name d = ''postgres'' \<Longrightarrow> rebind d (s @ CHR ''?'' # t) = rebind_from 0 s @ CHR ''$'' # Itoa (marks s + 1) @ rebind_from (marks s + 1) t"
  by (simp add: rebind_def rebind_from_append)

subsection \<open>SQLite addresses\<close>

definition memory_text :: string where "memory_text = '':memory:''"
definition pragma_key :: string where "pragma_key = ''_pragma''"

definition requiredPragmas :: "(string \<times> string) list" where
  "requiredPragmas = [(''busy_timeout'', ''busy_timeout(5000)''), (''foreign_keys'', ''foreign_keys(1)'')]"

definition pragma_name :: "string \<Rightarrow> string" where
  "pragma_name p = TrimSpace (fst (Cut p (CHR ''('')))"

definition missing_pragmas :: "Values \<Rightarrow> Values" where
  "missing_pragmas vs =
     map (\<lambda>np. (pragma_key, snd np)) (filter (\<lambda>np. fst np \<notin> pragma_name ` set (values_of vs pragma_key)) requiredPragmas)"

definition sqliteDSN :: "string \<Rightarrow> string" where
  "sqliteDSN dsn =
     (if dsn = [] \<or> Contains dsn memory_text then dsn
      else let (base, query, hasQuery) = Cut dsn (CHR ''?'') in
        (case ParseQuery query of
           None \<Rightarrow> dsn
         | Some vs \<Rightarrow>
             let encoded = Encode (vs @ missing_pragmas vs) in
             if encoded = [] then (if hasQuery then base @ ''?'' else base) else base @ ''?'' @ encoded))"

definition TrimPrefix :: "string \<Rightarrow> string \<Rightarrow> string" where
  "TrimPrefix s p = (if HasPrefix s p then drop (length p) s else s)"

datatype file_error = InMemoryDatabase | NoDatabaseFile

definition sqliteFileExists :: "(string \<Rightarrow> bool) \<Rightarrow> string \<Rightarrow> file_error option" where
  "sqliteFileExists stat dsn =
     (let (path0, query, _) = Cut dsn (CHR ''?''); path = TrimPrefix path0 ''file:'' in
      if path = [] \<or> Contains path memory_text \<or> Contains query ''mode=memory'' then Some InMemoryDatabase
      else if \<not> stat path then Some NoDatabaseFile else None)"

subsection \<open>PostgreSQL addresses\<close>

text \<open>
  A failed parse: its text, whether it is pgx's own error type, and the text of the error inside it. A successful one gives the
  password it will send.
\<close>

record parse_failure =
  pf_text :: string
  pf_config :: bool
  pf_inner :: "string option"

record pgx =
  px_ParseConfig :: "string \<Rightarrow> parse_failure + string"
  px_open :: "string \<Rightarrow> string \<Rightarrow> bool"
  px_stat :: "string \<Rightarrow> bool"

datatype dsn_error =
    NotPostgresURL
  | DriverRejected
  | DriverReason string
  | NotKeywordValue string

definition url_dsn :: "string \<Rightarrow> bool" where
  "url_dsn dsn = (HasPrefix dsn ''postgres://'' \<or> HasPrefix dsn ''postgresql://'')"

fun after_first :: "string \<Rightarrow> string \<Rightarrow> string" where
  "after_first sep [] = []"
| "after_first sep (c # s) = (if HasPrefix (c # s) sep then drop (length sep) (c # s) else after_first sep s)"

fun after_last :: "string \<Rightarrow> string \<Rightarrow> string option" where
  "after_last sep [] = None"
| "after_last sep (c # s) =
     (case after_last sep s of
        Some r \<Rightarrow> Some r
      | None \<Rightarrow> if HasPrefix (c # s) sep then Some (drop (length sep) (c # s)) else None)"

definition strayAt :: "string \<Rightarrow> bool" where
  "strayAt dsn =
     (let rest = after_first ''://'' dsn; tail0 = dropWhile (\<lambda>c. c \<notin> set ''/?#'') rest in
      if tail0 = [] then False
      else
        let (tail1, fragment, _) = Cut tail0 (CHR ''#''); (path, query, _) = Cut tail1 (CHR ''?'') in
        CHR ''@'' \<in> set fragment \<or> CHR ''@'' \<in> set path \<or>
        list_ex (\<lambda>pair. CHR ''@'' \<in> set (fst (Cut pair (CHR ''='')))) (Split (CHR ''&'') query))"

definition explainDSNError :: "parse_failure \<Rightarrow> bool \<Rightarrow> string \<Rightarrow> dsn_error" where
  "explainDSNError err isURL password =
     (if \<not> pf_config err then DriverRejected
      else
        let full = pf_text err; reason = (case after_last ''`: '' full of Some r \<Rightarrow> r | None \<Rightarrow> full) in
        if HasPrefix reason ''failed to parse as '' then
          (if isURL then NotPostgresURL
           else NotKeywordValue (case pf_inner err of Some t \<Rightarrow> '': '' @ t | None \<Rightarrow> []))
        else if password \<noteq> [] \<and> Contains reason password then DriverRejected
        else DriverReason reason)"

definition checkPostgresDSN :: "golib \<Rightarrow> pgx \<Rightarrow> string \<Rightarrow> dsn_error option" where
  "checkPostgresDSN gl px dsn =
     (let after = (\<lambda>password. case px_ParseConfig px dsn of Inl err \<Rightarrow> Some (explainDSNError err (url_dsn dsn) password) | Inr _ \<Rightarrow> None) in
      if url_dsn dsn then
        (case gl_ParseURL gl dsn of
           None \<Rightarrow> Some NotPostgresURL
         | Some u \<Rightarrow> if strayAt dsn then Some NotPostgresURL else after (case ur_password u of Some pw \<Rightarrow> pw | None \<Rightarrow> []))
      else after [])"

fun has_percent_escape :: "string \<Rightarrow> bool" where
  "has_percent_escape (a # b # c # s) =
     (a = CHR ''%'' \<and> from_hex b \<noteq> None \<and> from_hex c \<noteq> None \<or> has_percent_escape (b # c # s))"
| "has_percent_escape _ = False"

definition passwordLooksPercentEncoded :: "pgx \<Rightarrow> string \<Rightarrow> bool" where
  "passwordLooksPercentEncoded px dsn = (case px_ParseConfig px dsn of Inr password \<Rightarrow> has_percent_escape password | Inl _ \<Rightarrow> False)"

text \<open>The text of a refused connection with its SQLSTATE, and whether the hint about percent-encoding follows it.\<close>

record ping_failure =
  pi_text :: string
  pi_code :: "string option"

definition explainAuthFailure :: "ping_failure \<Rightarrow> bool \<Rightarrow> ping_failure \<times> bool" where
  "explainAuthFailure err percentPassword = (err, percentPassword \<and> pi_code err = Some ''28P01'')"

datatype open_error = DriverUnsupported string | BadDSN dsn_error | SQLOpenFailed

text \<open>The dialect and the address the driver is given. The pool settings and the journal mode of SQLite are not modelled.\<close>

definition open_db :: "golib \<Rightarrow> pgx \<Rightarrow> string \<Rightarrow> string \<Rightarrow> open_error + dialect \<times> string" where
  "open_db gl px driver dsn =
     (if driver = ''sqlite'' then
        (if px_open px ''sqlite'' (sqliteDSN dsn) then Inr (\<lparr>di_name = ''sqlite''\<rparr>, sqliteDSN dsn) else Inl SQLOpenFailed)
      else if driver = ''postgres'' then
        (case checkPostgresDSN gl px dsn of
           Some e \<Rightarrow> Inl (BadDSN e)
         | None \<Rightarrow> if px_open px ''pgx'' dsn then Inr (\<lparr>di_name = ''postgres''\<rparr>, dsn) else Inl SQLOpenFailed)
      else Inl (DriverUnsupported driver))"

subsection \<open>Required settings\<close>

lemma Cut_fst: "Cut s c = (p, r, f) \<Longrightarrow> c \<notin> set p \<and> prefix p s"
  by (auto simp: Cut_def IndexByte_None_iff take_is_prefix split: option.splits dest: IndexByte_SomeD)

lemma values_of_missing:
  "values_of (missing_pragmas vs) k =
     (if k = pragma_key then map snd (filter (\<lambda>np. fst np \<notin> pragma_name ` set (values_of vs pragma_key)) requiredPragmas) else [])"
proof -
  have "values_of (map (\<lambda>np. (pragma_key, snd np)) xs) k = (if k = pragma_key then map snd xs else [])" for xs :: "(string \<times> string) list"
    by (simp add: values_of_def o_def)
  then show ?thesis by (simp add: missing_pragmas_def)
qed

lemma required_names: "list_all (\<lambda>np. pragma_name (snd np) = fst np) requiredPragmas"
  by code_simp

text \<open>With the missing settings added nothing is missing.\<close>

lemma pragmas_present: "np \<in> set requiredPragmas \<Longrightarrow> fst np \<in> pragma_name ` set (values_of (vs @ missing_pragmas vs) pragma_key)"
proof (cases "fst np \<in> pragma_name ` set (values_of vs pragma_key)")
  case False
  assume "np \<in> set requiredPragmas"
  with False have "snd np \<in> set (values_of (missing_pragmas vs) pragma_key)" "pragma_name (snd np) = fst np"
    using required_names by (auto simp: values_of_missing list_all_iff)
  then show ?thesis by (metis UnCI image_eqI set_append values_of_append)
qed auto

lemma missing_none: "(\<And>np. np \<in> set requiredPragmas \<Longrightarrow> fst np \<in> pragma_name ` set (values_of vs pragma_key)) \<Longrightarrow> missing_pragmas vs = []"
  by (simp add: missing_pragmas_def filter_empty_conv)

lemma merged_nonempty: "vs @ missing_pragmas vs \<noteq> []"
proof
  assume "vs @ missing_pragmas vs = []"
  then have "missing_pragmas [] = []" by (metis append_is_Nil_conv)
  moreover have "missing_pragmas [] \<noteq> []" by code_simp
  ultimately show False by simp
qed

lemma sqliteDSN_eq:
  assumes "dsn \<noteq> []" "\<not> Contains dsn memory_text" "Cut dsn (CHR ''?'') = (base, query, h)" "ParseQuery query = Some vs"
  shows "sqliteDSN dsn = base @ CHR ''?'' # Encode (vs @ missing_pragmas vs)"
proof -
  have "Encode (vs @ missing_pragmas vs) \<noteq> []" using merged_nonempty [of vs] unfolding Encode_eq_Nil .
  with assms show ?thesis by (simp add: sqliteDSN_def Let_def del: Encode_eq_Nil)
qed

lemma Encode_no_colon: "CHR '':'' \<notin> set (Encode vs)"
proof -
  have c: "\<not> unreserved CHR '':''" by code_simp
  have "CHR '':'' \<notin> set (encode_pair kv)" for kv using QueryEscape_plain c by (auto simp: encode_pair_def)
  then have "CHR '':'' \<notin> set (Join (map encode_pair ws) ''&'')" for ws
    using set_Join [of "map encode_pair ws" "''&''"] by auto
  then show ?thesis by (simp add: Encode_def)
qed

lemma sublist_split:
  assumes "c \<notin> set u" "sublist u (xs @ c # ys)"
  shows "sublist u xs \<or> sublist u ys"
proof -
  from assms(2) consider "sublist u xs" | "sublist u (c # ys)" | v w where "u = v @ w" "suffix v xs" "prefix w (c # ys)"
    by (auto simp: sublist_append)
  then show ?thesis
  proof cases
    case 2
    then show ?thesis using assms(1) by (cases u) (auto simp: sublist_Cons_right)
  next
    case 3
    with assms(1) have "w = []" by (cases w) auto
    with 3 show ?thesis by (auto intro: suffix_imp_sublist)
  qed auto
qed

lemma sqliteDSN_not_memory:
  assumes "\<not> Contains dsn memory_text" "Cut dsn (CHR ''?'') = (base, query, h)"
  shows "\<not> Contains (base @ CHR ''?'' # Encode vs) memory_text"
proof
  assume "Contains (base @ CHR ''?'' # Encode vs) memory_text"
  moreover have "CHR ''?'' \<notin> set memory_text" by code_simp
  ultimately have "sublist memory_text base \<or> sublist memory_text (Encode vs)" by (simp add: Contains_iff sublist_split)
  moreover have "sublist base dsn" using Cut_fst [OF assms(2)] by (simp add: prefix_imp_sublist)
  then have "\<not> sublist memory_text base" using assms(1) by (auto simp: Contains_iff dest: sublist_order.order_trans)
  moreover have "CHR '':'' \<in> set memory_text" by code_simp
  then have "\<not> sublist memory_text (Encode vs)" using Encode_no_colon [of vs] by (auto dest: set_mono_sublist)
  ultimately show False by blast
qed

lemma sqliteDSN_merged:
  assumes "dsn \<noteq> []" "\<not> Contains dsn memory_text" "Cut dsn (CHR ''?'') = (base, query, h)" "ParseQuery query = Some vs"
  shows "\<exists>vs'. Cut (sqliteDSN dsn) (CHR ''?'') = (base, Encode vs', True) \<and> ParseQuery (Encode vs') = Some vs' \<and>
           (\<forall>k. prefix (values_of vs k) (values_of vs' k) \<and> (k \<noteq> pragma_key \<longrightarrow> values_of vs' k = values_of vs k)) \<and>
           {''busy_timeout'', ''foreign_keys''} \<subseteq> pragma_name ` set (values_of vs' pragma_key) \<and>
           (\<forall>p \<in> set (drop (length (values_of vs pragma_key)) (values_of vs' pragma_key)). pragma_name p \<notin> pragma_name ` set (values_of vs pragma_key))"
  (is "\<exists>vs'. ?P vs'")
    and "sqliteDSN (sqliteDSN dsn) = sqliteDSN dsn"
proof -
  let ?vs = "sort_key fst (vs @ missing_pragmas vs)"
  have eq: "sqliteDSN dsn = base @ CHR ''?'' # Encode ?vs" by (simp only: sqliteDSN_eq [OF assms] Encode_sorted)
  have cut: "Cut (sqliteDSN dsn) (CHR ''?'') = (base, Encode ?vs, True)" using Cut_fst [OF assms(3)] by (simp add: eq Cut_found)
  have parse: "ParseQuery (Encode ?vs) = Some ?vs" by (simp only: ParseQuery_Encode sort_key_idem)
  have at_key: "values_of ?vs k = values_of vs k @ values_of (missing_pragmas vs) k" for k by (simp only: values_of_sorted values_of_append)
  have all: "fst np \<in> pragma_name ` set (values_of ?vs pragma_key)" if "np \<in> set requiredPragmas" for np
    using pragmas_present [OF that, of vs] by (simp only: values_of_sorted)
  have "missing_pragmas ?vs = []" using all by (rule missing_none)
  then have "sqliteDSN (sqliteDSN dsn) = base @ CHR ''?'' # Encode ?vs"
    using sqliteDSN_eq [OF _ _ cut parse] sqliteDSN_not_memory [OF assms(2,3), of ?vs] by (simp add: eq)
  then show "sqliteDSN (sqliteDSN dsn) = sqliteDSN dsn" by (simp only: eq)
  have "?P ?vs"
  proof (intro conjI)
    show "\<forall>k. prefix (values_of vs k) (values_of ?vs k) \<and> (k \<noteq> pragma_key \<longrightarrow> values_of ?vs k = values_of vs k)"
      unfolding at_key by (simp add: values_of_missing)
    show "{''busy_timeout'', ''foreign_keys''} \<subseteq> pragma_name ` set (values_of ?vs pragma_key)"
      using all [of "(''busy_timeout'', ''busy_timeout(5000)'')"] all [of "(''foreign_keys'', ''foreign_keys(1)'')"] by (simp add: requiredPragmas_def)
    show "\<forall>p \<in> set (drop (length (values_of vs pragma_key)) (values_of ?vs pragma_key)). pragma_name p \<notin> pragma_name ` set (values_of vs pragma_key)"
      unfolding at_key using required_names by (auto simp: values_of_missing list_all_iff)
  qed (fact cut parse)+
  then show "\<exists>vs'. ?P vs'" by blast
qed



text \<open>
  C37: no error about a PostgreSQL address quotes its password. For an address in the form of a URL, whatever the driver says of
  it, the refusal is a fixed text or a text in which the password of the address does not occur, and an address whose password has spilt into
  path, fragment or the name of a parameter is refused before the driver sees it.
\<close>

theorem dsn_error_hides_password:
  assumes "url_dsn dsn"
  shows "(\<forall>e. checkPostgresDSN gl px dsn = Some e \<longrightarrow> e \<in> {NotPostgresURL, DriverRejected} \<or>
            (\<exists>reason u. e = DriverReason reason \<and> gl_ParseURL gl dsn = Some u \<and>
               (\<forall>pw. ur_password u = Some pw \<longrightarrow> pw = [] \<or> \<not> sublist pw reason))) \<and>
         (strayAt dsn \<longrightarrow> checkPostgresDSN gl px dsn = Some NotPostgresURL)"
  using assms
  by (auto simp: checkPostgresDSN_def explainDSNError_def Contains_iff Let_def split: option.splits sum.splits if_splits)

definition demo_pgx :: pgx where
  "demo_pgx = \<lparr>px_ParseConfig = (\<lambda>dsn. Inl \<lparr>pf_text = ''cannot parse `x`: invalid sslmode'', pf_config = True, pf_inner = None\<rparr>),
               px_open = (\<lambda>d a. True), px_stat = (\<lambda>p. True)\<rparr>"

definition demo_urls :: golib where
  "demo_urls = demo_lib\<lparr>gl_ParseURL := (\<lambda>s. Some \<lparr>ur_Scheme = ''postgres'', ur_Host = ''h'', ur_Hostname = ''h'', ur_Port = [], ur_Path = ''/db'',
     ur_EscapedPath = ''/db'', ur_RawQuery = [], ur_ForceQuery = False, ur_Fragment = [], ur_password = Some ''S3cret''\<rparr>)\<rparr>"

theorem dsn_error_hides_password_witness:
  "(\<exists>reason. checkPostgresDSN demo_urls demo_pgx ''postgres://u:S3cret@h/db'' = Some (DriverReason reason) \<and> \<not> sublist ''S3cret'' reason) \<and>
   checkPostgresDSN demo_urls demo_pgx ''postgres://u:12/cd@h/db'' = Some NotPostgresURL"
proof -
  have "url_dsn ''postgres://u:S3cret@h/db''" "url_dsn ''postgres://u:12/cd@h/db''" "strayAt ''postgres://u:12/cd@h/db''"
    "checkPostgresDSN demo_urls demo_pgx ''postgres://u:S3cret@h/db'' = Some (DriverReason ''invalid sslmode'')"
    by code_simp+
  then show ?thesis
    using dsn_error_hides_password [of "''postgres://u:S3cret@h/db''" demo_urls demo_pgx]
      dsn_error_hides_password [of "''postgres://u:12/cd@h/db''" demo_urls demo_pgx]
    by (auto simp: demo_urls_def)
qed

end
