(* ===== verification/Migrate.thy ===== *)
theory Migrate
  imports Storage_Dsn
begin

text \<open>
  \<^verbatim>\<open>internal/storage/migrate.go\<close> and \<^verbatim>\<open>check.go\<close>: bringing a database to the schema of this binary. A database is the ledger \<^verbatim>\<open>schema_migrations\<close>, if the table
  exists, and the rest of the schema, on which only the statements of the migrations act. An \<open>engine\<close> says what each call
  answers: \<open>en_exec\<close> executes one statement of a migration, the others are true when the call succeeds (\<open>en_find\<close> looks for the ledger). The embedded files are \<open>migration_files\<close>.
  Statements run in a transaction: a failed one leaves the database as it was.
\<close>

subsection \<open>Splitting a file into statements\<close>

definition fix_runes :: "string list \<Rightarrow> string" where
  "fix_runes rs = concat (map fix_rune rs)"

text \<open>
  The loop over the characters, with the two flags and the text collected; it gives the texts between the semicolons that
  split. A doubled quote within a literal is taken as one step.
\<close>

function split_chunks :: "bool \<Rightarrow> bool \<Rightarrow> string \<Rightarrow> string list \<Rightarrow> string list" where
  "split_chunks inLine inString cur [] = [cur]"
| "split_chunks inLine inString cur (c # rs) =
     (if inLine then split_chunks (c \<noteq> [CHR 0x0A]) inString (cur @ fix_rune c) rs
      else if inString then
        (if c = [CHR 0x27] then
           (if rs \<noteq> [] \<and> hd rs = [CHR 0x27] then split_chunks inLine True (cur @ fix_rune c @ fix_rune (hd rs)) (tl rs)
            else split_chunks inLine False (cur @ fix_rune c) rs)
         else split_chunks inLine True (cur @ fix_rune c) rs)
      else if c = ''-'' \<and> rs \<noteq> [] \<and> hd rs = ''-'' then split_chunks True inString (cur @ fix_rune c) rs
      else if c = [CHR 0x27] then split_chunks inLine True (cur @ fix_rune c) rs
      else if c = '';'' then cur # split_chunks inLine inString [] rs
      else split_chunks inLine inString (cur @ fix_rune c) rs)"
  by pat_completeness auto
termination by (relation "measure (\<lambda>(_, _, _, rs). length rs)") auto

declare split_chunks.simps(2) [simp del]

definition hasSQL :: "string \<Rightarrow> bool" where
  "hasSQL s = list_ex (\<lambda>l. let line = TrimSpace l in line \<noteq> [] \<and> \<not> HasPrefix line ''--'') (Split (CHR 0x0A) s)"

definition appendStatement :: "string list \<Rightarrow> string \<Rightarrow> string list" where
  "appendStatement out stmt =
     (let trimmed = TrimSpace stmt in if trimmed = [] \<or> \<not> hasSQL trimmed then out else out @ [trimmed])"

definition splitStatements :: "string \<Rightarrow> string list" where
  "splitStatements body = foldl appendStatement [] (split_chunks False False [] (runes body))"

subsection \<open>Applying migrations\<close>

record 's database =
  db_ledger :: "(string \<times> string) list option"
  db_schema :: 's

record 's engine =
  en_create :: bool
  en_find :: bool
  en_query :: bool
  en_begin :: "string \<Rightarrow> bool"
  en_exec :: "string \<Rightarrow> 's \<Rightarrow> 's option"
  en_insert :: "string \<Rightarrow> bool"
  en_commit :: "string \<Rightarrow> bool"
  en_now :: "string \<Rightarrow> string"

record migration_files =
  mf_dir :: "string \<Rightarrow> (string \<times> bool) list option"
  mf_read :: "string \<Rightarrow> string option"

datatype migrate_error =
    LedgerNotCreated
  | LedgerNotLookedFor
  | LedgerNotRead
  | MigrationsMissing string
  | NewerSchema "string list"
  | MigrationUnread string
  | MigrationFailed string

definition TrimSuffix :: "string \<Rightarrow> string \<Rightarrow> string" where
  "TrimSuffix s t = (if HasSuffix s t then take (length s - length t) s else s)"

definition version_of :: "string \<Rightarrow> string" where
  "version_of name = TrimSuffix name ''.sql''"

definition migrationNames :: "migration_files \<Rightarrow> dialect \<Rightarrow> migrate_error + string list" where
  "migrationNames mf d =
     (case mf_dir mf (''migrations/'' @ di_name d) of
        None \<Rightarrow> Inl (MigrationsMissing (''migrations/'' @ di_name d))
      | Some entries \<Rightarrow> Inr (sort (map fst (filter (\<lambda>(name, isDir). \<not> isDir \<and> HasSuffix name ''.sql'') entries))))"

definition refuseNewerSchema :: "string list \<Rightarrow> string list \<Rightarrow> migrate_error option" where
  "refuseNewerSchema applied names =
     (let unknown = filter (\<lambda>v. v \<notin> version_of ` set names) (remdups applied) in
      if unknown = [] then None else Some (NewerSchema (sort unknown)))"

definition ledger_versions :: "'s database \<Rightarrow> string list" where
  "ledger_versions db = (case db_ledger db of None \<Rightarrow> [] | Some rows \<Rightarrow> map fst rows)"

definition appliedVersions :: "'s engine \<Rightarrow> 's database \<Rightarrow> migrate_error + string list" where
  "appliedVersions en db = (if en_query en then Inr (ledger_versions db) else Inl LedgerNotRead)"

fun exec_all :: "'s engine \<Rightarrow> string list \<Rightarrow> 's \<Rightarrow> 's option" where
  "exec_all en [] s = Some s"
| "exec_all en (stmt # stmts) s = (case en_exec en stmt s of None \<Rightarrow> None | Some s' \<Rightarrow> exec_all en stmts s')"

text \<open>The version is the primary key of the ledger. \<open>None\<close> is a transaction that was rolled back.\<close>

definition applyMigration :: "'s engine \<Rightarrow> string \<Rightarrow> string \<Rightarrow> 's database \<Rightarrow> 's database option" where
  "applyMigration en version body db =
     (if \<not> en_begin en version then None
      else (case exec_all en (splitStatements body) (db_schema db) of
              None \<Rightarrow> None
            | Some s \<Rightarrow>
                if \<not> en_insert en version \<or> version \<in> set (ledger_versions db) \<or> \<not> en_commit en version then None
                else Some \<lparr>db_ledger = map_option (\<lambda>rows. rows @ [(version, en_now en version)]) (db_ledger db), db_schema = s\<rparr>))"

fun apply_pending :: "'s engine \<Rightarrow> migration_files \<Rightarrow> dialect \<Rightarrow> string list \<Rightarrow> string list \<Rightarrow> 's database \<Rightarrow> migrate_error option \<times> 's database" where
  "apply_pending en mf d applied [] db = (None, db)"
| "apply_pending en mf d applied (name # names) db =
     (let version = version_of name in
      if version \<in> set applied then apply_pending en mf d applied names db
      else (case mf_read mf (''migrations/'' @ di_name d @ ''/'' @ name) of
              None \<Rightarrow> (Some (MigrationUnread name), db)
            | Some body \<Rightarrow>
               (case applyMigration en version body db of
                  None \<Rightarrow> (Some (MigrationFailed name), db)
                | Some db' \<Rightarrow> apply_pending en mf d applied names db')))"

definition create_ledger :: "'s database \<Rightarrow> 's database" where
  "create_ledger db = db\<lparr>db_ledger := (case db_ledger db of None \<Rightarrow> Some [] | Some rows \<Rightarrow> Some rows)\<rparr>"

definition migrate :: "'s engine \<Rightarrow> migration_files \<Rightarrow> dialect \<Rightarrow> 's database \<Rightarrow> migrate_error option \<times> 's database" where
  "migrate en mf d db0 =
     (if \<not> en_create en then (Some LedgerNotCreated, db0)
      else
        let db = create_ledger db0 in
        (case appliedVersions en db of
           Inl e \<Rightarrow> (Some e, db)
         | Inr applied \<Rightarrow>
            (case migrationNames mf d of
               Inl e \<Rightarrow> (Some e, db)
             | Inr names \<Rightarrow>
                (case refuseNewerSchema applied names of
                   Some e \<Rightarrow> (Some e, db)
                 | None \<Rightarrow> apply_pending en mf d applied names db))))"

subsection \<open>Checking\<close>

definition checkSchemaVersion :: "'s engine \<Rightarrow> migration_files \<Rightarrow> dialect \<Rightarrow> 's database \<Rightarrow> migrate_error option" where
  "checkSchemaVersion en mf d db =
     (if \<not> en_find en then Some LedgerNotLookedFor
      else case db_ledger db of
        None \<Rightarrow> None
      | Some rows \<Rightarrow>
         (case appliedVersions en db of
            Inl e \<Rightarrow> Some e
          | Inr applied \<Rightarrow>
             (case migrationNames mf d of Inl e \<Rightarrow> Some e | Inr names \<Rightarrow> refuseNewerSchema applied names)))"

datatype check_error =
    FileTrouble file_error
  | OpenTrouble open_error
  | Unreachable ping_failure bool
  | SchemaTrouble migrate_error

text \<open>\<open>ping\<close> is the failure of the first contact; \<open>True\<close> with it stands for the hint about the password.\<close>

definition Check :: "golib \<Rightarrow> pgx \<Rightarrow> 's engine \<Rightarrow> migration_files \<Rightarrow> ping_failure option \<Rightarrow> string \<Rightarrow> string \<Rightarrow> 's database \<Rightarrow> check_error option" where
  "Check gl px en mf ping driver dsn db =
     (let opened = (if driver = ''sqlite'' then
                      (case sqliteFileExists (px_stat px) dsn of
                         Some e \<Rightarrow> Some (FileTrouble e)
                       | None \<Rightarrow> if px_open px ''sqlite'' (sqliteDSN dsn) then None else Some (OpenTrouble SQLOpenFailed))
                    else (case open_db gl px driver dsn of Inl e \<Rightarrow> Some (OpenTrouble e) | Inr _ \<Rightarrow> None)) in
      case opened of
        Some e \<Rightarrow> Some e
      | None \<Rightarrow>
         (case ping of
            Some err \<Rightarrow>
              (let (err', hint) = explainAuthFailure err (driver = ''postgres'' \<and> passwordLooksPercentEncoded px dsn) in Some (Unreachable err' hint))
          | None \<Rightarrow> map_option SchemaTrouble (checkSchemaVersion en mf \<lparr>di_name = driver\<rparr> db)))"

end
