(* ===== verification/Migrate_Properties.thy ===== *)
theory Migrate_Properties
  imports Migrate
begin

text \<open>
  What a migration run promises, whichever of its calls fail: the ledger and the schema move together, file by file, in the order of
  the names; a database of a newer version is left as it is; and the splitter of the files respects comments and literals.
\<close>

subsection \<open>One run\<close>

definition pending_files :: "string list \<Rightarrow> string list \<Rightarrow> string list" where
  "pending_files applied names = filter (\<lambda>n. version_of n \<notin> set applied) names"

definition file_body :: "migration_files \<Rightarrow> dialect \<Rightarrow> string \<Rightarrow> string option" where
  "file_body mf d name = mf_read mf (''migrations/'' @ di_name d @ ''/'' @ name)"

text \<open>The whole of the named files, one after the other.\<close>

fun run_files :: "'s engine \<Rightarrow> migration_files \<Rightarrow> dialect \<Rightarrow> string list \<Rightarrow> 's \<Rightarrow> 's option" where
  "run_files en mf d [] s = Some s"
| "run_files en mf d (name # names) s =
     (case file_body mf d name of
        None \<Rightarrow> None
      | Some body \<Rightarrow> (case exec_all en (splitStatements body) s of None \<Rightarrow> None | Some s' \<Rightarrow> run_files en mf d names s'))"

lemma TrimSuffix_inj:
  assumes "HasSuffix a t" "HasSuffix b t" "TrimSuffix a t = TrimSuffix b t"
  shows "a = b"
  using assms by (auto simp: TrimSuffix_def HasSuffix_iff suffix_def)

lemma migrationNames_sql: "migrationNames mf d = Inr names \<Longrightarrow> n \<in> set names \<Longrightarrow> HasSuffix n ''.sql''"
  by (auto simp: migrationNames_def split: option.splits)

text \<open>The names are those of the plain \<^verbatim>\<open>.sql\<close> entries of the directory of the dialect, in ascending order.\<close>

definition shipped_in_order :: "migration_files \<Rightarrow> dialect \<Rightarrow> string list \<Rightarrow> bool" where
  "shipped_in_order mf d names =
     (sorted names \<and>
      (\<exists>entries. mf_dir mf (''migrations/'' @ di_name d) = Some entries \<and> set names = {n. (n, False) \<in> set entries \<and> HasSuffix n ''.sql''}))"

lemma migrationNames_ordered: "migrationNames mf d = Inr names \<Longrightarrow> shipped_in_order mf d names"
  by (auto simp: migrationNames_def shipped_in_order_def image_iff split: option.splits)

lemma pending_in_order: "sorted names \<Longrightarrow> sorted (pending_files applied names)"
  by (simp add: pending_files_def sorted_wrt_filter)

lemma versions_inj:
  assumes "migrationNames mf d = Inr names"
  shows "inj_on version_of (set names)"
  using migrationNames_sql [OF assms] by (auto simp: inj_on_def version_of_def intro: TrimSuffix_inj)

lemma applyMigration_Some:
  assumes "applyMigration en version body db = Some db'"
  shows "exec_all en (splitStatements body) (db_schema db) = Some (db_schema db') \<and> version \<notin> set (ledger_versions db) \<and>
         (db_ledger db \<noteq> None \<longrightarrow> db_ledger db' \<noteq> None \<and> ledger_versions db' = ledger_versions db @ [version])"
  using assms by (auto simp: applyMigration_def ledger_versions_def split: if_splits option.splits)

lemma apply_pending_filter: "apply_pending en mf d applied names db = apply_pending en mf d applied (pending_files applied names) db"
  by (induction names arbitrary: db) (auto simp: pending_files_def Let_def split: option.splits)

text \<open>\<open>k\<close> files were applied, each whole and with its row; the failed one left no trace.\<close>

definition applied_files :: "'s engine \<Rightarrow> migration_files \<Rightarrow> dialect \<Rightarrow> string list \<Rightarrow> nat \<Rightarrow> 's database \<Rightarrow> 's database \<Rightarrow> bool" where
  "applied_files en mf d names k db db' =
     (k \<le> length names \<and> db_ledger db' \<noteq> None \<and> ledger_versions db' = ledger_versions db @ map version_of (take k names) \<and>
      run_files en mf d (take k names) (db_schema db) = Some (db_schema db'))"

definition stopped_at :: "string list \<Rightarrow> nat \<Rightarrow> migrate_error option \<Rightarrow> bool" where
  "stopped_at names k r = (if k = length names then r = None else r = Some (MigrationUnread (names ! k)) \<or> r = Some (MigrationFailed (names ! k)))"

lemma apply_pending_spec:
  assumes "apply_pending en mf d applied names db = (r, db')" "db_ledger db \<noteq> None" "\<forall>n \<in> set names. version_of n \<notin> set applied"
  shows "\<exists>k. applied_files en mf d names k db db' \<and> stopped_at names k r"
  using assms
proof (induction names arbitrary: db)
  case Nil
  then show ?case by (simp add: applied_files_def stopped_at_def)
next
  case (Cons name names)
  have pend: "version_of name \<notin> set applied" using Cons.prems(3) by simp
  show ?case
  proof (cases "file_body mf d name")
    case None
    then show ?thesis using Cons.prems pend
      by (intro exI [of _ 0]) (simp add: applied_files_def stopped_at_def file_body_def)
  next
    case (Some body)
    show ?thesis
    proof (cases "applyMigration en (version_of name) body db")
      case None
      then show ?thesis using Cons.prems pend Some
        by (intro exI [of _ 0]) (simp add: applied_files_def stopped_at_def file_body_def)
    next
      case (Some db1)
      note step = applyMigration_Some [OF Some]
      have "apply_pending en mf d applied names db1 = (r, db')"
        using Cons.prems(1) pend Some \<open>file_body mf d name = Some body\<close> by (simp add: file_body_def)
      then obtain k where "applied_files en mf d names k db1 db'" "stopped_at names k r"
        using Cons.IH [of db1] Cons.prems(2,3) step by auto
      then show ?thesis using step \<open>file_body mf d name = Some body\<close> Cons.prems(2)
        by (intro exI [of _ "Suc k"]) (simp add: applied_files_def stopped_at_def)
    qed
  qed
qed

lemma create_ledger_simps [simp]:
  "db_ledger (create_ledger db) \<noteq> None" "ledger_versions (create_ledger db) = ledger_versions db" "db_schema (create_ledger db) = db_schema db"
  by (auto simp: create_ledger_def ledger_versions_def split: option.split)

lemma create_ledger_id: "db_ledger db \<noteq> None \<Longrightarrow> create_ledger db = db"
  by (cases db) (auto simp: create_ledger_def)

lemma refuseNewerSchema_None: "refuseNewerSchema applied names = None \<longleftrightarrow> set applied \<subseteq> version_of ` set names"
  by (auto simp: refuseNewerSchema_def Let_def filter_empty_conv)

lemma migrate_unfold:
  assumes "migrationNames mf d = Inr names" "set (ledger_versions db) \<subseteq> version_of ` set names" "en_create en" "en_query en"
  shows "migrate en mf d db = apply_pending en mf d (ledger_versions db) (pending_files (ledger_versions db) names) (create_ledger db)"
proof -
  have "refuseNewerSchema (ledger_versions db) names = None" using assms(2) by (simp add: refuseNewerSchema_None)
  then have "migrate en mf d db = apply_pending en mf d (ledger_versions db) names (create_ledger db)"
    using assms(1,3,4) by (simp add: migrate_def appliedVersions_def Let_def)
  then show ?thesis by (simp only: apply_pending_filter [of en mf d "ledger_versions db" names])
qed

lemma nothing_pending: "version_of ` set names \<subseteq> set applied \<Longrightarrow> pending_files applied names = []"
  by (auto simp: pending_files_def filter_empty_conv)

lemma migrate_up_to_date:
  assumes "migrationNames mf d = Inr names" "set (ledger_versions db) = version_of ` set names" "db_ledger db \<noteq> None" "en_create en" "en_query en"
  shows "migrate en mf d db = (None, db)"
  using assms by (simp add: migrate_unfold nothing_pending create_ledger_id)

text \<open>After a success every shipped migration is recorded.\<close>

lemma migrate_complete:
  assumes "migrate en mf d db = (None, db')" "migrationNames mf d = Inr names"
  shows "version_of ` set names \<subseteq> set (ledger_versions db')"
proof -
  let ?todo = "pending_files (ledger_versions db) names"
  have en: "en_create en" "en_query en" "refuseNewerSchema (ledger_versions db) names = None"
    using assms by (auto simp: migrate_def appliedVersions_def Let_def split: if_splits option.splits)
  then have "apply_pending en mf d (ledger_versions db) ?todo (create_ledger db) = (None, db')"
    using assms migrate_unfold [OF assms(2) _ en(1,2), of db] by (simp add: refuseNewerSchema_None)
  moreover have "\<forall>n \<in> set ?todo. version_of n \<notin> set (ledger_versions db)" by (simp add: pending_files_def)
  ultimately obtain k where "applied_files en mf d ?todo k (create_ledger db) db'" "stopped_at ?todo k None"
    using apply_pending_spec [OF _ create_ledger_simps(1)] by blast
  then have "set (ledger_versions db') = set (ledger_versions db) \<union> version_of ` set ?todo"
    by (auto simp: applied_files_def stopped_at_def split: if_splits)
  then show ?thesis by (auto simp: pending_files_def)
qed

text \<open>
  C33: an upgrade stops between two migrations, never within one. Whichever calls fail, a run over a database whose ledger
  is known applies the files of the directory that are not recorded in ascending order of their names, the first \<open>k\<close> of them, each with all its
  statements and recorded in the same transaction; an error is about the next one; success means that all are recorded, once each if they were, and
  then a further run changes nothing.
\<close>

theorem migrate_applies_in_order:
  assumes "migrationNames mf d = Inr names" "set (ledger_versions db) \<subseteq> version_of ` set names" "distinct names" "distinct (ledger_versions db)"
    and "migrate en mf d db = (r, db')"
  shows "shipped_in_order mf d names \<and>
         (\<exists>k. let todo = pending_files (ledger_versions db) names in
           sorted todo \<and> k \<le> length todo \<and> ledger_versions db' = ledger_versions db @ map version_of (take k todo) \<and> distinct (ledger_versions db') \<and>
           run_files en mf d (take k todo) (db_schema db) = Some (db_schema db') \<and>
           (r = None \<longrightarrow> k = length todo \<and> set (ledger_versions db') = version_of ` set names \<and>
              (\<forall>en2. en_create en2 \<and> en_query en2 \<longrightarrow> migrate en2 mf d db' = (None, db'))) \<and>
           (\<forall>n. r = Some (MigrationUnread n) \<or> r = Some (MigrationFailed n) \<longrightarrow> k < length todo \<and> n = todo ! k))"
proof -
  have ord: "shipped_in_order mf d names" by (rule migrationNames_ordered [OF assms(1)])
  then have srt: "sorted (pending_files (ledger_versions db) names)" by (simp add: shipped_in_order_def pending_in_order)
  let ?todo = "pending_files (ledger_versions db) names"
  have todo: "version_of ` set ?todo = version_of ` set names - set (ledger_versions db)" "distinct (map version_of ?todo)"
    using versions_inj [OF assms(1)] assms(3) by (auto simp: pending_files_def distinct_map intro: inj_on_subset)
  have dist: "distinct (ledger_versions db @ map version_of (take k ?todo))" for k
  proof -
    have "distinct (map version_of (take k ?todo))" using distinct_take [OF todo(2), of k] by (simp add: take_map)
    moreover have "version_of ` set (take k ?todo) \<subseteq> version_of ` set ?todo" by (auto dest: in_set_takeD)
    ultimately show ?thesis using assms(4) todo(1) by auto
  qed
  show ?thesis
  proof (cases "en_create en \<and> en_query en")
    case False
    then have "ledger_versions db' = ledger_versions db \<and> db_schema db' = db_schema db \<and> (r = Some LedgerNotCreated \<or> r = Some LedgerNotRead)"
      using assms(5) by (auto simp: migrate_def appliedVersions_def Let_def split: if_splits)
    then show ?thesis using assms(4) ord srt by (intro conjI exI [of _ 0]) (auto simp: Let_def)
  next
    case True
    then have run: "apply_pending en mf d (ledger_versions db) ?todo (create_ledger db) = (r, db')"
      using migrate_unfold [OF assms(1,2)] assms(5) by simp
    have "\<forall>n \<in> set ?todo. version_of n \<notin> set (ledger_versions db)" by (simp add: pending_files_def)
    from apply_pending_spec [OF run create_ledger_simps(1) this]
    obtain k where k: "applied_files en mf d ?todo k (create_ledger db) db'" "stopped_at ?todo k r" by blast
    have all: "set (ledger_versions db') = version_of ` set names" if "k = length ?todo"
      using k(1) that todo(1) assms(2) by (auto simp: applied_files_def)
    have "migrate en2 mf d db' = (None, db')" if "k = length ?todo" "en_create en2" "en_query en2" for en2 :: "'a engine"
      using migrate_up_to_date [OF assms(1) all [OF that(1)] _ that(2,3)] k(1) by (simp add: applied_files_def)
    moreover have "r = None \<longleftrightarrow> k = length ?todo" using k(2) by (auto simp: stopped_at_def split: if_splits)
    moreover have "\<forall>n. r = Some (MigrationUnread n) \<or> r = Some (MigrationFailed n) \<longrightarrow> k < length ?todo \<and> n = ?todo ! k"
      using k by (auto simp: applied_files_def stopped_at_def split: if_splits)
    moreover have "k \<le> length ?todo" "ledger_versions db' = ledger_versions db @ map version_of (take k ?todo)"
      "run_files en mf d (take k ?todo) (db_schema db) = Some (db_schema db')" using k(1) by (simp_all add: applied_files_def)
    ultimately show ?thesis using dist [of k] all ord srt by (intro conjI exI [of _ k]) (simp_all add: Let_def)
  qed
qed

text \<open>
  C34: a binary never writes to a database of a newer one. If the ledger has a version that the binary does not ship, a start fails
  with the list of all such versions and changes nothing, and the preflight check reports the same list; the check
  refuses for that reason only.
\<close>

theorem newer_schema_refused:
  fixes db :: "'s database"
  assumes "migrationNames mf d = Inr names" "v \<in> set (ledger_versions db) - version_of ` set names" "en_create en" "en_query en"
  shows "\<exists>vs. set vs = set (ledger_versions db) - version_of ` set names \<and> sorted vs \<and> distinct vs \<and> migrate en mf d db = (Some (NewerSchema vs), db) \<and>
           (\<forall>en2. en_find en2 \<and> en_query en2 \<longrightarrow> checkSchemaVersion en2 mf d db = Some (NewerSchema vs)) \<and>
           (\<forall>en2 (db2 :: 's database). en_find en2 \<and> en_query en2 \<longrightarrow>
              (checkSchemaVersion en2 mf d db2 = None \<longleftrightarrow> set (ledger_versions db2) \<subseteq> version_of ` set names))"
proof -
  let ?vs = "sort (filter (\<lambda>v. v \<notin> version_of ` set names) (remdups (ledger_versions db)))"
  have ne: "refuseNewerSchema (ledger_versions db) names = Some (NewerSchema ?vs)"
    using assms(2) by (auto simp: refuseNewerSchema_def Let_def filter_empty_conv)
  obtain rows where rows: "db_ledger db = Some rows" using assms(2) by (cases "db_ledger db") (auto simp: ledger_versions_def)
  have m: "migrate en mf d db = (Some (NewerSchema ?vs), db)"
    using assms(1,3,4) ne rows by (simp add: migrate_def appliedVersions_def create_ledger_id Let_def)
  have c: "checkSchemaVersion en2 mf d db = Some (NewerSchema ?vs)" if "en_find en2 \<and> en_query en2" for en2 :: "'s engine"
    using that assms(1) ne rows by (simp add: checkSchemaVersion_def appliedVersions_def)
  have "(checkSchemaVersion en2 mf d db2 = None) = (set (ledger_versions db2) \<subseteq> version_of ` set names)"
    if "en_find en2 \<and> en_query en2" for en2 and db2 :: "'s database"
    using that assms(1) by (cases "db_ledger db2") (simp_all add: checkSchemaVersion_def appliedVersions_def ledger_versions_def refuseNewerSchema_None)
  then show ?thesis using m c by (intro exI [of _ ?vs]) auto
qed

subsection \<open>Statements\<close>

text \<open>
  What a migration file is written in: characters, semicolons, comments up to the end of their line, and literals with the characters
  they stand for.
\<close>

datatype sql_token = Plain string | Semicolon | Comment "string list" | Literal "string list"

definition quote_rune :: string where "quote_rune = [CHR 0x27]"
definition newline_rune :: string where "newline_rune = [CHR 0x0A]"

definition quoted :: "string list \<Rightarrow> string list" where
  "quoted rs = concat (map (\<lambda>r. if r = quote_rune then [quote_rune, quote_rune] else [r]) rs)"

fun token_runes :: "sql_token \<Rightarrow> string list" where
  "token_runes (Plain r) = [r]"
| "token_runes Semicolon = ['';'']"
| "token_runes (Comment rs) = ''-'' # ''-'' # rs @ [newline_rune]"
| "token_runes (Literal rs) = quote_rune # quoted rs @ [quote_rune]"

fun token_ok :: "sql_token \<Rightarrow> bool" where
  "token_ok (Plain r) = (whole_rune r \<and> r \<noteq> quote_rune \<and> r \<noteq> '';'')"
| "token_ok Semicolon = True"
| "token_ok (Comment rs) = list_all (\<lambda>r. whole_rune r \<and> r \<noteq> newline_rune) rs"
| "token_ok (Literal rs) = list_all whole_rune rs"

text \<open>A minus does not begin a comment, and a literal is not followed by another, which would be one with a quote in it.\<close>

fun may_follow :: "sql_token \<Rightarrow> sql_token \<Rightarrow> bool" where
  "may_follow (Plain r) t = (r = ''-'' \<longrightarrow> hd (token_runes t) \<noteq> ''-'')"
| "may_follow (Literal rs) t = (hd (token_runes t) \<noteq> quote_rune)"
| "may_follow _ t = True"

fun sql_text :: "sql_token list \<Rightarrow> bool" where
  "sql_text [] = True"
| "sql_text (t # ts) = (token_ok t \<and> (ts = [] \<or> may_follow t (hd ts)) \<and> sql_text ts)"

definition text_of :: "sql_token list \<Rightarrow> string" where
  "text_of ts = concat (concat (map token_runes ts))"

fun statement_texts :: "string \<Rightarrow> sql_token list \<Rightarrow> string list" where
  "statement_texts cur [] = [cur]"
| "statement_texts cur (t # ts) =
     (if t = Semicolon then cur # statement_texts [] ts else statement_texts (cur @ concat (token_runes t)) ts)"

lemma fix_whole: "whole_rune r \<Longrightarrow> fix_rune r = r"
  by (cases r rule: list.exhaust; cases "tl r") (auto simp: whole_rune_def rune_valid_def lead_size_def fix_rune_def split: if_splits)

lemma plain_runes: "whole_rune quote_rune" "whole_rune newline_rune" "whole_rune ''-''" "whole_rune '';''"
  by code_simp+

lemma quoted_simps [simp]: "quoted [] = []" "quoted (r # rs) = (if r = quote_rune then quote_rune # quote_rune # quoted rs else r # quoted rs)"
  by (simp_all add: quoted_def)

lemma split_comment:
  "list_all (\<lambda>r. whole_rune r \<and> r \<noteq> newline_rune) cs \<Longrightarrow>
   split_chunks True False cur (cs @ newline_rune # rs) = split_chunks False False (cur @ concat cs @ newline_rune) rs"
  by (induction cs arbitrary: cur) (simp_all add: split_chunks.simps(2) newline_rune_def fix_whole fix_whole [OF plain_runes(2) [unfolded newline_rune_def]])

lemma split_literal:
  assumes "list_all whole_rune cs" "rs = [] \<or> hd rs \<noteq> quote_rune"
  shows "split_chunks False True cur (quoted cs @ quote_rune # rs) = split_chunks False False (cur @ concat (quoted cs) @ quote_rune) rs"
  using assms(1)
proof (induction cs arbitrary: cur)
  case Nil
  then show ?case using assms(2) fix_whole [OF plain_runes(1)] by (auto simp: split_chunks.simps(2) quote_rune_def)
next
  case (Cons c cs)
  then show ?case using fix_whole [OF plain_runes(1)] fix_whole [of c]
    by (cases "c = quote_rune") (auto simp: split_chunks.simps(2) quote_rune_def)
qed

lemma split_plain:
  assumes "whole_rune r" "r \<noteq> quote_rune" "r \<noteq> '';''" "r = ''-'' \<longrightarrow> rs = [] \<or> hd rs \<noteq> ''-''"
  shows "split_chunks False False cur (r # rs) = split_chunks False False (cur @ r) rs"
  using assms by (auto simp: split_chunks.simps(2) fix_whole quote_rune_def)

lemma token_nonempty: "token_runes t \<noteq> []"
  by (cases t) simp_all

lemma hd_text: "ts \<noteq> [] \<Longrightarrow> hd (concat (map token_runes ts)) = hd (token_runes (hd ts)) \<and> concat (map token_runes ts) \<noteq> []"
  using token_nonempty by (cases ts) (auto simp: hd_append)

lemma split_tokens:
  "sql_text ts \<Longrightarrow> split_chunks False False cur (concat (map token_runes ts)) = statement_texts cur ts"
proof (induction ts arbitrary: cur)
  case (Cons t ts)
  let ?rest = "concat (map token_runes ts)"
  have rest: "?rest = [] \<or> (ts \<noteq> [] \<and> hd ?rest = hd (token_runes (hd ts)))" using hd_text by (cases "ts = []") auto
  have follow: "ts \<noteq> [] \<Longrightarrow> may_follow t (hd ts)" using Cons.prems by auto
  show ?case
  proof (cases t)
    case (Plain r)
    then show ?thesis using Cons rest follow by (auto simp: split_plain)
  next
    case Semicolon
    then show ?thesis using Cons by (simp add: split_chunks.simps(2))
  next
    case (Comment cs)
    have start: "split_chunks False False cur (''-'' # ''-'' # rs) = split_chunks True False (cur @ ''--'') rs" for rs
      using fix_whole [OF plain_runes(3)] by (simp add: split_chunks.simps(2))
    show ?thesis using Cons Comment by (simp add: start split_comment)
  next
    case (Literal cs)
    have start: "split_chunks False False cur (quote_rune # rs) = split_chunks False True (cur @ quote_rune) rs" for rs
      using fix_whole [OF plain_runes(1)] by (simp add: split_chunks.simps(2) quote_rune_def)
    have "?rest = [] \<or> hd ?rest \<noteq> quote_rune" using rest follow Literal by auto
    then show ?thesis using Cons Literal by (simp add: start split_literal)
  qed
qed simp

lemma token_whole: "token_ok t \<Longrightarrow> list_all whole_rune (token_runes t)"
proof (cases t)
  case (Literal rs)
  then show "token_ok t \<Longrightarrow> ?thesis" using plain_runes by (induction rs arbitrary: t) auto
qed (use plain_runes in \<open>auto simp: list_all_iff\<close>)

lemma text_whole: "sql_text ts \<Longrightarrow> list_all whole_rune (concat (map token_runes ts))"
  by (induction ts) (auto simp: token_whole)

lemma foldl_appendStatement:
  "foldl appendStatement out ss = out @ filter (\<lambda>s. s \<noteq> [] \<and> hasSQL s) (map TrimSpace ss)"
  by (induction ss arbitrary: out) (auto simp: appendStatement_def Let_def)

text \<open>
  C35: a migration is cut at the semicolons of the SQL and nowhere else. For every text made of characters, semicolons, comments
  and literals, whatever stands in the comments and literals, the statements are the texts between the semicolon tokens with the space around them removed,
  in order, less those without SQL.
\<close>

theorem statements_of_tokens:
  assumes "sql_text ts"
  shows "splitStatements (text_of ts) = filter (\<lambda>s. s \<noteq> [] \<and> hasSQL s) (map TrimSpace (statement_texts [] ts))"
  using assms by (simp add: splitStatements_def text_of_def runes_concat text_whole split_tokens foldl_appendStatement)

subsection \<open>Instances\<close>

text \<open>A schema is the list of the statements executed; one statement is refused.\<close>

definition demo_engine :: "string list engine" where
  "demo_engine = \<lparr>en_create = True, en_find = True, en_query = True, en_begin = \<lambda>_. True, en_exec = \<lambda>stmt s. if stmt = ''BAD'' then None else Some (s @ [stmt]),
     en_insert = \<lambda>_. True, en_commit = \<lambda>_. True, en_now = \<lambda>_. ''2026''\<rparr>"

definition demo_files :: migration_files where
  "demo_files = \<lparr>mf_dir = \<lambda>_. Some [(''1.sql'', False), (''2.sql'', False), (''3.sql'', False), (''README'', False)],
     mf_read = \<lambda>p. Some (if HasSuffix p ''2.sql'' then ''A; B'' else ''BAD'')\<rparr>"

definition demo_sqlite :: dialect where "demo_sqlite = \<lparr>di_name = ''sqlite''\<rparr>"

definition demo_database :: "string list database" where
  "demo_database = \<lparr>db_ledger = Some [(''1'', ''2025'')], db_schema = [''X'']\<rparr>"

definition demo_upgraded :: "string list database" where
  "demo_upgraded = \<lparr>db_ledger = Some [(''1'', ''2025''), (''2'', ''2026'')], db_schema = [''X'', ''A'', ''B'']\<rparr>"

lemma demo_names: "migrationNames demo_files demo_sqlite = Inr [''1.sql'', ''2.sql'', ''3.sql'']"
proof -
  have "map fst (filter (\<lambda>(name, isDir). \<not> isDir \<and> HasSuffix name ''.sql'')
          [(''1.sql'', False), (''2.sql'', False), (''3.sql'', False), (''README'', False)]) = [''1.sql'', ''2.sql'', ''3.sql'']" by code_simp
  then show ?thesis by (simp add: migrationNames_def demo_files_def less_list_code less_eq_char_def)
qed

lemma demo_migrate: "migrate demo_engine demo_files demo_sqlite demo_database = (Some (MigrationFailed ''3.sql''), demo_upgraded)"
proof -
  have "apply_pending demo_engine demo_files demo_sqlite [''1''] [''1.sql'', ''2.sql'', ''3.sql''] demo_database = (Some (MigrationFailed ''3.sql''), demo_upgraded)"
    by code_simp
  moreover have "refuseNewerSchema [''1''] [''1.sql'', ''2.sql'', ''3.sql''] = None" unfolding refuseNewerSchema_None by code_simp
  ultimately show ?thesis
    by (simp add: migrate_def demo_names appliedVersions_def create_ledger_id demo_database_def ledger_versions_def demo_engine_def)
qed

lemma demo_versions:
  "ledger_versions demo_database = [''1'']" "map version_of [''1.sql'', ''2.sql'', ''3.sql''] = [''1'', ''2'', ''3'']"
  "pending_files [''1''] [''1.sql'', ''2.sql'', ''3.sql''] = [''2.sql'', ''3.sql'']"
  by code_simp+

theorem migrate_applies_in_order_witness:
  "\<exists>k < 2. ledger_versions demo_upgraded = ''1'' # map version_of (take k [''2.sql'', ''3.sql'']) \<and>
           run_files demo_engine demo_files demo_sqlite (take k [''2.sql'', ''3.sql'']) [''X''] = Some [''X'', ''A'', ''B'']"
proof -
  have v: "set (ledger_versions demo_database) \<subseteq> version_of ` set [''1.sql'', ''2.sql'', ''3.sql'']"
    unfolding demo_versions(1) by code_simp
  from migrate_applies_in_order [OF demo_names v _ _ demo_migrate]
  show ?thesis by (auto simp: demo_versions(1,3) Let_def) (auto simp: demo_database_def demo_upgraded_def)
qed

theorem newer_schema_refused_witness:
  "\<exists>vs. set vs = {''9''} \<and> migrate demo_engine demo_files demo_sqlite (demo_database\<lparr>db_ledger := Some [(''9'', [])]\<rparr>) =
           (Some (NewerSchema vs), demo_database\<lparr>db_ledger := Some [(''9'', [])]\<rparr>)"
proof -
  let ?db = "demo_database\<lparr>db_ledger := Some [(''9'', [])]\<rparr>"
  have v: "ledger_versions ?db = [''9'']" by (simp add: ledger_versions_def)
  have n: "version_of ` set [''1.sql'', ''2.sql'', ''3.sql''] = {''1'', ''2'', ''3''}" using demo_versions(2) by simp
  have "''9'' \<in> set (ledger_versions ?db) - version_of ` set [''1.sql'', ''2.sql'', ''3.sql'']" unfolding n v by simp
  moreover have "en_create demo_engine" "en_query demo_engine" by (simp_all add: demo_engine_def)
  ultimately show ?thesis using newer_schema_refused [OF demo_names, of "''9''" ?db demo_engine] unfolding n v by auto
qed

definition demo_sql :: "sql_token list" where
  "demo_sql = [Plain ''A'', Comment [''a'', '';'', quote_rune], Plain ''-'', Literal ['';'', quote_rune, ''-'', ''-''], Semicolon, Comment [], Plain ''B'']"

theorem statements_of_tokens_witness:
  "splitStatements (text_of demo_sql) = [''A--a;'' @ [CHR 0x27, CHR 0x0A] @ ''-'' @ [CHR 0x27] @ '';'' @ [CHR 0x27, CHR 0x27] @ ''--'' @ [CHR 0x27], ''--'' @ [CHR 0x0A] @ ''B'']"
proof -
  have "sql_text demo_sql" by code_simp
  moreover have "filter (\<lambda>s. s \<noteq> [] \<and> hasSQL s) (map TrimSpace (statement_texts [] demo_sql)) =
    [''A--a;'' @ [CHR 0x27, CHR 0x0A] @ ''-'' @ [CHR 0x27] @ '';'' @ [CHR 0x27, CHR 0x27] @ ''--'' @ [CHR 0x27], ''--'' @ [CHR 0x0A] @ ''B'']" by code_simp
  ultimately show ?thesis using statements_of_tokens [of demo_sql] by simp
qed

end
