(* ===== verification/Go_Host.thy ===== *)
theory Go_Host
  imports Go_Query
begin

text \<open>
  What a command takes from its host, of Go's library: the command line (\<^verbatim>\<open>flag\<close>), paths (\<^verbatim>\<open>path/filepath\<close> on Unix), and the calls of \<^verbatim>\<open>os\<close> on files
  that the log file needs. A file system is a map from clean paths to nodes, without links; a directory is writable or not,
  and so is a file, which has a content.
\<close>

subsection \<open>Command lines\<close>

datatype flag_kind = BoolFlag | TextFlag

datatype flag_error = BadSyntax string | NotDefined string | HelpAsked | NeedsArgument string | InvalidBoolean string

definition ParseBool :: "string \<Rightarrow> bool option" where
  "ParseBool s =
     (if s \<in> {''1'', ''t'', ''T'', ''TRUE'', ''true'', ''True''} then Some True
      else if s \<in> {''0'', ''f'', ''F'', ''FALSE'', ''false'', ''False''} then Some False else None)"

definition flag_name :: "string \<Rightarrow> string" where
  "flag_name a = (if HasPrefix a ''--'' then drop 2 a else tl a)"

text \<open>The flags set, with their texts, and the arguments that are left.\<close>

fun flag_parse :: "(string \<rightharpoonup> flag_kind) \<Rightarrow> (string \<rightharpoonup> string) \<Rightarrow> string list \<Rightarrow> flag_error + (string \<rightharpoonup> string) \<times> string list" where
  "flag_parse kinds seen [] = Inr (seen, [])"
| "flag_parse kinds seen (a # args) =
     (if length a < 2 \<or> hd a \<noteq> CHR ''-'' then Inr (seen, a # args)
      else if a = ''--'' then Inr (seen, args)
      else if flag_name a = [] \<or> hd (flag_name a) \<in> {CHR ''-'', CHR ''=''} then Inl (BadSyntax a)
      else
        (case Cut (flag_name a) (CHR ''='') of
           (name, value, hasValue) \<Rightarrow>
             (case kinds name of
                None \<Rightarrow> Inl (if name = ''help'' \<or> name = ''h'' then HelpAsked else NotDefined name)
              | Some BoolFlag \<Rightarrow>
                 (case (if hasValue then ParseBool value else Some True) of
                    None \<Rightarrow> Inl (InvalidBoolean name)
                  | Some b \<Rightarrow> flag_parse kinds (seen(name \<mapsto> (if b then ''true'' else ''false''))) args)
              | Some TextFlag \<Rightarrow>
                  if hasValue then flag_parse kinds (seen(name \<mapsto> value)) args
                  else (case args of [] \<Rightarrow> Inl (NeedsArgument name) | v # rest \<Rightarrow> flag_parse kinds (seen(name \<mapsto> v)) rest))))"

text \<open>The first argument that is no flag ends the flags: what follows it is not read.\<close>

lemma flag_parse_stop: "length a < 2 \<or> hd a \<noteq> CHR ''-'' \<Longrightarrow> flag_parse kinds seen (a # args) = Inr (seen, a # args)"
  by simp

declare flag_parse.simps(2) [simp del]

subsection \<open>Paths\<close>

definition clean_step :: "bool \<Rightarrow> string list \<Rightarrow> string \<Rightarrow> string list" where
  "clean_step rooted stack c =
     (if c = [] \<or> c = ''.'' then stack
      else if c = ''..'' then
        (if stack \<noteq> [] \<and> last stack \<noteq> ''..'' then butlast stack else if rooted then stack else stack @ [c])
      else stack @ [c])"

definition clean_stack :: "string \<Rightarrow> string list" where
  "clean_stack p = foldl (clean_step (hd p = CHR ''/'')) [] (Split (CHR ''/'') p)"

definition path_Clean :: "string \<Rightarrow> string" where
  "path_Clean p =
     (if p = [] then ''.''
      else let out = Join (clean_stack p) ''/'' in
        if hd p = CHR ''/'' then CHR ''/'' # out else if out = [] then ''.'' else out)"

definition up_to_slash :: "string \<Rightarrow> string" where
  "up_to_slash p = rev (dropWhile (\<lambda>c. c \<noteq> CHR ''/'') (rev p))"

definition path_Dir :: "string \<Rightarrow> string" where
  "path_Dir p = path_Clean (up_to_slash p)"

text \<open>The length of the components, with a slash each.\<close>

definition span :: "string list \<Rightarrow> nat" where
  "span cs = sum_list (map (\<lambda>c. length c + 1) cs)"

lemma span_simps [simp]: "span [] = 0" "span (c # cs) = length c + 1 + span cs" "span (cs @ ds) = span cs + span ds"
  by (simp_all add: span_def)

lemma span_butlast: "span (butlast cs) \<le> span cs"
  by (induction cs) auto

lemma span_Split: "span (Split c p) = length p + 1"
proof (induction p)
  case (Cons x p)
  then show ?case by (cases "Split c p") auto
qed simp

lemma length_Join: "ss \<noteq> [] \<Longrightarrow> length (Join ss ''/'') + 1 = span ss"
  by (induction ss "''/''" rule: Join.induct) auto

lemma span_clean_step: "span (clean_step r stack c) \<le> span stack + (if c = [] then 0 else length c + 1)"
  using span_butlast [of stack] by (auto simp: clean_step_def intro: le_trans)

lemma span_clean: "span (foldl (clean_step r) stack cs) \<le> span stack + span (filter (\<lambda>c. c \<noteq> []) cs)"
proof (induction cs arbitrary: stack)
  case (Cons c cs)
  have "span (foldl (clean_step r) stack (c # cs)) \<le> span (clean_step r stack c) + span (filter (\<lambda>c. c \<noteq> []) cs)" using Cons.IH by simp
  also have "\<dots> \<le> span stack + span (filter (\<lambda>c. c \<noteq> []) (c # cs))" using span_clean_step [of r stack c] by (cases "c = []") simp_all
  finally show ?case .
qed simp

lemma Split_slash_end: "Split c (p @ [c]) = Split c p @ [[]]"
  using Split_append_sep [of c p "[]"] by simp

text \<open>A directory's text, which ends in a slash, becomes shorter, the root apart.\<close>

lemma path_Clean_slash:
  assumes "p @ ''/'' \<noteq> ''/''"
  shows "length (path_Clean (p @ ''/'')) < length (p @ ''/'')" "path_Clean (p @ ''/'') \<noteq> []"
proof -
  let ?d = "p @ ''/''" and ?s = "clean_stack (p @ ''/'')"
  obtain x p' where p: "p = x # p'" using assms by (cases p) auto
  have cs: "Split (CHR ''/'') ?d = Split (CHR ''/'') p @ [[]]" using Split_slash_end by simp
  have n: "span (filter (\<lambda>c. c \<noteq> []) (Split (CHR ''/'') p)) \<le> length p + 1 - (if x = CHR ''/'' then 1 else 0)"
  proof (cases "x = CHR ''/''")
    case True
    have "span (filter f cs) \<le> span cs" for f cs by (induction cs) auto
    from this [of "\<lambda>c. c \<noteq> []" "Split (CHR ''/'') p'"] show ?thesis using True span_Split [of "CHR ''/''" p'] by (simp add: p)
  next
    case False
    have "span (filter f cs) \<le> span cs" for f cs by (induction cs) auto
    from this [of "\<lambda>c. c \<noteq> []" "Split (CHR ''/'') p"] show ?thesis using False span_Split [of "CHR ''/''" p] by simp
  qed
  have "span ?s \<le> span (filter (\<lambda>c. c \<noteq> []) (Split (CHR ''/'') ?d))"
    using span_clean [of "hd ?d = CHR ''/''" "[]" "Split (CHR ''/'') ?d"] by (simp add: clean_stack_def)
  with n have s: "span ?s \<le> length p + 1 - (if x = CHR ''/'' then 1 else 0)" by (simp only: cs filter_append) simp
  have j: "length (Join ?s ''/'') = span ?s - 1" using length_Join [of ?s] by (cases "?s = []") simp_all
  have h: "hd ?d = x" by (simp add: p)
  show "length (path_Clean ?d) < length ?d" "path_Clean ?d \<noteq> []"
    using s j by (auto simp: path_Clean_def Let_def h p)
qed

lemma up_to_slash_cases:
  obtains "CHR ''/'' \<notin> set p" "path_Dir p = ''.''"
  | q r where "p = q @ CHR ''/'' # r" "CHR ''/'' \<notin> set r" "path_Dir p = path_Clean (q @ ''/'')"
proof (cases "CHR ''/'' \<in> set p")
  case False
  then have "dropWhile (\<lambda>c. c \<noteq> CHR ''/'') (rev p) = []" by auto
  with False that(1) show ?thesis by (simp add: path_Dir_def up_to_slash_def path_Clean_def)
next
  case True
  then obtain q r where p: "p = q @ CHR ''/'' # r" "CHR ''/'' \<notin> set r" using split_list_last by metis
  then have "dropWhile (\<lambda>c. c \<noteq> CHR ''/'') (rev r @ CHR ''/'' # rev q) = CHR ''/'' # rev q"
    by (subst dropWhile_append2) auto
  with p that(2) show ?thesis by (simp add: path_Dir_def up_to_slash_def)
qed

definition path_size :: "string \<Rightarrow> nat" where
  "path_size d = (if d = [] then 3 else 2 * length d + (if d = ''.'' then 0 else 1))"

lemma path_root [simp]: "path_Clean ''/'' = ''/''" "path_Dir ''/'' = ''/''" "path_Dir ''.'' = ''.''"
  by code_simp+

lemma path_Dir_less:
  assumes "path_Dir d \<noteq> d"
  shows "path_size (path_Dir d) < path_size d"
proof (cases d rule: up_to_slash_cases)
  case 1
  with assms show ?thesis by (cases d) (auto simp: path_size_def)
next
  case (2 q r)
  show ?thesis
  proof (cases "q @ ''/'' = ''/''")
    case True
    with 2 assms show ?thesis by (cases r) (auto simp: path_size_def)
  next
    case False
    from path_Clean_slash [OF this] 2 show ?thesis by (auto simp: path_size_def)
  qed
qed

text \<open>Only the root and the current directory are their own parents.\<close>

lemma path_Dir_fixed: "path_Dir d = d \<Longrightarrow> d = ''.'' \<or> d = ''/''"
proof (cases d rule: up_to_slash_cases)
  case (2 q r)
  assume fixed: "path_Dir d = d"
  show ?thesis
  proof (cases "q @ ''/'' = ''/''")
    case True
    with 2 fixed show ?thesis by simp
  next
    case False
    from path_Clean_slash(1) [OF this] 2 fixed show ?thesis by simp
  qed
qed auto

text \<open>The first directory above that is there; the walk ends at the root.\<close>

function existing_dir :: "(string \<Rightarrow> bool) \<Rightarrow> string \<Rightarrow> string" where
  "existing_dir there dir = (if there dir then dir else if path_Dir dir = dir then dir else existing_dir there (path_Dir dir))"
  by pat_completeness auto
termination
  by (relation "measure (\<lambda>(_, dir). path_size dir)") (simp_all add: path_Dir_less)

declare existing_dir.simps [simp del]

subsection \<open>Files\<close>

datatype node = DirNode bool | FileNode bool string

type_synonym files = "string \<rightharpoonup> node"

datatype open_result = Opened | NotExist | Refused

text \<open>
  \<^verbatim>\<open>os.Stat\<close>; \<^verbatim>\<open>os.OpenFile\<close> for appending to a file that is there, and with the creation of a missing one; \<^verbatim>\<open>os.MkdirAll\<close>;
  \<^verbatim>\<open>os.CreateTemp\<close> under the name \<open>tmp\<close>. A component above that is a file is an error of its own, not a missing file.
\<close>

definition os_Stat :: "files \<Rightarrow> string \<Rightarrow> node option" where
  "os_Stat fs p = fs (path_Clean p)"

definition open_existing :: "files \<Rightarrow> string \<Rightarrow> open_result" where
  "open_existing fs p =
     (case os_Stat fs p of
        Some (FileNode w _) \<Rightarrow> if w then Opened else Refused
      | Some (DirNode _) \<Rightarrow> Refused
      | None \<Rightarrow> (case fs (existing_dir (\<lambda>d. fs d \<noteq> None) (path_Dir p)) of Some (FileNode _ _) \<Rightarrow> Refused | _ \<Rightarrow> NotExist))"

definition open_create :: "files \<Rightarrow> string \<Rightarrow> open_result \<times> files" where
  "open_create fs p =
     (if os_Stat fs p \<noteq> None then (open_existing fs p, fs)
      else if p = [] \<or> last p = CHR ''/'' then (Refused, fs)
      else if fs (path_Dir p) = Some (DirNode True) then (Opened, fs(path_Clean p \<mapsto> FileNode True []))
      else (Refused, fs))"

function MkdirAll :: "string \<Rightarrow> files \<Rightarrow> bool \<times> files" where
  "MkdirAll d fs =
     (case fs d of
        Some (DirNode _) \<Rightarrow> (True, fs)
      | Some (FileNode _ _) \<Rightarrow> (False, fs)
      | None \<Rightarrow>
          if path_Dir d = d then (False, fs)
          else (case MkdirAll (path_Dir d) fs of
                  (ok, fs1) \<Rightarrow> if ok \<and> fs1 (path_Dir d) = Some (DirNode True) then (True, fs1(d \<mapsto> DirNode True)) else (False, fs1)))"
  by pat_completeness auto
termination
  by (relation "measure (\<lambda>(d, _). path_size d)") (simp_all add: path_Dir_less)

declare MkdirAll.simps [simp del]

definition CreateTemp :: "string \<Rightarrow> string \<Rightarrow> files \<Rightarrow> files option" where
  "CreateTemp tmp dir fs = (if fs dir = Some (DirNode True) \<and> fs tmp = None then Some (fs(tmp \<mapsto> FileNode True [])) else None)"

definition os_Remove :: "string \<Rightarrow> files \<Rightarrow> files" where
  "os_Remove p fs = fs(p := None)"

text \<open>What a file system is: the root and the current directory, and a directory above every node.\<close>

definition files_ok :: "files \<Rightarrow> bool" where
  "files_ok fs =
     ((\<exists>w. fs ''.'' = Some (DirNode w)) \<and> (\<exists>w. fs ''/'' = Some (DirNode w)) \<and> (\<forall>p n. fs p = Some n \<longrightarrow> (\<exists>w. fs (path_Dir p) = Some (DirNode w))))"

lemma existing_here: "there d \<Longrightarrow> existing_dir there d = d"
  by (subst existing_dir.simps) simp

lemma existing_dir_there: "files_ok fs \<Longrightarrow> fs (existing_dir (\<lambda>d. fs d \<noteq> None) d) \<noteq> None"
proof (induction "\<lambda>d. fs d \<noteq> None" d rule: existing_dir.induct)
  case (1 dir)
  show ?case
  proof (cases "fs dir \<noteq> None \<or> path_Dir dir \<noteq> dir")
    case True
    with 1 show ?thesis by (auto simp: existing_dir.simps [of _ dir])
  next
    case False
    with path_Dir_fixed [of dir] 1 show ?thesis by (auto simp: files_ok_def)
  qed
qed

text \<open>
  Making a directory succeeds exactly when the first node above is a directory, writable if something has to be made; it
  adds directories on the way up only.
\<close>

definition dir_at :: "files \<Rightarrow> string \<Rightarrow> bool \<Rightarrow> bool" where
  "dir_at fs d w = (fs (existing_dir (\<lambda>d. fs d \<noteq> None) d) = Some (DirNode w))"

lemma MkdirAll_spec:
  assumes "files_ok fs" "MkdirAll d fs = (ok, fs')"
  shows "ok = (\<exists>w. dir_at fs d w \<and> (w \<or> fs d \<noteq> None)) \<and> (ok \<longrightarrow> fs' d = (if fs d = None then Some (DirNode True) else fs d)) \<and>
         (\<forall>p. fs' p \<noteq> fs p \<longrightarrow> fs p = None \<and> path_size p \<le> path_size d)"
  using assms
proof (induction d fs arbitrary: ok fs' rule: MkdirAll.induct)
  case (1 d fs)
  show ?case
  proof (cases "fs d")
    case (Some n)
    then show ?thesis using "1.prems" by (cases n) (auto simp: MkdirAll.simps [of d fs] dir_at_def existing_here)
  next
    case None
    have up: "path_Dir d \<noteq> d" using path_Dir_fixed [of d] None "1.prems"(1) by (auto simp: files_ok_def)
    obtain ok1 fs1 where m: "MkdirAll (path_Dir d) fs = (ok1, fs1)" by fastforce
    from "1.IH" [OF None up "1.prems"(1) m]
    have ih: "ok1 = (\<exists>w. dir_at fs (path_Dir d) w \<and> (w \<or> fs (path_Dir d) \<noteq> None))"
      "ok1 \<Longrightarrow> fs1 (path_Dir d) = (if fs (path_Dir d) = None then Some (DirNode True) else fs (path_Dir d))"
      "\<And>p. fs1 p \<noteq> fs p \<Longrightarrow> fs p = None \<and> path_size p \<le> path_size (path_Dir d)" by blast+
    have at_up: "dir_at fs d = dir_at fs (path_Dir d)"
    proof
      fix w
      have "existing_dir (\<lambda>d. fs d \<noteq> None) d = existing_dir (\<lambda>d. fs d \<noteq> None) (path_Dir d)"
        by (subst existing_dir.simps) (use None up in simp)
      then show "dir_at fs d w = dir_at fs (path_Dir d) w" by (simp add: dir_at_def)
    qed
    have here: "fs (path_Dir d) \<noteq> None \<Longrightarrow> dir_at fs (path_Dir d) w = (fs (path_Dir d) = Some (DirNode w))" for w
      by (simp add: dir_at_def existing_here)
    have r: "ok = (ok1 \<and> fs1 (path_Dir d) = Some (DirNode True))" "fs' = (if ok then fs1(d \<mapsto> DirNode True) else fs1)"
      using "1.prems"(2) None up m unfolding MkdirAll.simps [of d fs] by (auto split: if_splits)
    have "ok = dir_at fs (path_Dir d) True"
    proof (cases "fs (path_Dir d)")
      case None
      then have "ok1 = dir_at fs (path_Dir d) True" unfolding ih(1) by auto
      then show ?thesis unfolding r(1) using ih(2) None by auto
    next
      case (Some n)
      then have n: "fs (path_Dir d) \<noteq> None" by simp
      show ?thesis unfolding r(1) here [OF n]
      proof
        assume "ok1 \<and> fs1 (path_Dir d) = Some (DirNode True)"
        then show "fs (path_Dir d) = Some (DirNode True)" using ih(2) n by metis
      next
        assume a: "fs (path_Dir d) = Some (DirNode True)"
        then have "ok1" unfolding ih(1) using here [OF n, of True] n by blast
        then show "ok1 \<and> fs1 (path_Dir d) = Some (DirNode True)" using ih(2) n a by metis
      qed
    qed
    then have "ok = dir_at fs d True" by (simp only: at_up)
    moreover have "fs p = None \<and> path_size p \<le> path_size d" if "fs' p \<noteq> fs p" for p
      using that r(2) ih(3) [of p] path_Dir_less [OF up] None by (cases "p = d") (auto split: if_splits)
    ultimately show ?thesis using None r(2) by auto
  qed
qed

end
