(* ===== verification/Cli.thy ===== *)
theory Cli
  imports Go_Host Migrate App Config_Env Auth_Properties
begin

text \<open>
  \<^verbatim>\<open>cmd/alertloop\<close>: the command line, the order in which a start opens things, the preflight check of the database and the log file, and the commands
  on console accounts. \<open>machine\<close> is what a process can change: files, the database with its ledger, the console accounts.
  What the process reads of its surroundings is the record \<open>host\<close>. A serving process is the result \<open>CliServes\<close> with what it
  serves; what it does from then on is the subject of the other theories.
\<close>

subsection \<open>Console accounts from the command line\<close>

record userCommand =
  uc_action :: string
  uc_login :: string
  uc_from_stdin :: bool

datatype usage_error = ShowUserUsage | UnknownUserCommand string | UserFlags flag_error

definition user_flags :: "string \<Rightarrow> string \<rightharpoonup> flag_kind" where
  "user_flags action = (if action = ''add'' \<or> action = ''passwd'' then [''password-stdin'' \<mapsto> BoolFlag] else Map.empty)"

definition parseUserArgs :: "string list \<Rightarrow> usage_error + userCommand" where
  "parseUserArgs args =
     (case args of
        [] \<Rightarrow> Inl ShowUserUsage
      | action # rest \<Rightarrow>
          if action \<notin> {''add'', ''passwd'', ''disable'', ''enable'', ''list''} then Inl (UnknownUserCommand action)
          else
            (case flag_parse (user_flags action) Map.empty rest of
               Inl e \<Rightarrow> Inl (UserFlags e)
             | Inr (seen, left) \<Rightarrow>
                 let wantLogin = action \<noteq> ''list''; fromStdin = (seen ''password-stdin'' = Some ''true'') in
                 if wantLogin \<and> length left = 1 then Inr \<lparr>uc_action = action, uc_login = hd left, uc_from_stdin = fromStdin\<rparr>
                 else if \<not> wantLogin \<and> left = [] then Inr \<lparr>uc_action = action, uc_login = [], uc_from_stdin = fromStdin\<rparr>
                 else Inl ShowUserUsage))"

text \<open>
  What one command reads: the random bytes of a password and of a salt, the identifier and the times, and the standard input,
  whose reading may fail after the text it gave.
\<close>

record user_env =
  ue_lower :: unicode_lower
  ue_argon :: argon
  ue_password_bytes :: "string option"
  ue_salt :: "string option"
  ue_user_id :: string
  ue_user_now :: time
  ue_now :: time
  ue_stdin :: string
  ue_stdin_fails :: bool

datatype user_error = StoreError err | NoUser string | StdinFailed

definition trim_line_end :: "string \<Rightarrow> string" where
  "trim_line_end s = rev (dropWhile (\<lambda>c. c = CHR 0x0D \<or> c = CHR 0x0A) (rev s))"

definition readOrGeneratePassword :: "user_env \<Rightarrow> bool \<Rightarrow> user_error + string \<times> bool" where
  "readOrGeneratePassword ue fromStdin =
     (if \<not> fromStdin then
        (case GeneratePassword (ue_password_bytes ue) of Inl e \<Rightarrow> Inl (StoreError e) | Inr p \<Rightarrow> Inr (p, True))
      else
        (case Cut (ue_stdin ue) (CHR 0x0A) of
           (line, _, found) \<Rightarrow> if \<not> found \<and> ue_stdin_fails ue then Inl StdinFailed else Inr (trim_line_end line, False)))"

definition printGenerated :: "bool \<Rightarrow> string \<Rightarrow> string" where
  "printGenerated generated password = (if generated then ''password (shown once): '' @ password @ [CHR 0x0A] else [])"

definition pad_right :: "nat \<Rightarrow> string \<Rightarrow> string" where
  "pad_right n s = s @ replicate (n - RuneCountInString s) CHR '' ''"

definition list_row :: "string \<Rightarrow> string \<Rightarrow> string \<Rightarrow> string \<Rightarrow> string" where
  "list_row login state seen ident = pad_right 24 login @ '' '' @ pad_right 9 state @ '' '' @ pad_right 20 seen @ '' '' @ ident @ [CHR 0x0A]"

definition login_time :: "time \<Rightarrow> string" where
  "login_time t = format_date (t div (24 * Hour)) @ '' '' @ take 8 (format_clock (t mod (24 * Hour)))"

definition listUsers :: "User list \<Rightarrow> string" where
  "listUsers users =
     (if users = [] then ''no users; create one with: alertloop user add <login>'' @ [CHR 0x0A]
      else list_row ''LOGIN'' ''STATE'' ''LAST LOGIN (UTC)'' ''ID'' @
        concat (map (\<lambda>u. list_row (us_login u) (if us_disabled_at u = None then ''active'' else ''disabled'')
                           (case us_last_login_at u of None \<Rightarrow> ''never'' | Some t \<Rightarrow> login_time t) (us_id u)) users))"

text \<open>The report is the text a command prints when it succeeds.\<close>

definition reported :: "string \<Rightarrow> unit result \<Rightarrow> user_error + string" where
  "reported text r = (case r of Inl e \<Rightarrow> Inl (StoreError e) | Inr _ \<Rightarrow> Inr text)"

definition add_user :: "user_env \<Rightarrow> userCommand \<Rightarrow> string \<Rightarrow> ('z accounts_scheme, user_error + string) prog" where
  "add_user ue cmd login =
     (case readOrGeneratePassword ue (uc_from_stdin cmd) of
        Inl e \<Rightarrow> State_Monad.return (Inl e)
      | Inr (password, generated) \<Rightarrow>
         (case NewUser (ue_lower ue) (ue_argon ue) (ue_salt ue) (ue_user_id ue) (ue_user_now ue) login password of
            Inl e \<Rightarrow> State_Monad.return (Inl (StoreError e))
          | Inr u \<Rightarrow> do {
              r \<leftarrow> transact (CreateUser u);
              State_Monad.return (reported (''user '' @ login @ '' created'' @ [CHR 0x0A] @ printGenerated generated password) r)
            }))"

definition change_password :: "user_env \<Rightarrow> userCommand \<Rightarrow> string \<Rightarrow> User \<Rightarrow> ('z accounts_scheme, user_error + string) prog" where
  "change_password ue cmd login u =
     (case readOrGeneratePassword ue (uc_from_stdin cmd) of
        Inl e \<Rightarrow> State_Monad.return (Inl e)
      | Inr (password, generated) \<Rightarrow>
         (case HashPassword (ue_argon ue) (ue_salt ue) password of
            Inl e \<Rightarrow> State_Monad.return (Inl (StoreError e))
          | Inr hash \<Rightarrow> do {
              r \<leftarrow> transact (SetUserPassword (us_id u) hash []);
              State_Monad.return (reported (''password of '' @ login @ '' changed; their sessions have ended'' @ [CHR 0x0A] @ printGenerated generated password @
                (if us_disabled_at u \<noteq> None then ''note: '' @ login @ '' is disabled and cannot sign in until enabled: alertloop user enable '' @ login @ [CHR 0x0A] else [])) r)
            }))"

definition change_user :: "user_env \<Rightarrow> userCommand \<Rightarrow> string \<Rightarrow> User \<Rightarrow> ('z accounts_scheme, user_error + string) prog" where
  "change_user ue cmd login u =
     (if uc_action cmd = ''passwd'' then change_password ue cmd login u
      else if uc_action cmd = ''disable'' then do {
        r \<leftarrow> transact (DisableUser (us_id u) (ue_now ue));
        State_Monad.return (reported (''user '' @ login @ '' disabled; their sessions have ended'' @ [CHR 0x0A]) r)
      }
      else if uc_action cmd = ''enable'' then
        (if us_disabled_at u = None then State_Monad.return (Inr (''user '' @ login @ '' is already enabled'' @ [CHR 0x0A]))
         else do {
           r \<leftarrow> transact (EnableUser (us_id u));
           State_Monad.return (reported (''user '' @ login @ '' enabled; they sign in with their current password (set a new one with: alertloop user passwd '' @ login @ '')'' @ [CHR 0x0A]) r)
         })
      else State_Monad.return (Inr []))"

definition userAction :: "user_env \<Rightarrow> userCommand \<Rightarrow> ('z accounts_scheme, user_error + string) prog" where
  "userAction ue cmd =
     (if uc_action cmd = ''list'' then do {
        users \<leftarrow> query ListUsers;
        State_Monad.return (Inr (listUsers users))
      }
      else
        (case NormalizeLogin (ue_lower ue) (uc_login cmd) of
           Inl e \<Rightarrow> State_Monad.return (Inl (StoreError e))
         | Inr login \<Rightarrow>
             if uc_action cmd = ''add'' then add_user ue cmd login
             else do {
               r \<leftarrow> query (UserByLogin login);
               (case r of
                  Inl e \<Rightarrow> State_Monad.return (Inl (if e = ErrNotFound then NoUser login else StoreError e))
                | Inr u \<Rightarrow> change_user ue cmd login u)
             }))"

subsection \<open>The log file\<close>

datatype log_error = LogDirectory | LogUnopened | LogNotCreatable | BadLogging

definition openLogFile :: "string \<Rightarrow> files \<Rightarrow> log_error option \<times> files" where
  "openLogFile path fs =
     (case MkdirAll (path_Dir path) fs of
        (ok, fs1) \<Rightarrow>
          if \<not> ok then (Some LogDirectory, fs1)
          else (case open_create fs1 path of (r, fs2) \<Rightarrow> if r = Opened then (None, fs2) else (Some LogUnopened, fs2)))"

text \<open>The name of the probe is \<open>temp\<close>'s choice.\<close>

definition checkLogFile :: "(files \<Rightarrow> string \<Rightarrow> string) \<Rightarrow> string \<Rightarrow> files \<Rightarrow> log_error option \<times> files" where
  "checkLogFile temp path fs =
     (if path = [] then (None, fs)
      else
        (case open_existing fs path of
           Opened \<Rightarrow> (None, fs)
         | Refused \<Rightarrow> (Some LogUnopened, fs)
         | NotExist \<Rightarrow>
             let dir = existing_dir (\<lambda>d. os_Stat fs d \<noteq> None) (path_Dir path); probe = temp fs dir in
             (case CreateTemp probe dir fs of
                None \<Rightarrow> (Some LogNotCreatable, fs)
              | Some fs1 \<Rightarrow> (None, os_Remove probe fs1))))"

definition setupLogger :: "golib \<Rightarrow> Logging \<Rightarrow> files \<Rightarrow> (log_error + Level \<times> bool) \<times> files" where
  "setupLogger gl c fs =
     (case SlogLevel gl c of
        None \<Rightarrow> (Inl BadLogging, fs)
      | Some level \<Rightarrow>
         (case log_JSON gl c of
            None \<Rightarrow> (Inl BadLogging, fs)
          | Some asJSON \<Rightarrow>
              if lg_file c = [] then (Inr (level, asJSON), fs)
              else (case openLogFile (lg_file c) fs of
                      (Some e, fs1) \<Rightarrow> (Inl e, fs1)
                    | (None, fs1) \<Rightarrow> (Inr (level, asJSON), fs1))))"

subsection \<open>A run of the binary\<close>

record 's machine =
  mc_files :: files
  mc_db :: "'s database"
  mc_accounts :: accounts

record 's host =
  ho_lib :: golib
  ho_kinds :: "string list"
  ho_yaml :: yamllib
  ho_pgx :: pgx
  ho_engine :: "'s engine"
  ho_migrations :: migration_files
  ho_ping :: "ping_failure option"
  ho_temp :: "files \<Rightarrow> string \<Rightarrow> string"
  ho_user :: user_env
  ho_version :: string
  ho_config_env :: string

datatype cli_error =
    BadFlags flag_error
  | UnknownMode string
  | BadUserCommand usage_error
  | NotLoaded load_error
  | NoCredential
  | CheckInvalid config_error
  | CheckFailed check_error
  | LogFailed log_error
  | StartFailed app_error "migrate_error option"
  | UserInvalid config_error
  | UserOpenFailed open_error
  | UserMigrateFailed migrate_error
  | UserFailed user_error
  | NoRunner string

datatype outcome_cli = CliFailed cli_error | CliPrinted string | CliServes string App "Level \<times> bool"

definition CheckDatabase :: "'s host \<Rightarrow> Config \<Rightarrow> 's database \<Rightarrow> cli_error option" where
  "CheckDatabase ho cfg db =
     (case Validate (ho_lib ho) (ho_kinds ho) cfg of
        Some e \<Rightarrow> Some (CheckInvalid e)
      | None \<Rightarrow>
          if \<not> RequireCredential cfg ModeServer then Some NoCredential
          else map_option CheckFailed
                 (Check (ho_lib ho) (ho_pgx ho) (ho_engine ho) (ho_migrations ho) (ho_ping ho) (dc_driver (cf_database cfg)) (dc_dsn (cf_database cfg)) db))"

definition checkDB :: "'s host \<Rightarrow> Config \<Rightarrow> 's machine \<Rightarrow> outcome_cli \<times> 's machine" where
  "checkDB ho cfg mc =
     (case CheckDatabase ho cfg (mc_db mc) of
        Some e \<Rightarrow> (CliFailed e, mc)
      | None \<Rightarrow>
         (case checkLogFile (ho_temp ho) (lg_file (cf_log cfg)) (mc_files mc) of
            (Some e, fs) \<Rightarrow> (CliFailed (LogFailed e), mc\<lparr>mc_files := fs\<rparr>)
          | (None, fs) \<Rightarrow> (CliPrinted (''ok: alertloop '' @ ho_version ho @ '', the database answered'' @ [CHR 0x0A]), mc\<lparr>mc_files := fs\<rparr>)))"

definition runUser :: "'s host \<Rightarrow> Config \<Rightarrow> userCommand \<Rightarrow> 's machine \<Rightarrow> outcome_cli \<times> 's machine" where
  "runUser ho cfg cmd mc =
     (case Validate (ho_lib ho) (ho_kinds ho) cfg of
        Some e \<Rightarrow> (CliFailed (UserInvalid e), mc)
      | None \<Rightarrow>
         (case open_db (ho_lib ho) (ho_pgx ho) (dc_driver (cf_database cfg)) (dc_dsn (cf_database cfg)) of
            Inl e \<Rightarrow> (CliFailed (UserOpenFailed e), mc)
          | Inr (d, _) \<Rightarrow>
             (case migrate (ho_engine ho) (ho_migrations ho) d (mc_db mc) of
                (Some e, db) \<Rightarrow> (CliFailed (UserMigrateFailed e), mc\<lparr>mc_db := db\<rparr>)
              | (None, db) \<Rightarrow>
                 (case run_alone (userAction (ho_user ho) cmd) (mc_accounts mc) of
                    (Inl e, a) \<Rightarrow> (CliFailed (UserFailed e), mc\<lparr>mc_db := db, mc_accounts := a\<rparr>)
                  | (Inr text, a) \<Rightarrow> (CliPrinted text, mc\<lparr>mc_db := db, mc_accounts := a\<rparr>)))))"

text \<open>\<open>app.New\<close> with the database it opens and migrates.\<close>

definition start_app :: "'s host \<Rightarrow> Config \<Rightarrow> 's database \<Rightarrow> (cli_error + App) \<times> 's database" where
  "start_app ho cfg db =
     (let built = (\<lambda>opened r. case App_New (ho_lib ho) (ho_kinds ho) opened (r = None) (ho_version ho) cfg of
                                Inl e \<Rightarrow> Inl (StartFailed e r) | Inr a \<Rightarrow> Inr a) in
      if Validate (ho_lib ho) (ho_kinds ho) cfg \<noteq> None then (built False None, db)
      else (case open_db (ho_lib ho) (ho_pgx ho) (dc_driver (cf_database cfg)) (dc_dsn (cf_database cfg)) of
              Inl e \<Rightarrow> (built False None, db)
            | Inr (d, _) \<Rightarrow> (case migrate (ho_engine ho) (ho_migrations ho) d db of (r, db1) \<Rightarrow> (built True r, db1))))"

definition serve :: "'s host \<Rightarrow> Config \<Rightarrow> string \<Rightarrow> 's machine \<Rightarrow> outcome_cli \<times> 's machine" where
  "serve ho cfg mode mc =
     (case setupLogger (ho_lib ho) (cf_log cfg) (mc_files mc) of
        (Inl e, fs) \<Rightarrow> (CliFailed (LogFailed e), mc\<lparr>mc_files := fs\<rparr>)
      | (Inr logger, fs) \<Rightarrow>
         (case start_app ho cfg (mc_db mc) of
            (Inl e, db) \<Rightarrow> (CliFailed e, mc\<lparr>mc_files := fs, mc_db := db\<rparr>)
          | (Inr a, db) \<Rightarrow>
              (if mode \<in> {ModeServer, ModeWorker, ModeAll} then CliServes mode a logger else CliFailed (NoRunner mode), mc\<lparr>mc_files := fs, mc_db := db\<rparr>)))"

definition main_flags :: "string \<rightharpoonup> flag_kind" where
  "main_flags = [''config'' \<mapsto> TextFlag, ''version'' \<mapsto> BoolFlag]"

definition run_mode :: "'s host \<Rightarrow> string \<Rightarrow> string \<Rightarrow> userCommand \<Rightarrow> 's machine \<Rightarrow> outcome_cli \<times> 's machine" where
  "run_mode ho configPath mode userCmd mc =
     (case Load (gl_lower (ho_lib ho)) (ho_yaml ho) configPath of
        Inl e \<Rightarrow> (CliFailed (NotLoaded e), mc)
      | Inr cfg \<Rightarrow>
          if \<not> RequireCredential cfg mode then (CliFailed NoCredential, mc)
          else if mode = ModeCheckDB then checkDB ho cfg mc
          else if mode = ModeUser then runUser ho cfg userCmd mc
          else serve ho cfg mode mc)"

definition no_user_command :: userCommand where
  "no_user_command = \<lparr>uc_action = [], uc_login = [], uc_from_stdin = False\<rparr>"

definition run :: "'s host \<Rightarrow> string list \<Rightarrow> 's machine \<Rightarrow> outcome_cli \<times> 's machine" where
  "run ho args mc =
     (case flag_parse main_flags Map.empty args of
        Inl e \<Rightarrow> (CliFailed (BadFlags e), mc)
      | Inr (seen, left) \<Rightarrow>
          let configPath = (case seen ''config'' of Some p \<Rightarrow> p | None \<Rightarrow> ho_config_env ho);
              mode = (case left of [] \<Rightarrow> ModeAll | m # _ \<Rightarrow> m) in
          if seen ''version'' = Some ''true'' then (CliPrinted (''alertloop '' @ ho_version ho @ [CHR 0x0A]), mc)
          else if mode \<notin> set Modes then (CliFailed (UnknownMode mode), mc)
          else if mode = ModeUser then
            (case parseUserArgs (tl left) of
               Inl e \<Rightarrow> (CliFailed (BadUserCommand e), mc)
             | Inr cmd \<Rightarrow> run_mode ho configPath mode cmd mc)
          else run_mode ho configPath mode no_user_command mc)"

end
