(* ===== verification/Cli_Properties.thy ===== *)
theory Cli_Properties
  imports Cli App_Properties Console_Contract Migrate_Properties
begin

text \<open>
  What the command line promises: the preflight check changes nothing and predicts a start, a process serves only what was checked, and the
  commands on accounts do what they report, next to a running server.
\<close>

subsection \<open>Clean paths\<close>

text \<open>A clean path is left alone.\<close>

definition plain_component :: "string \<Rightarrow> bool" where
  "plain_component c = (c \<notin> {[], ''.'', ''..''} \<and> CHR ''/'' \<notin> set c)"

definition clean_components :: "bool \<Rightarrow> string list \<Rightarrow> bool" where
  "clean_components r stack =
     (\<exists>k rest. stack = replicate k ''..'' @ rest \<and> (r \<longrightarrow> k = 0) \<and> (\<forall>c \<in> set rest. plain_component c))"

lemma clean_step_components:
  assumes "clean_components r stack" "CHR ''/'' \<notin> set c"
  shows "clean_components r (clean_step r stack c)"
proof -
  obtain k rest where s: "stack = replicate k ''..'' @ rest" "r \<longrightarrow> k = 0" "\<forall>c \<in> set rest. plain_component c"
    using assms(1) unfolding clean_components_def by blast
  have up: "last stack = ''..''" if "rest = []" "stack \<noteq> []" using that s(1) by (cases k) auto
  have down: "last stack \<noteq> ''..''" if "rest \<noteq> []" using that s(1,3) by (auto simp: plain_component_def)
  show ?thesis
  proof (cases "c = ''..''")
    case True
    show ?thesis
    proof (cases "rest = []")
      case False
      then have "clean_step r stack c = replicate k ''..'' @ butlast rest"
        using True down s(1) by (simp add: clean_step_def butlast_append)
      then show ?thesis using s(2,3) unfolding clean_components_def by (metis in_set_butlastD)
    next
      case rest: True
      show ?thesis
      proof (cases r)
        case True
        then show ?thesis using rest s assms(1) by (simp add: clean_step_def \<open>c = ''..''\<close>)
      next
        case False
        then have "clean_step r stack c = replicate (Suc k) ''..'' @ []"
          using rest up s(1) \<open>c = ''..''\<close> by (auto simp: clean_step_def replicate_append_same)
        then show ?thesis using False unfolding clean_components_def by (metis empty_iff empty_set)
      qed
    qed
  next
    case False
    show ?thesis
    proof (cases "c = [] \<or> c = ''.''")
      case True
      then show ?thesis using assms(1) by (auto simp: clean_step_def)
    next
      case plain: False
      then have "clean_step r stack c = replicate k ''..'' @ rest @ [c]" using False s(1) by (simp add: clean_step_def)
      moreover have "\<forall>d \<in> set (rest @ [c]). plain_component d" using s(3) plain False assms(2) by (auto simp: plain_component_def)
      ultimately show ?thesis using s(2) unfolding clean_components_def by blast
    qed
  qed
qed

lemma Split_no_sep: "s \<in> set (Split c p) \<Longrightarrow> c \<notin> set s"
  by (induction p arbitrary: s) (auto split: list.splits if_splits)

lemma clean_fold_components:
  "clean_components r stack \<Longrightarrow> (\<And>c. c \<in> set cs \<Longrightarrow> CHR ''/'' \<notin> set c) \<Longrightarrow> clean_components r (foldl (clean_step r) stack cs)"
  by (induction cs arbitrary: stack) (simp_all add: clean_step_components)

lemma clean_stack_components: "clean_components (hd p = CHR ''/'') (clean_stack p)"
  unfolding clean_stack_def
  by (rule clean_fold_components) (auto simp: clean_components_def dest: Split_no_sep)

lemma clean_components_plain: "clean_components r stack \<Longrightarrow> c \<in> set stack \<Longrightarrow> c \<noteq> [] \<and> CHR ''/'' \<notin> set c"
  unfolding clean_components_def plain_component_def by (elim exE conjE) (auto simp: Ball_def)

lemma clean_fold_plain: "\<forall>c \<in> set rest. plain_component c \<Longrightarrow> foldl (clean_step r) stack rest = stack @ rest"
  by (induction rest arbitrary: stack) (auto simp: clean_step_def plain_component_def)

lemma clean_fold_up: "foldl (clean_step False) (replicate j ''..'') (replicate k ''..'') = replicate (j + k) ''..''"
proof (induction k arbitrary: j)
  case (Suc k)
  have "clean_step False (replicate j ''..'') ''..'' = replicate (Suc j) ''..''"
    by (cases j) (auto simp: clean_step_def replicate_append_same)
  with Suc [of "Suc j"] show ?case by simp
qed simp

lemma clean_fold_fixed:
  assumes "clean_components r stack"
  shows "foldl (clean_step r) [] stack = stack"
proof -
  obtain k rest where s: "stack = replicate k ''..'' @ rest" "r \<longrightarrow> k = 0" "\<forall>c \<in> set rest. plain_component c"
    using assms unfolding clean_components_def by blast
  have "foldl (clean_step r) [] (replicate k ''..'') = replicate k ''..''"
    using s(2) clean_fold_up [of 0 k] by (cases r) simp_all
  then show ?thesis using clean_fold_plain [OF s(3)] by (simp add: s(1))
qed

lemma path_Clean_idem [simp]: "path_Clean (path_Clean p) = path_Clean p"
proof (cases "p = [] \<or> clean_stack p = []")
  case True
  have "path_Clean ''.'' = ''.''" by code_simp
  with True show ?thesis by (auto simp: path_Clean_def [of p])
next
  case False
  let ?r = "hd p = CHR ''/''" and ?s = "clean_stack p"
  have ok: "clean_components ?r ?s" by (rule clean_stack_components)
  then have comps: "c \<noteq> [] \<and> CHR ''/'' \<notin> set c" if "c \<in> set ?s" for c
    using that by (rule clean_components_plain)
  have split: "Split (CHR ''/'') (Join ?s ''/'') = ?s" using False comps by (intro Split_Join) auto
  obtain c cs where s: "?s = c # cs" using False by (cases ?s) auto
  obtain x xs where c: "c = x # xs" "x \<noteq> CHR ''/''" using comps [of c] s by (cases c) auto
  obtain ys where j: "Join ?s ''/'' = x # ys" using s c by (cases cs) simp_all
  show ?thesis
  proof (cases ?r)
    case True
    then have p: "path_Clean p = CHR ''/'' # Join ?s ''/''" using False by (simp add: path_Clean_def Let_def)
    have "clean_stack (path_Clean p) = foldl (clean_step True) [] ([] # ?s)" using split by (simp add: clean_stack_def p)
    also have "\<dots> = ?s" using clean_fold_fixed [OF ok] True by (simp add: clean_step_def)
    finally show ?thesis by (simp add: path_Clean_def [of "path_Clean p"] Let_def) (simp add: p)
  next
    case False
    then have p: "path_Clean p = Join ?s ''/''" using \<open>\<not> (p = [] \<or> ?s = [])\<close> j by (simp add: path_Clean_def Let_def)
    have h: "hd (path_Clean p) \<noteq> CHR ''/''" using c(2) by (simp add: p j)
    have "clean_stack (path_Clean p) = foldl (clean_step (hd (path_Clean p) = CHR ''/'')) [] (Split (CHR ''/'') (path_Clean p))"
      by (simp only: clean_stack_def)
    also have "\<dots> = foldl (clean_step False) [] ?s" using h by (simp only: p split)
    also have "\<dots> = ?s" using clean_fold_fixed [OF ok] False by simp
    finally show ?thesis using c(2) by (simp add: path_Clean_def [of "path_Clean p"] Let_def) (simp add: p j)
  qed
qed

lemma path_Clean_Dir [simp]: "path_Clean (path_Dir p) = path_Dir p"
  by (simp add: path_Dir_def)

subsection \<open>The log file\<close>

lemma existing_clean:
  "path_Clean d = d \<Longrightarrow> existing_dir (\<lambda>d. os_Stat fs d \<noteq> None) d = existing_dir (\<lambda>d. fs d \<noteq> None) d"
proof (induction "\<lambda>d. fs d \<noteq> None" d rule: existing_dir.induct)
  case (1 dir)
  have here: "os_Stat fs dir = fs dir" using "1.prems" by (simp add: os_Stat_def)
  show ?case
  proof (cases "fs dir \<noteq> None \<or> path_Dir dir = dir")
    case True
    then show ?thesis unfolding existing_dir.simps [of _ dir] here by auto
  next
    case False
    then show ?thesis using "1.hyps" unfolding existing_dir.simps [of _ dir] here by simp
  qed
qed

text \<open>The names of the probes are free, as \<^verbatim>\<open>os.CreateTemp\<close> promises.\<close>

definition fresh_names :: "(files \<Rightarrow> string \<Rightarrow> string) \<Rightarrow> files \<Rightarrow> bool" where
  "fresh_names temp fs = (\<forall>d. fs (temp fs d) = None)"

text \<open>
  The check of the log file leaves the file system as it is, succeeds exactly when opening the file does, and the opening changes no
  file that is there.
\<close>

lemma clean_no_slash: "path_Clean p = p \<Longrightarrow> p \<noteq> ''/'' \<Longrightarrow> p \<noteq> [] \<and> last p \<noteq> CHR ''/''"
proof (cases p rule: rev_cases)
  case Nil
  moreover have "path_Clean [] = ''.''" by code_simp
  ultimately show "path_Clean p = p \<Longrightarrow> ?thesis" by simp
next
  case (snoc q c)
  then show "path_Clean p = p \<Longrightarrow> p \<noteq> ''/'' \<Longrightarrow> ?thesis" using path_Clean_slash(1) [of q] by auto
qed

text \<open>
  The names of log files that name a file: clean ones, and those that end in the name of a file and do not go up. Excluded are a slash
  at the end, which is the case in which the check is wrong (\<open>slash_log_passes\<close>), and \<^verbatim>\<open>..\<close> below a directory, which might not exist: the files
  here are found by clean paths.
\<close>

definition names_file :: "string \<Rightarrow> bool" where
  "names_file path =
     (path_Clean path = path \<or>
      plain_component (last (Split (CHR ''/'') path)) \<and> ''..'' \<notin> set (Split (CHR ''/'') path))"

lemma path_Clean_at_slash:
  assumes "p \<noteq> []"
  shows "path_Clean (p @ ''/'') = path_Clean p"
proof -
  have "clean_stack (p @ ''/'') = clean_stack p"
    using Split_slash_end [of "CHR ''/''" p] assms by (simp add: clean_stack_def clean_step_def)
  with assms show ?thesis by (simp add: path_Clean_def)
qed

lemma path_Dir_last: "CHR ''/'' \<notin> set r \<Longrightarrow> path_Dir (q @ CHR ''/'' # r) = path_Clean (q @ ''/'')"
proof -
  assume "CHR ''/'' \<notin> set r"
  then have "dropWhile (\<lambda>c. c \<noteq> CHR ''/'') (rev r @ CHR ''/'' # rev q) = CHR ''/'' # rev q"
    by (subst dropWhile_append2) auto
  then show ?thesis by (simp add: path_Dir_def up_to_slash_def)
qed

lemma Join_snoc: "ss \<noteq> [] \<Longrightarrow> Join (ss @ [t]) sep = Join ss sep @ sep @ t"
  by (induction ss sep rule: Join.induct) auto

lemma path_Clean_Dir_plain:
  assumes "plain_component (last (Split (CHR ''/'') path))"
  shows "path_Dir (path_Clean path) = path_Dir path \<and> path \<noteq> [] \<and> last path \<noteq> CHR ''/''"
proof (cases path rule: up_to_slash_cases)
  case 1
  then have "Split (CHR ''/'') path = [path]" by (simp add: Split_none)
  with assms have plain: "plain_component path" by simp
  then have "path \<noteq> []" by (simp add: plain_component_def)
  moreover from this have "hd path \<noteq> CHR ''/''" "last path \<noteq> CHR ''/''" using 1 by (metis hd_in_set, metis last_in_set)
  moreover from calculation have "path_Clean path = path" using plain \<open>Split (CHR ''/'') path = [path]\<close>
    by (simp add: path_Clean_def clean_stack_def clean_step_def plain_component_def)
  ultimately show ?thesis by simp
next
  case (2 q r)
  have sp: "Split (CHR ''/'') path = Split (CHR ''/'') q @ [r]" using 2 by (simp add: Split_append_sep Split_none)
  with assms have plain: "plain_component r" by simp
  let ?c = "path_Clean (q @ ''/'')" and ?s = "clean_stack (q @ ''/'')"
  have h: "hd path = hd (q @ ''/'')" using 2(1) by (cases q) simp_all
  have st: "clean_stack path = ?s @ [r]"
    using plain by (simp only: clean_stack_def sp Split_slash_end h foldl_append foldl.simps) (simp add: clean_step_def plain_component_def)
  have "r \<noteq> []" "CHR ''/'' \<notin> set r" using plain by (auto simp: plain_component_def)
  then have ends: "path \<noteq> []" "last path \<noteq> CHR ''/''" using 2(1) by (auto dest: last_in_set)
  have "path_Dir (path_Clean path) = ?c"
  proof (cases "?s = []")
    case True
    then have "path_Clean path = (if hd path = CHR ''/'' then [] @ CHR ''/'' # r else r)" "?c = (if hd path = CHR ''/'' then ''/'' else ''.'')"
      using ends \<open>r \<noteq> []\<close> by (simp_all add: path_Clean_def Let_def st h)
    moreover have "path_Dir r = ''.''" using \<open>CHR ''/'' \<notin> set r\<close> by (cases r rule: up_to_slash_cases) auto
    ultimately show ?thesis using path_Dir_last [OF \<open>CHR ''/'' \<notin> set r\<close>, of "[]"] by (simp split: if_splits)
  next
    case False
    then have "hd ?s \<noteq> []" using clean_components_plain [OF clean_stack_components, of _ "q @ ''/''"] by auto
    with False have "Join ?s ''/'' \<noteq> []" by (cases ?s rule: list.exhaust; cases "tl ?s") auto
    with False have "path_Clean path = ?c @ CHR ''/'' # r" "?c \<noteq> []"
      using ends by (auto simp: path_Clean_def Let_def st h Join_snoc)
    then show ?thesis using path_Dir_last [OF \<open>CHR ''/'' \<notin> set r\<close>] path_Clean_at_slash [of ?c] by simp
  qed
  with 2(3) ends show ?thesis by simp
qed

lemma names_file_facts:
  "names_file path \<Longrightarrow> path_Dir (path_Clean path) = path_Dir path \<and> (path_Clean path \<noteq> ''/'' \<longrightarrow> path \<noteq> [] \<and> last path \<noteq> CHR ''/'')"
  using path_Clean_Dir_plain [of path] clean_no_slash [of path] by (auto simp: names_file_def)

lemma openLogFile_spec:
  assumes "files_ok fs" "names_file path"
  shows "fst (openLogFile path fs) = None \<longleftrightarrow>
           (case os_Stat fs path of Some (FileNode w _) \<Rightarrow> w | Some (DirNode _) \<Rightarrow> False | None \<Rightarrow> dir_at fs (path_Dir path) True)"
proof -
  let ?d = "path_Dir path" and ?p = "path_Clean path"
  have dir: "path_Dir ?p = ?d" "?p \<noteq> ''/'' \<Longrightarrow> path \<noteq> [] \<and> last path \<noteq> CHR ''/''" using names_file_facts [OF assms(2)] by blast+
  obtain ok fs1 where m: "MkdirAll ?d fs = (ok, fs1)" by fastforce
  note spec = MkdirAll_spec [OF assms(1) m]
  have stat: "os_Stat g path = g ?p" for g by (simp add: os_Stat_def)
  have keep: "fs q \<noteq> None \<Longrightarrow> fs1 q = fs q" for q using spec by metis
  have up: "fs ?p \<noteq> None \<Longrightarrow> ok"
  proof -
    assume "fs ?p \<noteq> None"
    then obtain w where "fs ?d = Some (DirNode w)" using assms(1) dir(1) by (metis files_ok_def not_None_eq)
    then have "dir_at fs ?d w" "fs ?d \<noteq> None" by (simp_all add: dir_at_def existing_here)
    with spec show ok by blast
  qed
  have new: "fs1 ?p = None \<and> path \<noteq> [] \<and> last path \<noteq> CHR ''/''" if n: "fs ?p = None"
  proof -
    have "path_Dir ?p \<noteq> ?p" "?p \<noteq> ''/''" using path_Dir_fixed [of ?p] n assms(1) by (auto simp: files_ok_def)
    with spec path_Dir_less [of ?p] dir n show ?thesis by (metis leD)
  qed
  show ?thesis
  proof (cases "fs ?p")
    case None
    have "ok \<and> fs1 ?d = Some (DirNode True) \<longleftrightarrow> dir_at fs ?d True"
    proof (cases "fs ?d")
      case None
      then have "ok = dir_at fs ?d True" using spec by auto
      then show ?thesis using spec None by auto
    next
      case (Some n)
      then have e: "dir_at fs ?d w = (fs ?d = Some (DirNode w))" "fs1 ?d = fs ?d" for w
        using keep [of ?d] by (simp_all add: dir_at_def existing_here)
      then show ?thesis using spec Some by metis
    qed
    then show ?thesis using None new [OF None] by (auto simp: openLogFile_def m open_create_def stat)
  next
    case (Some n)
    then show ?thesis using up keep [of ?p] by (cases n) (auto simp: openLogFile_def m open_create_def open_existing_def stat)
  qed
qed

lemma checkLogFile_spec:
  assumes "files_ok fs" "names_file path" "path \<noteq> []" "fresh_names temp fs"
  shows "fst (checkLogFile temp path fs) = None \<longleftrightarrow> fst (openLogFile path fs) = None"
proof -
  let ?d = "path_Dir path" and ?p = "path_Clean path"
  have stat: "os_Stat fs path = fs ?p" by (simp add: os_Stat_def)
  have probe: "fs (temp fs x) = None" for x using assms(4) by (simp add: fresh_names_def)
  have walk: "existing_dir (\<lambda>d. os_Stat fs d \<noteq> None) ?d = existing_dir (\<lambda>d. fs d \<noteq> None) ?d" by (rule existing_clean) simp
  obtain n where n: "fs (existing_dir (\<lambda>d. fs d \<noteq> None) ?d) = Some n" using existing_dir_there [OF assms(1), of ?d] by blast
  show ?thesis
  proof (cases "fs ?p")
    case (Some m)
    then show ?thesis unfolding openLogFile_spec [OF assms(1,2)]
      using assms(3) by (cases m) (simp_all add: checkLogFile_def open_existing_def stat)
  next
    case None
    then show ?thesis unfolding openLogFile_spec [OF assms(1,2)] using assms(3) n probe
      by (cases n) (simp_all add: checkLogFile_def walk [unfolded not_None_eq] Let_def open_existing_def stat CreateTemp_def dir_at_def)
  qed
qed

text \<open>The check leaves the files as they are, wherever the log file is to be; opening it adds files and directories only.\<close>

lemma checkLogFile_unchanged: "snd (checkLogFile temp path fs) = fs"
  by (auto simp: checkLogFile_def CreateTemp_def os_Remove_def Let_def fun_eq_iff split: open_result.split)

lemma MkdirAll_adds: "MkdirAll d fs = (ok, fs') \<Longrightarrow> fs p \<noteq> None \<Longrightarrow> fs' p = fs p"
proof (induction d fs arbitrary: ok fs' rule: MkdirAll.induct)
  case (1 d fs)
  show ?case
  proof (cases "fs d = None \<and> path_Dir d \<noteq> d")
    case True
    obtain ok1 fs1 where m: "MkdirAll (path_Dir d) fs = (ok1, fs1)" by fastforce
    have "fs1 p = fs p" using "1.IH" [OF _ _ m "1.prems"(2)] True by simp
    with True m "1.prems" show ?thesis by (auto simp: MkdirAll.simps [of d fs] split: if_splits)
  qed (use "1.prems" in \<open>auto simp: MkdirAll.simps [of d fs] split: option.splits node.splits\<close>)
qed

lemma openLogFile_adds:
  assumes "fs p \<noteq> None"
  shows "snd (openLogFile path fs) p = fs p"
proof -
  obtain ok fs1 where m: "MkdirAll (path_Dir path) fs = (ok, fs1)" by fastforce
  from MkdirAll_adds [OF m assms] assms show ?thesis by (auto simp: openLogFile_def m open_create_def os_Stat_def)
qed

lemma setupLogger_adds: "setupLogger gl c fs = (r, fs') \<Longrightarrow> fs p \<noteq> None \<Longrightarrow> fs' p = fs p"
  using openLogFile_adds [of fs p "lg_file c"] by (auto simp: setupLogger_def split: option.splits if_splits prod.splits)

subsection \<open>Commands on accounts\<close>

context account_writes
begin

lemma userAction_keeps: "keeps I (userAction ue cmd)"
proof -
  have "keeps I (change_user ue cmd l u)" for l u
    unfolding change_user_def change_password_def
    by (auto intro!: keeps_bind keeps_return writes_keep split: sum.split prod.split)
  moreover have "keeps I (add_user ue cmd l)" for l
    unfolding add_user_def by (auto intro!: keeps_bind keeps_return writes_keep split: sum.split prod.split)
  ultimately show ?thesis
    unfolding userAction_def by (auto intro!: keeps_bind keeps_return keeps_query split: sum.split)
qed

end

text \<open>
  C32: an account command may be run next to a running server. Whatever the server's requests and other commands write between its two
  statements, a command keeps every invariant of the accounts, never signs anybody in, and leaves every user registered under their login.
\<close>

theorem user_commands_sound:
  "keeps console_ok (userAction ue cmd) \<and> keeps (only_sessions X) (userAction ue cmd) \<and> keeps (registered i l) (userAction ue cmd)"
  by (intro conjI sound.userAction_keeps known.userAction_keeps staying.userAction_keeps)

text \<open>
  A limit of what a new password ends: a sign-in that has checked the old one already, its last statement being the insertion of the session,
  still succeeds afterwards, since that statement does not look at the hash again.
\<close>

lemma session_after_new_password:
  assumes "SetUserPassword (us_id u) h k c = Inr (x, c1)" "i \<notin> ss_id ` set (ac_sessions c)"
  shows "\<exists>c2. CreateSession (session_row sv rd r u i) c1 = Inr ((), c2) \<and> i \<in> ss_id ` set (ac_sessions c2)"
proof -
  let ?s = "session_row sv rd r u i"
  have s: "ss_id ?s = i" "ss_user_id ?s = us_id u" by (simp_all add: session_row_def Let_def)
  have "i \<notin> ss_id ` set (ac_sessions c1)" using assms(2) unfolding revoking_writes_sessions(1) [OF assms(1)] by auto
  moreover have "\<exists>v \<in> set (ac_users c1). us_id v = us_id u"
  proof -
    obtain c' where w: "update_user (us_id u) (\<lambda>v. v\<lparr>us_password_hash := h\<rparr>) c = Inr c'" "ac_users c1 = ac_users c'"
      using assms(1) by (auto simp: SetUserPassword_def delete_sessions_def split: sum.splits)
    from update_user_InrD [OF w(1)] obtain v where v: "v \<in> set (ac_users c)" "us_id v = us_id u"
      and e: "ac_users c' = update_where (\<lambda>v. us_id v = us_id u) (\<lambda>v. v\<lparr>us_password_hash := h\<rparr>) (ac_users c)" by auto
    have "v\<lparr>us_password_hash := h\<rparr> \<in> set (ac_users c1)" unfolding w(2) e set_update_where by (rule image_eqI [of _ _ v]) (use v in simp_all)
    then show ?thesis by (rule bexI [rotated]) (use v(2) in simp)
  qed
  ultimately have "\<exists>c2. CreateSession ?s c1 = Inr ((), c2)"
    using s by (auto simp: CreateSession_def insert_session_def update_user_def image_iff)
  then obtain c2 where c2: "CreateSession ?s c1 = Inr ((), c2)" by blast
  then have "?s \<in> set (ac_sessions c2)" using CreateSession_sessions [OF c2] by simp
  with c2 s(1) show ?thesis by force
qed

lemma reported_simps [simp]: "reported t (Inl e) = Inl (StoreError e)" "reported t (Inr u) = Inr t"
  by (simp_all add: reported_def)

text \<open>What is left of a user and the sessions after a write to one row.\<close>

definition one_row_changed :: "User \<Rightarrow> 'z accounts_scheme \<Rightarrow> 'z accounts_scheme \<Rightarrow> bool" where
  "one_row_changed u a a' =
     (u \<in> set (ac_users a') \<and> (\<forall>v. us_login v \<noteq> us_login u \<longrightarrow> (v \<in> set (ac_users a') \<longleftrightarrow> v \<in> set (ac_users a))))"

lemma one_row_update:
  assumes "accounts_ok a" "same_user f" "u \<in> set (ac_users a)" "ac_users a' = update_where (\<lambda>v. us_id v = us_id u) f (ac_users a)"
  shows "one_row_changed (f u) a a'"
proof -
  have k: "us_id (f v) = us_id v" "us_login (f v) = us_login v" for v using assms(2) by (simp_all add: same_user_def)
  have same: "v \<in> set (ac_users a) \<Longrightarrow> us_id v = us_id u \<Longrightarrow> v = u" for v
    using assms(1,3) by (auto simp: accounts_ok_def distinct_map dest: inj_onD)
  show ?thesis unfolding one_row_changed_def assms(4) set_update_where
  proof (intro conjI allI impI)
    show "f u \<in> (\<lambda>v. if us_id v = us_id u then f v else v) ` set (ac_users a)" using assms(3) by (auto simp: image_iff intro!: bexI [of _ u])
  next
    fix v :: User assume v: "us_login v \<noteq> us_login (f u)"
    show "v \<in> (\<lambda>v. if us_id v = us_id u then f v else v) ` set (ac_users a) \<longleftrightarrow> v \<in> set (ac_users a)"
    proof
      assume "v \<in> (\<lambda>v. if us_id v = us_id u then f v else v) ` set (ac_users a)"
      with same v k show "v \<in> set (ac_users a)" by (auto split: if_splits)
    next
      assume "v \<in> set (ac_users a)"
      moreover then have "us_id v \<noteq> us_id u" using same v k by auto
      ultimately show "v \<in> (\<lambda>v. if us_id v = us_id u then f v else v) ` set (ac_users a)" by (auto simp: image_iff intro!: bexI [of _ v])
    qed
  qed
qed

definition password_set :: "user_env \<Rightarrow> userCommand \<Rightarrow> User \<Rightarrow> bool" where
  "password_set ue cmd u =
     (\<exists>p generated. readOrGeneratePassword ue (uc_from_stdin cmd) = Inr (p, generated) \<and> CheckPassword (ue_argon ue) (us_password_hash u) p)"

definition ends_sessions :: "userCommand \<Rightarrow> bool" where
  "ends_sessions cmd = (uc_action cmd = ''passwd'' \<or> uc_action cmd = ''disable'')"

text \<open>What one command has done to the row of its user.\<close>

definition user_row_after :: "user_env \<Rightarrow> userCommand \<Rightarrow> User \<Rightarrow> bool" where
  "user_row_after ue cmd u =
     ((uc_action cmd \<in> {''add'', ''passwd''} \<longrightarrow> password_set ue cmd u) \<and> (uc_action cmd = ''disable'' \<longrightarrow> us_disabled_at u \<noteq> None) \<and>
      (uc_action cmd \<in> {''add'', ''enable''} \<longrightarrow> us_disabled_at u = None))"

definition command_done :: "user_env \<Rightarrow> userCommand \<Rightarrow> User \<Rightarrow> 'z accounts_scheme \<Rightarrow> 'z accounts_scheme \<Rightarrow> bool" where
  "command_done ue cmd u a a' =
     (one_row_changed u a a' \<and> user_row_after ue cmd u \<and>
      ac_sessions a' = filter (\<lambda>s. ends_sessions cmd \<longrightarrow> ss_user_id s \<noteq> us_id u) (ac_sessions a))"

lemma hash_checks: "good_argon ag \<Longrightarrow> HashPassword ag salt p = Inr h \<Longrightarrow> CheckPassword ag h p"
  using HashPassword_accepts [of ag _ p h p] by (cases salt) (auto simp: HashPassword_def Let_def split: if_splits)

lemma add_user_effect:
  assumes "good_argon (ue_argon ue)" "uc_action cmd = ''add''" "run_alone (add_user ue cmd l) a = (r, a')"
  shows "case r of Inl e \<Rightarrow> a' = a
         | Inr text \<Rightarrow> \<exists>u. command_done ue cmd u a a' \<and> NormalizeLogin (ue_lower ue) l = Inr (us_login u) \<and> us_login u \<notin> us_login ` set (ac_users a)"
proof (cases "readOrGeneratePassword ue (uc_from_stdin cmd)")
  case (Inl e)
  with assms(3) show ?thesis by (auto simp: add_user_def)
next
  case (Inr pg)
  obtain p g where pg: "pg = (p, g)" by fastforce
  show ?thesis
  proof (cases "NewUser (ue_lower ue) (ue_argon ue) (ue_salt ue) (ue_user_id ue) (ue_user_now ue) l p")
    case (Inl e)
    with assms(3) Inr pg show ?thesis by (auto simp: add_user_def)
  next
    case u: (Inr u)
    then obtain h where h: "HashPassword (ue_argon ue) (ue_salt ue) p = Inr h" "us_password_hash u = h" "NormalizeLogin (ue_lower ue) l = Inr (us_login u)"
      by (auto simp: NewUser_def split: sum.splits)
    have row: "password_set ue cmd (user_row u)"
      using hash_checks [OF assms(1) h(1)] Inr pg h(2) by (auto simp: password_set_def user_row_def)
    show ?thesis
    proof (cases "CreateUser u a")
      case (Inl e)
      with assms(3) Inr pg u show ?thesis by (auto simp: add_user_def run_alone_map commit_def)
    next
      case (Inr ra)
      then have a': "snd ra = a\<lparr>ac_users := ac_users a @ [user_row u]\<rparr>" "us_login u \<notin> us_login ` set (ac_users a)"
        by (auto simp: CreateUser_def insert_user_def split: sum.splits if_splits)
      have "command_done ue cmd (user_row u) a (snd ra)"
        using row assms(2) by (auto simp: command_done_def one_row_changed_def user_row_after_def ends_sessions_def a'(1) user_row_def)
      moreover have "us_login (user_row u) = us_login u" by (simp add: user_row_def)
      moreover have "\<exists>t. r = Inr t" "a' = snd ra"
        using assms(3) Inr pg u \<open>readOrGeneratePassword ue (uc_from_stdin cmd) = Inr pg\<close>
        by (cases ra, auto simp: add_user_def run_alone_map commit_def)+
      ultimately show ?thesis using a'(2) h(3) by (elim exE) (simp only: sum.case, metis)
    qed
  qed
qed

lemma user_write_effect:
  assumes "accounts_ok a" "\<forall>s \<in> set (ac_sessions a). ss_id s \<noteq> []" "u \<in> set (ac_users a)"
  shows "SetUserPassword (us_id u) h [] a = Inr (x, a') \<Longrightarrow>
           one_row_changed (u\<lparr>us_password_hash := h\<rparr>) a a' \<and> ac_sessions a' = filter (\<lambda>s. ss_user_id s \<noteq> us_id u) (ac_sessions a)"
    and "DisableUser (us_id u) t a = Inr (x, a') \<Longrightarrow>
           one_row_changed (disable_row t u) a a' \<and> ac_sessions a' = filter (\<lambda>s. ss_user_id s \<noteq> us_id u) (ac_sessions a)"
    and "EnableUser (us_id u) a = Inr (x, a') \<Longrightarrow>
           one_row_changed (u\<lparr>us_disabled_at := None\<rparr>) a a' \<and> ac_sessions a' = ac_sessions a"
proof -
  show "one_row_changed (u\<lparr>us_password_hash := h\<rparr>) a a' \<and> ac_sessions a' = filter (\<lambda>s. ss_user_id s \<noteq> us_id u) (ac_sessions a)"
    if w: "SetUserPassword (us_id u) h [] a = Inr (x, a')"
  proof
    have "ac_users a' = update_where (\<lambda>v. us_id v = us_id u) (\<lambda>v. v\<lparr>us_password_hash := h\<rparr>) (ac_users a)"
      using w by (auto simp: SetUserPassword_def delete_sessions_def split: sum.splits dest!: update_user_InrD)
    from one_row_update [OF assms(1) same_user_simps(1) assms(3) this] show "one_row_changed (u\<lparr>us_password_hash := h\<rparr>) a a'" .
    show "ac_sessions a' = filter (\<lambda>s. ss_user_id s \<noteq> us_id u) (ac_sessions a)"
      unfolding revoking_writes_sessions(1) [OF w] using assms(2) by (intro filter_cong) auto
  qed
  show "one_row_changed (disable_row t u) a a' \<and> ac_sessions a' = filter (\<lambda>s. ss_user_id s \<noteq> us_id u) (ac_sessions a)"
    if w: "DisableUser (us_id u) t a = Inr (x, a')"
  proof
    have "ac_users a' = update_where (\<lambda>v. us_id v = us_id u) (disable_row t) (ac_users a)"
      using w by (auto simp: DisableUser_def delete_sessions_def split: sum.splits dest!: update_user_InrD)
    from one_row_update [OF assms(1) same_user_simps(4) assms(3) this] show "one_row_changed (disable_row t u) a a'" .
    show "ac_sessions a' = filter (\<lambda>s. ss_user_id s \<noteq> us_id u) (ac_sessions a)" by (rule revoking_writes_sessions(2) [OF w])
  qed
  show "one_row_changed (u\<lparr>us_disabled_at := None\<rparr>) a a' \<and> ac_sessions a' = ac_sessions a"
    if w: "EnableUser (us_id u) a = Inr (x, a')"
  proof
    have "ac_users a' = update_where (\<lambda>v. us_id v = us_id u) (\<lambda>v. v\<lparr>us_disabled_at := None\<rparr>) (ac_users a)"
      using w by (auto simp: EnableUser_def dest!: update_user_InrD)
    from one_row_update [OF assms(1) same_user_simps(2) assms(3) this] show "one_row_changed (u\<lparr>us_disabled_at := None\<rparr>) a a'" .
    show "ac_sessions a' = ac_sessions a" by (rule user_writes_sessions(3) [OF w])
  qed
qed

lemma change_password_effect:
  assumes "accounts_ok a" "good_argon (ue_argon ue)" "\<forall>s \<in> set (ac_sessions a). ss_id s \<noteq> []" "u \<in> set (ac_users a)"
    and "uc_action cmd = ''passwd''" "run_alone (change_password ue cmd l u) a = (r, a')"
  shows "case r of Inl e \<Rightarrow> a' = a | Inr text \<Rightarrow> \<exists>v. command_done ue cmd v a a' \<and> us_login v = us_login u \<and> us_id v = us_id u"
proof (cases "readOrGeneratePassword ue (uc_from_stdin cmd)")
  case (Inl e)
  with assms(6) show ?thesis by (auto simp: change_password_def)
next
  case (Inr pg)
  obtain p g where pg: "pg = (p, g)" by fastforce
  show ?thesis
  proof (cases "HashPassword (ue_argon ue) (ue_salt ue) p")
    case (Inl e)
    with assms(6) Inr pg show ?thesis by (auto simp: change_password_def)
  next
    case h: (Inr h)
    show ?thesis
    proof (cases "SetUserPassword (us_id u) h [] a")
      case (Inl e)
      with assms(6) Inr pg h show ?thesis by (auto simp: change_password_def run_alone_map commit_def)
    next
      case w: (Inr xa)
      then have w': "SetUserPassword (us_id u) h [] a = Inr ((), snd xa)" by (cases xa) simp
      have row: "user_row_after ue cmd (u\<lparr>us_password_hash := h\<rparr>)"
        using hash_checks [OF assms(2) h] Inr pg assms(5) by (auto simp: user_row_after_def password_set_def)
      have "command_done ue cmd (u\<lparr>us_password_hash := h\<rparr>) a (snd xa)"
        using user_write_effect(1) [OF assms(1,3,4) w'] row assms(5) by (simp add: command_done_def ends_sessions_def)
      moreover have "\<exists>t. r = Inr t" "a' = snd xa"
        using assms(6) Inr pg h w by (cases xa, auto simp: change_password_def run_alone_map commit_def)+
      ultimately show ?thesis by (elim exE) (auto intro!: exI [of _ "u\<lparr>us_password_hash := h\<rparr>"])
    qed
  qed
qed

lemma change_user_effect:
  assumes "accounts_ok a" "good_argon (ue_argon ue)" "\<forall>s \<in> set (ac_sessions a). ss_id s \<noteq> []" "u \<in> set (ac_users a)"
    and "uc_action cmd \<in> {''passwd'', ''disable'', ''enable''}" "run_alone (change_user ue cmd l u) a = (r, a')"
  shows "case r of Inl e \<Rightarrow> a' = a | Inr text \<Rightarrow> \<exists>v. command_done ue cmd v a a' \<and> us_login v = us_login u \<and> us_id v = us_id u"
proof -
  consider "uc_action cmd = ''passwd''" | "uc_action cmd = ''disable''" | "uc_action cmd = ''enable''" "us_disabled_at u = None"
    | "uc_action cmd = ''enable''" "us_disabled_at u \<noteq> None" using assms(5) by auto
  then show ?thesis
  proof cases
    case 1
    with assms(6) have "run_alone (change_password ue cmd l u) a = (r, a')" by (simp add: change_user_def)
    then show ?thesis by (rule change_password_effect [OF assms(1-4) 1])
  next
    case 2
    show ?thesis
    proof (cases "DisableUser (us_id u) (ue_now ue) a")
      case (Inl e)
      with 2 assms(6) show ?thesis by (auto simp: change_user_def run_alone_map commit_def)
    next
      case w: (Inr xa)
      then have w': "DisableUser (us_id u) (ue_now ue) a = Inr ((), snd xa)" by (cases xa) simp
      have "command_done ue cmd (disable_row (ue_now ue) u) a (snd xa)"
        using user_write_effect(2) [OF assms(1,3,4) w'] 2
        by (simp add: command_done_def ends_sessions_def user_row_after_def disable_row_def split: option.split)
      moreover have "\<exists>t. r = Inr t" "a' = snd xa" using assms(6) 2 w by (cases xa, auto simp: change_user_def run_alone_map commit_def)+
      moreover have "us_login (disable_row (ue_now ue) u) = us_login u" "us_id (disable_row (ue_now ue) u) = us_id u" by (simp_all add: disable_row_def)
      ultimately show ?thesis by (elim exE) (simp only: sum.case, metis)
    qed
  next
    case 3
    then have "\<exists>t. r = Inr t" "a' = a" using assms(6) by (auto simp: change_user_def)
    moreover have "command_done ue cmd u a a"
      using 3 assms(4) by (simp add: command_done_def one_row_changed_def user_row_after_def ends_sessions_def)
    ultimately show ?thesis by (elim exE) (simp only: sum.case, metis)
  next
    case 4
    show ?thesis
    proof (cases "EnableUser (us_id u) a")
      case (Inl e)
      with 4 assms(6) show ?thesis by (auto simp: change_user_def run_alone_map commit_def)
    next
      case w: (Inr xa)
      then have w': "EnableUser (us_id u) a = Inr ((), snd xa)" by (cases xa) simp
      have "command_done ue cmd (u\<lparr>us_disabled_at := None\<rparr>) a (snd xa)"
        using user_write_effect(3) [OF assms(1,3,4) w'] 4 by (simp add: command_done_def ends_sessions_def user_row_after_def)
      moreover have "\<exists>t. r = Inr t" "a' = snd xa" using assms(6) 4 w by (cases xa, auto simp: change_user_def run_alone_map commit_def)+
      ultimately show ?thesis by (elim exE) (auto intro!: exI [of _ "u\<lparr>us_disabled_at := None\<rparr>"])
    qed
  qed
qed

text \<open>
  C31: an account command does what it reports, or nothing. After an error nothing has changed. A reported success has changed the row of the named
  user only: a created user was not there before and is enabled, a new password checks against the stored hash, and \<open>disable\<close> and \<open>enable\<close> leave the
  user disabled and enabled; and exactly the sessions of that user have ended if the password was set or the user disabled, none otherwise.
\<close>

theorem user_command_effect:
  assumes "accounts_ok a" "good_argon (ue_argon ue)" "\<forall>s \<in> set (ac_sessions a). ss_id s \<noteq> []"
    and "parseUserArgs args = Inr cmd" "run_alone (userAction ue cmd) a = (r, a')"
  shows "case r of
           Inl e \<Rightarrow> a' = a
         | Inr text \<Rightarrow>
             if uc_action cmd = ''list'' then a' = a
             else \<exists>l u. NormalizeLogin (ue_lower ue) (uc_login cmd) = Inr l \<and> command_done ue cmd u a a' \<and>
                    (if uc_action cmd = ''add'' then NormalizeLogin (ue_lower ue) l = Inr (us_login u) \<and> us_login u \<notin> us_login ` set (ac_users a)
                     else us_login u = l \<and> (\<exists>u0 \<in> set (ac_users a). us_login u0 = l \<and> us_id u0 = us_id u))"
proof -
  have act: "uc_action cmd \<in> {''add'', ''passwd'', ''disable'', ''enable'', ''list''}"
    using assms(4) unfolding parseUserArgs_def Let_def by (simp split: list.splits sum.splits prod.splits if_splits) auto
  show ?thesis
  proof (cases "uc_action cmd = ''list'' \<or> (\<exists>e. NormalizeLogin (ue_lower ue) (uc_login cmd) = Inl e)")
    case True
    with assms(5) show ?thesis by (auto simp: userAction_def run_alone_map)
  next
    case False
    then obtain l where l: "NormalizeLogin (ue_lower ue) (uc_login cmd) = Inr l" by (cases "NormalizeLogin (ue_lower ue) (uc_login cmd)") auto
    show ?thesis
    proof (cases "uc_action cmd = ''add''")
      case True
      with assms(5) l have "run_alone (add_user ue cmd l) a = (r, a')" by (simp add: userAction_def)
      from add_user_effect [OF assms(2) True this] show ?thesis using True l by (cases r) auto
    next
      case other: False
      show ?thesis
      proof (cases "UserByLogin l a")
        case (Inl e)
        with assms(5) l other False show ?thesis by (auto simp: userAction_def run_alone_bind)
      next
        case (Inr u)
        then have u: "u \<in> set (ac_users a)" "us_login u = l" by (auto simp: UserByLogin_def one_user_def split: option.splits dest!: find_SomeD)
        have "run_alone (change_user ue cmd l u) a = (r, a')" using assms(5) l other False Inr by (simp add: userAction_def run_alone_bind)
        from change_user_effect [OF assms(1-3) u(1) _ this] act other False
        have done_so: "case r of Inl e \<Rightarrow> a' = a | Inr msg \<Rightarrow> \<exists>v. command_done ue cmd v a a' \<and> us_login v = us_login u \<and> us_id v = us_id u" by simp
        have row: "\<exists>u0 \<in> set (ac_users a). us_login u0 = l \<and> us_id u0 = us_id v" if "us_id v = us_id u" for v :: User using that u by auto
        show ?thesis
        proof (cases r)
          case (Inl e)
          with done_so show ?thesis by simp
        next
          case (Inr msg)
          with done_so obtain v where v: "command_done ue cmd v a a'" "us_login v = l" "us_id v = us_id u" using u(2) by auto
          with row [OF v(3)]
          have "\<exists>v. command_done ue cmd v a a' \<and> us_login v = l \<and> (\<exists>u0 \<in> set (ac_users a). us_login u0 = l \<and> us_id u0 = us_id v)" by blast
          then show ?thesis using Inr other False l by simp
        qed
      qed
    qed
  qed
qed

subsection \<open>Starting\<close>

lemma valid_starts:
  assumes "any_order kinds" "Validate gl kinds cfg = None" "star_free (gl_lower gl)"
  shows "\<exists>a. App_New gl kinds True True version cfg = Inr a \<and> pa_cfg a = cfg"
proof -
  let ?c = "cf_channels cfg"
  have "valid_config gl cfg" using assms(1,2) by (simp add: Validate_None_iff)
  then have c: "channels_complete gl ?c" "distinct (channel_names ?c)"
    "\<And>r. cf_routing cfg = Some r \<Longrightarrow> validate_Routing (gl_lower gl) (set (channel_names ?c)) r = None"
    by (simp_all add: valid_config_def Let_def)
  obtain reg where reg: "buildRegistry gl ?c = Inr reg" "targetNames (Targets reg) = channel_names ?c"
    using c(1,2) by (rule buildRegistry_total) blast
  obtain router where "buildRouter (gl_lower gl) (cf_routing cfg) (Targets reg) = Inr router"
    using validate_New [OF assms(3), of "Targets reg"] c(3) reg(2) by (cases "cf_routing cfg") (auto simp: buildRouter_def)
  with reg(1) assms(2) show ?thesis by (simp add: App_New_def Let_def)
qed

lemma valid_logging:
  assumes "any_order kinds" "Validate gl kinds cfg = None"
  shows "SlogLevel gl (cf_log cfg) \<noteq> None" "log_JSON gl (cf_log cfg) \<noteq> None"
  using assms by (simp_all add: Validate_None_iff valid_config_def Let_def)

lemma valid_driver: "Validate gl kinds cfg = None \<Longrightarrow> dc_driver (cf_database cfg) = ''sqlite'' \<or> dc_driver (cf_database cfg) = ''postgres''"
  by (auto simp: Validate_def or_err_None_iff check_None_iff)

lemma App_New_Inr: "App_New gl kinds opened migrated version cfg = Inr a \<Longrightarrow> Validate gl kinds cfg = None \<and> opened \<and> migrated \<and> pa_cfg a = cfg"
  by (auto simp: App_New_def Let_def split: option.splits sum.splits if_splits)

lemma migrate_newer:
  assumes "fst (migrate en mf d db) = Some (NewerSchema vs)" "en_find en"
  shows "checkSchemaVersion en mf d db = Some (NewerSchema vs)"
proof -
  have no: "fst (apply_pending en mf d applied names db') \<noteq> Some (NewerSchema vs)" for applied names and db' :: "'a database"
    by (induction names arbitrary: db') (auto simp: Let_def split: option.splits)
  from assms(1) obtain names where n: "en_query en" "migrationNames mf d = Inr names"
    "refuseNewerSchema (ledger_versions (create_ledger db)) names = Some (NewerSchema vs)"
    using no by (auto simp: migrate_def appliedVersions_def Let_def migrationNames_def split: if_splits option.splits)
  have v: "ledger_versions (create_ledger db) = ledger_versions db" by (auto simp: create_ledger_def ledger_versions_def split: option.split)
  show ?thesis
  proof (cases "db_ledger db")
    case None
    then have "ledger_versions db = []" by (simp add: ledger_versions_def)
    with n(3) v show ?thesis by (simp add: refuseNewerSchema_def)
  next
    case (Some rows)
    with n v assms(2) show ?thesis by (simp add: checkSchemaVersion_def appliedVersions_def)
  qed
qed

text \<open>What a passed check of the database says of the calls a start makes.\<close>

lemma Check_None:
  assumes "Check gl px en mf ping driver dsn db = None" "driver = ''sqlite'' \<or> driver = ''postgres''"
  shows "\<exists>to. open_db gl px driver dsn = Inr (\<lparr>di_name = driver\<rparr>, to) \<and> en_find en \<and> checkSchemaVersion en mf \<lparr>di_name = driver\<rparr> db = None"
proof -
  have "en_find en" "checkSchemaVersion en mf \<lparr>di_name = driver\<rparr> db = None"
    using assms(1) by (auto simp: Check_def checkSchemaVersion_def Let_def split: option.splits if_splits prod.splits sum.splits)
  moreover have "\<exists>to. open_db gl px driver dsn = Inr (\<lparr>di_name = driver\<rparr>, to)"
    using assms by (auto simp: Check_def open_db_def Let_def split: option.splits if_splits prod.splits sum.splits)
  ultimately show ?thesis by blast
qed

lemma checkDB_unchanged: "snd (checkDB ho cfg mc) = mc"
  using checkLogFile_unchanged [of "ho_temp ho" "lg_file (cf_log cfg)" "mc_files mc"]
  by (auto simp: checkDB_def split: option.split prod.split)

lemma log_opens:
  assumes "files_ok fs" "fresh_names temp fs" "lg_file c = [] \<or> names_file (lg_file c)"
    and "fst (checkLogFile temp (lg_file c) fs) = None" "SlogLevel gl c \<noteq> None" "log_JSON gl c \<noteq> None"
  shows "\<exists>logger fs'. setupLogger gl c fs = (Inr logger, fs')"
proof (cases "lg_file c = []")
  case True
  with assms(5,6) show ?thesis by (auto simp: setupLogger_def)
next
  case False
  with assms(3) checkLogFile_spec [OF assms(1) _ _ assms(2)] assms(4) have "fst (openLogFile (lg_file c) fs) = None" by blast
  then obtain fs' where "openLogFile (lg_file c) fs = (None, fs')" by (cases "openLogFile (lg_file c) fs") simp
  with False assms(5,6) show ?thesis by (auto simp: setupLogger_def)
qed

definition starts_or_migration_stops :: "string \<Rightarrow> outcome_cli \<Rightarrow> bool" where
  "starts_or_migration_stops mode result =
     ((\<exists>a logger. result = CliServes mode a logger) \<or> (\<exists>e. result = CliFailed (StartFailed NotMigrated (Some e)) \<and> (\<forall>vs. e \<noteq> NewerSchema vs)))"

lemma serve_after_check:
  assumes "any_order (ho_kinds ho)" "star_free (gl_lower (ho_lib ho))" "files_ok (mc_files mc)" "fresh_names (ho_temp ho) (mc_files mc)"
    and "lg_file (cf_log cfg) = [] \<or> names_file (lg_file (cf_log cfg))"
    and "fst (checkDB ho cfg mc) = CliPrinted text" "mode \<in> {ModeServer, ModeWorker, ModeAll}"
  shows "RequireCredential cfg mode \<and> starts_or_migration_stops mode (fst (serve ho cfg mode mc))"
proof -
  let ?driver = "dc_driver (cf_database cfg)" and ?dsn = "dc_dsn (cf_database cfg)"
  have passed: "CheckDatabase ho cfg (mc_db mc) = None" "fst (checkLogFile (ho_temp ho) (lg_file (cf_log cfg)) (mc_files mc)) = None"
    using assms(6) by (auto simp: checkDB_def split: option.splits prod.splits)
  then have v: "Validate (ho_lib ho) (ho_kinds ho) cfg = None" "RequireCredential cfg ModeServer"
    "Check (ho_lib ho) (ho_pgx ho) (ho_engine ho) (ho_migrations ho) (ho_ping ho) ?driver ?dsn (mc_db mc) = None"
    by (auto simp: CheckDatabase_def split: option.splits if_splits)
  from Check_None [OF v(3) valid_driver [OF v(1)]]
  obtain to where o: "open_db (ho_lib ho) (ho_pgx ho) ?driver ?dsn = Inr (\<lparr>di_name = ?driver\<rparr>, to)"
    and s: "en_find (ho_engine ho)" "checkSchemaVersion (ho_engine ho) (ho_migrations ho) \<lparr>di_name = ?driver\<rparr> (mc_db mc) = None" by blast
  obtain r db where m: "migrate (ho_engine ho) (ho_migrations ho) \<lparr>di_name = ?driver\<rparr> (mc_db mc) = (r, db)" by fastforce
  have newer: "r \<noteq> Some (NewerSchema vs)" for vs using migrate_newer [of "ho_engine ho" "ho_migrations ho" _ "mc_db mc" vs] s m by fastforce
  obtain logger fs where l: "setupLogger (ho_lib ho) (cf_log cfg) (mc_files mc) = (Inr logger, fs)"
    using log_opens [OF assms(3,4,5) passed(2) valid_logging [OF assms(1) v(1)]] by blast
  obtain a where a: "App_New (ho_lib ho) (ho_kinds ho) True True (ho_version ho) cfg = Inr a" using valid_starts [OF assms(1) v(1) assms(2)] by blast
  have "start_app ho cfg (mc_db mc) = ((case r of None \<Rightarrow> Inr a | Some e \<Rightarrow> Inl (StartFailed NotMigrated (Some e))), db)"
    using v(1) o m a by (auto simp: start_app_def Let_def App_New_def split: option.split)
  then have "starts_or_migration_stops mode (fst (serve ho cfg mode mc))"
    using l newer assms(7) by (cases r) (auto simp: serve_def starts_or_migration_stops_def)
  moreover have "RequireCredential cfg mode" using v(2) by (auto simp: RequireCredential_def modeServesHTTP_def split: if_splits)
  ultimately show ?thesis by blast
qed

text \<open>The configuration a command line with these flags loads.\<close>

definition flagged_config :: "'s host \<Rightarrow> (string \<rightharpoonup> string) \<Rightarrow> load_error + Config" where
  "flagged_config ho seen = Load (gl_lower (ho_lib ho)) (ho_yaml ho) (case seen ''config'' of Some p \<Rightarrow> p | None \<Rightarrow> ho_config_env ho)"

text \<open>The log file of that configuration, if it has one, has a name that names a file.\<close>

definition log_names_file :: "'s host \<Rightarrow> (string \<rightharpoonup> string) \<Rightarrow> bool" where
  "log_names_file ho seen =
     (case flagged_config ho seen of Inl _ \<Rightarrow> True | Inr cfg \<Rightarrow> lg_file (cf_log cfg) = [] \<or> names_file (lg_file (cf_log cfg)))"

lemma run_check:
  assumes "flag_parse main_flags Map.empty args = Inr (seen, ModeCheckDB # rest)" "seen ''version'' \<noteq> Some ''true''"
  shows "run ho args mc = (case flagged_config ho seen of Inl e \<Rightarrow> (CliFailed (NotLoaded e), mc) | Inr cfg \<Rightarrow> checkDB ho cfg mc)"
proof -
  have n: "ModeCheckDB \<in> set Modes" "ModeCheckDB \<noteq> ModeUser" "\<not> modeServesHTTP ModeCheckDB" by code_simp+
  then show ?thesis using assms
    by (auto simp: run_def run_mode_def flagged_config_def RequireCredential_def Let_def split: sum.split)
qed

lemma run_serve:
  assumes "flag_parse main_flags Map.empty args = Inr (seen, left)" "seen ''version'' \<noteq> Some ''true''" "mode \<in> {ModeServer, ModeWorker, ModeAll}"
    and "left = mode # rest \<or> left = [] \<and> mode = ModeAll"
  shows "run ho args mc =
    (case flagged_config ho seen of
       Inl e \<Rightarrow> (CliFailed (NotLoaded e), mc)
     | Inr cfg \<Rightarrow> if RequireCredential cfg mode then serve ho cfg mode mc else (CliFailed NoCredential, mc))"
proof -
  have "\<forall>m \<in> {ModeServer, ModeWorker, ModeAll}. m \<in> set Modes \<and> m \<noteq> ModeUser \<and> m \<noteq> ModeCheckDB" by code_simp
  then have n: "mode \<in> set Modes" "mode \<noteq> ModeUser" "mode \<noteq> ModeCheckDB" using assms(3) by blast+
  have m: "(case left of [] \<Rightarrow> ModeAll | m # _ \<Rightarrow> m) = mode" using assms(4) by auto
  show ?thesis using n assms(2)
    by (simp add: run_def assms(1) m Let_def run_mode_def flagged_config_def [symmetric] split: sum.split)
qed

text \<open>
  C30: the preflight check changes nothing and keeps its word. \<open>check-db\<close> leaves files, database and accounts as they are, whatever it finds.
  When it answers ok, a start with the same flags in any mode serves, unless a migration itself fails; never for the configuration, the credentials, the
  database address or a newer schema, and never for the log file, given that a configured log file has a name that names a file (\<open>names_file\<close>: it does
  not end in a slash, for which the check can pass though the start then fails, and does not go up by \<^verbatim>\<open>..\<close> below a directory).
\<close>

theorem preflight_predicts_start:
  assumes "flag_parse main_flags Map.empty args = Inr (seen, ModeCheckDB # rest)" "seen ''version'' \<noteq> Some ''true''"
  shows "snd (run ho args mc) = mc \<and>
         ((\<exists>text. fst (run ho args mc) = CliPrinted text) \<longrightarrow>
          any_order (ho_kinds ho) \<longrightarrow> star_free (gl_lower (ho_lib ho)) \<longrightarrow> files_ok (mc_files mc) \<longrightarrow> fresh_names (ho_temp ho) (mc_files mc) \<longrightarrow>
          log_names_file ho seen \<longrightarrow> flag_parse main_flags Map.empty args' = Inr (seen, left) \<longrightarrow>
          mode \<in> {ModeServer, ModeWorker, ModeAll} \<longrightarrow> left = mode # rest' \<or> left = [] \<and> mode = ModeAll \<longrightarrow>
          starts_or_migration_stops mode (fst (run ho args' mc)))"
proof (cases "flagged_config ho seen")
  case (Inl e)
  then show ?thesis by (simp add: run_check [OF assms])
next
  case (Inr cfg)
  have "starts_or_migration_stops mode (fst (run ho args' mc))"
    if printed: "fst (checkDB ho cfg mc) = CliPrinted msg"
      and host: "any_order (ho_kinds ho)" "star_free (gl_lower (ho_lib ho))" "files_ok (mc_files mc)" "fresh_names (ho_temp ho) (mc_files mc)"
      and log: "log_names_file ho seen"
      and start: "flag_parse main_flags Map.empty args' = Inr (seen, left)" "mode \<in> {ModeServer, ModeWorker, ModeAll}" "left = mode # rest' \<or> left = [] \<and> mode = ModeAll"
    for msg
  proof -
    have "lg_file (cf_log cfg) = [] \<or> names_file (lg_file (cf_log cfg))" using log Inr by (simp add: log_names_file_def)
    from serve_after_check [OF host this printed start(2)] show ?thesis
      using Inr by (simp add: run_serve [OF start(1) assms(2) start(2,3)])
  qed
  then show ?thesis using Inr checkDB_unchanged by (auto simp: run_check [OF assms])
qed

text \<open>The refusals that come before anything is opened.\<close>

fun refused_early :: "cli_error \<Rightarrow> bool" where
  "refused_early (LogFailed _) = False"
| "refused_early (StartFailed _ _) = False"
| "refused_early (UserMigrateFailed _) = False"
| "refused_early (UserFailed _) = False"
| "refused_early (NoRunner _) = False"
| "refused_early _ = True"

text \<open>The refusals that come before the migrations: a start opens the log file first, then looks at the configuration and the address.\<close>

fun refused_unmigrated :: "cli_error \<Rightarrow> bool" where
  "refused_unmigrated (LogFailed _) = True"
| "refused_unmigrated (StartFailed (InvalidConfig _) _) = True"
| "refused_unmigrated (StartFailed NotOpened _) = True"
| "refused_unmigrated e = refused_early e"

definition serves_guarded :: "'s host \<Rightarrow> string list \<Rightarrow> 's machine \<Rightarrow> string \<Rightarrow> App \<Rightarrow> 's machine \<Rightarrow> bool" where
  "serves_guarded ho args mc mode a mc' =
     (mode \<in> {ModeServer, ModeWorker, ModeAll} \<and>
      (\<exists>seen left. flag_parse main_flags Map.empty args = Inr (seen, left) \<and> flagged_config ho seen = Inr (pa_cfg a)) \<and>
      Validate (ho_lib ho) (ho_kinds ho) (pa_cfg a) = None \<and>
      (mode \<noteq> ModeWorker \<longrightarrow> cf_admin_token (pa_cfg a) \<noteq> [] \<or> cf_api_keys (pa_cfg a) \<noteq> []) \<and>
      mc_accounts mc' = mc_accounts mc \<and>
      (\<forall>names. migrationNames (ho_migrations ho) \<lparr>di_name = dc_driver (cf_database (pa_cfg a))\<rparr> = Inr names \<longrightarrow>
         version_of ` set names \<subseteq> set (ledger_versions (mc_db mc'))))"

lemma start_app_Inr:
  assumes "start_app ho cfg db = (Inr a, db')"
  shows "pa_cfg a = cfg \<and> Validate (ho_lib ho) (ho_kinds ho) cfg = None \<and>
         migrate (ho_engine ho) (ho_migrations ho) \<lparr>di_name = dc_driver (cf_database cfg)\<rparr> db = (None, db')"
proof -
  have no: "App_New gl kinds False x v cfg \<noteq> Inr a" for gl kinds x v using App_New_Inr by blast
  have v: "Validate (ho_lib ho) (ho_kinds ho) cfg = None"
    using assms no by (auto simp: start_app_def Let_def split: if_splits sum.splits)
  then obtain d to where o: "open_db (ho_lib ho) (ho_pgx ho) (dc_driver (cf_database cfg)) (dc_dsn (cf_database cfg)) = Inr (d, to)"
    using assms no by (auto simp: start_app_def Let_def split: sum.splits)
  then have d: "d = \<lparr>di_name = dc_driver (cf_database cfg)\<rparr>" by (auto simp: open_db_def split: if_splits option.splits)
  obtain r db1 where m: "migrate (ho_engine ho) (ho_migrations ho) d db = (r, db1)" by fastforce
  have "App_New (ho_lib ho) (ho_kinds ho) True (r = None) (ho_version ho) cfg = Inr a" "db' = db1"
    using assms v o m by (auto simp: start_app_def Let_def split: sum.splits)
  with App_New_Inr [OF this(1)] m d v show ?thesis by simp
qed

lemma serve_guarded:
  assumes "serve ho cfg mode mc = (CliServes m a logger, mc')"
  shows "m = mode \<and> mode \<in> {ModeServer, ModeWorker, ModeAll} \<and> pa_cfg a = cfg \<and> Validate (ho_lib ho) (ho_kinds ho) cfg = None \<and>
         mc_accounts mc' = mc_accounts mc \<and>
         migrate (ho_engine ho) (ho_migrations ho) \<lparr>di_name = dc_driver (cf_database cfg)\<rparr> (mc_db mc) = (None, mc_db mc')"
proof -
  obtain l fs where l: "setupLogger (ho_lib ho) (cf_log cfg) (mc_files mc) = (Inr l, fs)"
    using assms by (auto simp: serve_def split: sum.splits prod.splits)
  obtain a' db where s: "start_app ho cfg (mc_db mc) = (Inr a', db)"
    using assms l by (auto simp: serve_def split: sum.splits prod.splits)
  have "a' = a" "m = mode" "mode \<in> {ModeServer, ModeWorker, ModeAll}" "mc' = mc\<lparr>mc_files := fs, mc_db := db\<rparr>"
    using assms l s by (auto simp: serve_def split: if_splits)
  with start_app_Inr [OF s] show ?thesis by simp
qed

lemma early_unchanged:
  assumes "checkDB ho cfg mc = (CliFailed e, mc') \<or> runUser ho cfg cmd mc = (CliFailed e, mc') \<or> serve ho cfg mode mc = (CliFailed e, mc')" "refused_early e"
  shows "mc' = mc"
  using assms(1)
proof (elim disjE)
  assume "checkDB ho cfg mc = (CliFailed e, mc')"
  with assms(2) show ?thesis by (auto simp: checkDB_def split: option.splits prod.splits)
next
  assume "runUser ho cfg cmd mc = (CliFailed e, mc')"
  with assms(2) show ?thesis by (auto simp: runUser_def split: option.splits prod.splits sum.splits)
next
  assume s: "serve ho cfg mode mc = (CliFailed e, mc')"
  have "start_app ho cfg db = (Inl e', db') \<Longrightarrow> \<not> refused_early e'" for db db' e'
    by (auto simp: start_app_def Let_def split: if_splits sum.splits prod.splits)
  with s assms(2) show ?thesis by (auto simp: serve_def split: sum.splits prod.splits if_splits)
qed

lemma run_cases:
  obtains e where "run ho args mc = (CliFailed e, mc)" | msg where "run ho args mc = (CliPrinted msg, mc)"
  | seen left cfg mode cmd where "flag_parse main_flags Map.empty args = Inr (seen, left)" "flagged_config ho seen = Inr cfg" "RequireCredential cfg mode"
      "run ho args mc = checkDB ho cfg mc \<or> run ho args mc = runUser ho cfg cmd mc \<or> run ho args mc = serve ho cfg mode mc"
proof (cases "flag_parse main_flags Map.empty args")
  case (Inl e)
  then show ?thesis using that(1) by (simp add: run_def)
next
  case (Inr sl)
  obtain seen left where sl: "sl = (seen, left)" by fastforce
  note concl = that
  let ?mode = "case left of [] \<Rightarrow> ModeAll | m # _ \<Rightarrow> m"
  have mode: "thesis" if r: "run ho args mc = run_mode ho (case seen ''config'' of Some p \<Rightarrow> p | None \<Rightarrow> ho_config_env ho) ?mode cmd mc" for cmd
  proof (cases "flagged_config ho seen")
    case (Inl e)
    then show ?thesis using r concl(1) by (simp add: run_mode_def flagged_config_def)
  next
    case c: (Inr cfg)
    show ?thesis
    proof (cases "RequireCredential cfg ?mode")
      case False
      then show ?thesis using r concl(1) c by (simp add: run_mode_def flagged_config_def)
    next
      case True
      have "run ho args mc = checkDB ho cfg mc \<or> run ho args mc = runUser ho cfg cmd mc \<or> run ho args mc = serve ho cfg ?mode mc"
        using r c True by (simp add: run_mode_def flagged_config_def [symmetric])
      then show ?thesis using concl(3) [OF _ c True] Inr sl by blast
    qed
  qed
  have "run ho args mc =
      (if seen ''version'' = Some ''true'' then (CliPrinted (''alertloop '' @ ho_version ho @ [CHR 0x0A]), mc)
       else if ?mode \<notin> set Modes then (CliFailed (UnknownMode ?mode), mc)
       else if ?mode = ModeUser then
         (case parseUserArgs (tl left) of Inl e \<Rightarrow> (CliFailed (BadUserCommand e), mc)
          | Inr cmd \<Rightarrow> run_mode ho (case seen ''config'' of Some p \<Rightarrow> p | None \<Rightarrow> ho_config_env ho) ?mode cmd mc)
       else run_mode ho (case seen ''config'' of Some p \<Rightarrow> p | None \<Rightarrow> ho_config_env ho) ?mode no_user_command mc)"
    using Inr sl by (simp add: run_def Let_def)
  then show ?thesis using mode concl(1,2) by (cases "parseUserArgs (tl left)") (auto split: if_splits)
qed

lemma unmigrated_files:
  assumes "serve ho cfg mode mc = (CliFailed e, mc')" "refused_unmigrated e"
  shows "mc' = mc\<lparr>mc_files := mc_files mc'\<rparr>"
proof -
  obtain r fs where l: "setupLogger (ho_lib ho) (cf_log cfg) (mc_files mc) = (r, fs)" by fastforce
  show ?thesis
  proof (cases r)
    case (Inl x)
    with l assms(1) show ?thesis by (auto simp: serve_def)
  next
    case (Inr logger)
    have "db = mc_db mc" if "start_app ho cfg (mc_db mc) = (Inl e, db)" for db
      using that assms(2) by (auto simp: start_app_def App_New_def Let_def split: option.splits sum.splits if_splits prod.splits)
    with Inr l assms show ?thesis by (auto simp: serve_def split: sum.splits prod.splits if_splits)
  qed
qed

lemma files_only_added:
  assumes "run ho args mc = (result, mc')" "mc_files mc p \<noteq> None"
  shows "mc_files mc' p = mc_files mc p"
proof (cases rule: run_cases [of ho args mc])
  case (3 seen left cfg mode cmd)
  have "mc_files (snd (checkDB ho cfg mc)) p = mc_files mc p" by (simp add: checkDB_unchanged)
  moreover have "mc_files (snd (runUser ho cfg cmd mc)) p = mc_files mc p"
    by (auto simp: runUser_def split: option.split sum.split prod.split)
  moreover obtain r fs where l: "setupLogger (ho_lib ho) (cf_log cfg) (mc_files mc) = (r, fs)" by fastforce
  have "mc_files (snd (serve ho cfg mode mc)) p = mc_files mc p"
    using setupLogger_adds [OF l assms(2)] by (auto simp: serve_def l split: sum.split prod.split)
  ultimately show ?thesis using 3(4) assms(1) by (metis snd_conv)
qed (use assms in auto)

text \<open>
  C29: nothing is served that was not checked. A process that serves runs one of the three serving modes with the configuration its flags name, which
  validation accepts, with a credential unless it is a worker, over a database that has every migration of the binary, and has not touched the accounts. A process that is
  refused for its arguments, its mode, a configuration file that does not load, a missing credential, or, as \<open>check-db\<close> or an account command, for its configuration or
  database address, has changed nothing. A start that is refused for the log file, for a configuration that is not valid or for the database address has touched neither
  database nor accounts, but it may have created the log file and its directories first. No run changes the files in any other way (the database and what is
  later written to the log apart).
\<close>

theorem start_is_guarded:
  assumes "run ho args mc = (result, mc')"
  shows "(\<forall>mode a logger. result = CliServes mode a logger \<longrightarrow> serves_guarded ho args mc mode a mc') \<and>
         (\<forall>e. result = CliFailed e \<longrightarrow>
            (refused_early e \<longrightarrow> mc' = mc) \<and> (refused_unmigrated e \<longrightarrow> mc' = mc\<lparr>mc_files := mc_files mc'\<rparr>)) \<and>
         (\<forall>p. mc_files mc p \<noteq> None \<longrightarrow> mc_files mc' p = mc_files mc p)"
proof (cases rule: run_cases [of ho args mc])
  case (3 seen left cfg mode cmd)
  have "serves_guarded ho args mc m a mc'" if r: "result = CliServes m a logger" for m a logger
  proof -
    have "serve ho cfg mode mc = (CliServes m a logger, mc')"
      using 3(4) assms r by (auto simp: checkDB_def runUser_def split: option.splits prod.splits sum.splits)
    note g = serve_guarded [OF this]
    have "mode \<noteq> ModeWorker \<longrightarrow> cf_admin_token cfg \<noteq> [] \<or> cf_api_keys cfg \<noteq> []"
      using 3(3) g by (auto simp: RequireCredential_def modeServesHTTP_def split: if_splits)
    moreover have "\<forall>names. migrationNames (ho_migrations ho) \<lparr>di_name = dc_driver (cf_database cfg)\<rparr> = Inr names \<longrightarrow>
        version_of ` set names \<subseteq> set (ledger_versions (mc_db mc'))" using g migrate_complete by blast
    ultimately show ?thesis using g 3(1,2) by (simp add: serves_guarded_def)
  qed
  moreover have "mc' = mc" if "result = CliFailed e" "refused_early e" for e
    using early_unchanged that 3(4) assms by metis
  moreover have "mc' = mc\<lparr>mc_files := mc_files mc'\<rparr>" if f: "result = CliFailed e" "refused_unmigrated e" for e
  proof -
    consider "checkDB ho cfg mc = (CliFailed e, mc')" | "runUser ho cfg cmd mc = (CliFailed e, mc')" | "serve ho cfg mode mc = (CliFailed e, mc')"
      using 3(4) assms f(1) by metis
    then show ?thesis
    proof cases
      case 1
      then show ?thesis using checkDB_unchanged [of ho cfg mc] by simp
    next
      case 2
      then have "refused_early e \<or> \<not> refused_unmigrated e" by (auto simp: runUser_def split: option.splits prod.splits sum.splits)
      with 2 f(2) early_unchanged [of ho cfg mc e mc' cmd mode] show ?thesis by simp
    next
      case 3
      then show ?thesis using unmigrated_files f(2) by blast
    qed
  qed
  ultimately show ?thesis using files_only_added [OF assms] by blast
qed (use assms in auto)

end
