(* ===== verification/Cli_Examples.thy ===== *)
theory Cli_Examples
  imports Cli_Properties
begin

text \<open>A host, a machine and an account at which the properties of the command line are applied.\<close>

subsection \<open>A start\<close>

text \<open>The file sets a token and the log file; it is decoded whole from an empty document.\<close>

definition demo_cli_config :: Config where
  "demo_cli_config = demo_config\<lparr>cf_admin_token := ''token'', cf_log := \<lparr>lg_level = ''info'', lg_format = ''text'', lg_file = ''logs/a.log''\<rparr>\<rparr>"

definition demo_yaml :: yamllib where
  "demo_yaml = \<lparr>yl_read = \<lambda>_. Some [], yl_first = \<lambda>_. DecodedDoc (YMap 1 []), yl_second = \<lambda>_. DecodedEOF, yl_ShortTag = \<lambda>_. [],
     yl_Decode = \<lambda>_ _. Some demo_cli_config, yl_env = Map.empty\<rparr>"

definition demo_user_env :: user_env where
  "demo_user_env = \<lparr>ue_lower = demo_lower, ue_argon = demo_argon, ue_password_bytes = None, ue_salt = None, ue_user_id = ''u2'', ue_user_now = 0,
     ue_now = 7, ue_stdin = [], ue_stdin_fails = False\<rparr>"

definition demo_disk :: files where
  "demo_disk = [''.'' \<mapsto> DirNode True, ''/'' \<mapsto> DirNode False, ''etc'' \<mapsto> DirNode False]"

definition demo_machine :: "string list machine" where
  "demo_machine = \<lparr>mc_files = demo_disk, mc_db = \<lparr>db_ledger = Some [(''1'', []), (''2'', []), (''3'', [])], db_schema = []\<rparr>,
     mc_accounts = \<lparr>ac_users = [], ac_sessions = []\<rparr>\<rparr>"

definition demo_pgx_ok :: pgx where
  "demo_pgx_ok = \<lparr>px_ParseConfig = \<lambda>_. Inr [], px_open = \<lambda>_ _. True, px_stat = \<lambda>_. True\<rparr>"

definition demo_host :: "string list host" where
  "demo_host = \<lparr>ho_lib = demo_startup, ho_kinds = [''teams'', ''discord'', ''slack''], ho_yaml = demo_yaml, ho_pgx = demo_pgx_ok, ho_engine = demo_engine,
     ho_migrations = demo_files, ho_ping = None, ho_temp = \<lambda>_ d. d @ ''/.alertloop-check-1'', ho_user = demo_user_env, ho_version = ''1'', ho_config_env = ''c''\<rparr>"

lemma demo_disk_ok: "files_ok demo_disk" "fresh_names (ho_temp demo_host) demo_disk"
proof -
  have dirs: "path_Dir ''.'' = ''.''" "path_Dir ''/'' = ''/''" "path_Dir ''etc'' = ''.''" by code_simp+
  then show "files_ok demo_disk" by (auto simp: files_ok_def demo_disk_def)
  have "d @ ''/.alertloop-check-1'' \<notin> {''.'', ''/'', ''etc''}" for d
  proof
    assume "d @ ''/.alertloop-check-1'' \<in> {''.'', ''/'', ''etc''}"
    then have "length (d @ ''/.alertloop-check-1'') \<in> length ` {''.'', ''/'', ''etc''}" by (rule imageI)
    then show False by simp
  qed
  then show "fresh_names (ho_temp demo_host) demo_disk" by (simp add: fresh_names_def demo_host_def demo_disk_def)
qed

lemma demo_loaded: "Load (gl_lower demo_startup) demo_yaml ''c'' = Inr (finish_load (demo_cli_config\<lparr>cf_warnings := []\<rparr>))"
  by (simp add: Load_def demo_yaml_def load_document_def substituteEnv_def gather_def checkUnknownKeys_def checkNullSources_def Let_def)

lemma demo_valid: "Validate demo_startup [''teams'', ''discord'', ''slack''] (finish_load (demo_cli_config\<lparr>cf_warnings := []\<rparr>)) = None"
  by code_simp

lemma demo_check_args: "flag_parse main_flags Map.empty [''check-db''] = Inr (Map.empty, [''check-db''])"
  "flag_parse main_flags Map.empty [''server''] = Inr (Map.empty, [''server''])"
  by (simp_all add: flag_parse_stop)

text \<open>A log file whose name ends in a slash passes the check, though it cannot be opened: the log directory is made instead.\<close>

lemma slash_log_passes:
  "fst (checkLogFile (ho_temp demo_host) ''logs/'' demo_disk) = None \<and> fst (openLogFile ''logs/'' demo_disk) = Some LogUnopened"
  by code_simp

text \<open>The configuration, once loaded.\<close>

definition demo_loaded_config :: Config where
  "demo_loaded_config = finish_load (demo_cli_config\<lparr>cf_warnings := []\<rparr>)"

lemma demo_config_facts:
  "flagged_config demo_host Map.empty = Inr demo_loaded_config"
  "Validate (ho_lib demo_host) (ho_kinds demo_host) demo_loaded_config = None"
  "dc_driver (cf_database demo_loaded_config) = ''sqlite''" "dc_dsn (cf_database demo_loaded_config) = ''alertloop.db''"
  "lg_file (cf_log demo_loaded_config) = ''logs/a.log''" "cf_admin_token demo_loaded_config = ''token''"
proof -
  show "flagged_config demo_host Map.empty = Inr demo_loaded_config"
    by (simp add: flagged_config_def demo_host_def demo_loaded_config_def demo_loaded)
  show "Validate (ho_lib demo_host) (ho_kinds demo_host) demo_loaded_config = None"
    by (simp add: demo_host_def demo_loaded_config_def demo_valid)
  show "dc_driver (cf_database demo_loaded_config) = ''sqlite''" "dc_dsn (cf_database demo_loaded_config) = ''alertloop.db''"
    "lg_file (cf_log demo_loaded_config) = ''logs/a.log''" "cf_admin_token demo_loaded_config = ''token''"
    by (simp_all add: demo_loaded_config_def finish_load_def demo_cli_config_def demo_config_def Default_def)
qed

lemma demo_log_path: "names_file ''logs/a.log''" "''logs/a.log'' \<noteq> []" "names_file ''./logs//a.log''" "\<not> names_file ''logs/''" "\<not> names_file ''logs/../a.log''"
  by code_simp+

lemma demo_credential: "RequireCredential demo_loaded_config mode"
  by (simp add: RequireCredential_def demo_config_facts(6))

lemma demo_star: "star_free (gl_lower (ho_lib demo_host))" "any_order (ho_kinds demo_host)"
  by (simp_all add: demo_host_def demo_startup_def demo_lower_star_free any_order_def add_mset_commute)

lemma demo_up_to_date: "migrate (ho_engine demo_host) (ho_migrations demo_host) demo_sqlite (mc_db demo_machine) = (None, mc_db demo_machine)"
proof -
  have "set (ledger_versions (mc_db demo_machine)) = set (map version_of [''1.sql'', ''2.sql'', ''3.sql''])"
    unfolding demo_versions(2) by (auto simp: demo_machine_def ledger_versions_def)
  then have "set (ledger_versions (mc_db demo_machine)) = version_of ` set [''1.sql'', ''2.sql'', ''3.sql'']" by (simp only: set_map)
  moreover have "db_ledger (mc_db demo_machine) \<noteq> None" "en_create (ho_engine demo_host)" "en_query (ho_engine demo_host)"
    "migrationNames (ho_migrations demo_host) demo_sqlite = Inr [''1.sql'', ''2.sql'', ''3.sql'']"
    by (simp_all add: demo_machine_def demo_host_def demo_engine_def demo_names)
  ultimately show ?thesis by (intro migrate_up_to_date)
qed

lemma demo_opens: "open_db (ho_lib demo_host) (ho_pgx demo_host) ''sqlite'' ''alertloop.db'' = Inr (demo_sqlite, sqliteDSN ''alertloop.db'')"
  by (simp add: open_db_def demo_host_def demo_pgx_ok_def demo_sqlite_def)

lemma demo_check: "\<exists>msg. fst (checkDB demo_host demo_loaded_config demo_machine) = CliPrinted msg"
proof -
  have f: "fst (checkLogFile (ho_temp demo_host) ''logs/a.log'' demo_disk) = None" by code_simp
  have "sqliteFileExists (\<lambda>_. True) ''alertloop.db'' = None" by code_simp
  moreover have "checkSchemaVersion (ho_engine demo_host) (ho_migrations demo_host) demo_sqlite (mc_db demo_machine) = None"
  proof -
    have "set (ledger_versions (mc_db demo_machine)) \<subseteq> version_of ` set [''1.sql'', ''2.sql'', ''3.sql'']"
      unfolding set_map [symmetric] demo_versions(2) by (auto simp: demo_machine_def ledger_versions_def)
    then show ?thesis
      by (simp add: checkSchemaVersion_def appliedVersions_def refuseNewerSchema_None demo_names demo_host_def demo_engine_def demo_machine_def ledger_versions_def)
  qed
  ultimately have "CheckDatabase demo_host demo_loaded_config (mc_db demo_machine) = None"
    by (simp add: CheckDatabase_def demo_config_facts demo_credential Check_def demo_sqlite_def)
      (simp add: demo_host_def demo_pgx_ok_def)
  then show ?thesis using f by (cases "checkLogFile (ho_temp demo_host) ''logs/a.log'' demo_disk") (simp add: checkDB_def demo_config_facts demo_machine_def)
qed

theorem preflight_predicts_start_witness:
  "starts_or_migration_stops ModeServer (fst (run demo_host [''server''] demo_machine)) \<and> snd (run demo_host [''check-db''] demo_machine) = demo_machine"
proof -
  have "fst (run demo_host [''check-db''] demo_machine) = fst (checkDB demo_host demo_loaded_config demo_machine)"
    using run_check [of "[''check-db'']" Map.empty "[]" demo_host demo_machine] demo_check_args by (simp add: ModeCheckDB_def demo_config_facts)
  moreover have "log_names_file demo_host Map.empty" using demo_log_path by (simp add: log_names_file_def demo_config_facts)
  ultimately show ?thesis
    using preflight_predicts_start [where args = "[''check-db'']" and seen = Map.empty and rest = "[]" and ho = demo_host and mc = demo_machine
        and args' = "[''server'']" and left = "[''server'']" and mode = ModeServer and rest' = "[]"]
      demo_star demo_disk_ok demo_check demo_check_args by (simp add: ModeCheckDB_def ModeServer_def demo_machine_def)
qed

lemma demo_serves: "\<exists>a logger mc'. run demo_host [''server''] demo_machine = (CliServes ModeServer a logger, mc')"
proof -
  obtain logger fs where l: "setupLogger (ho_lib demo_host) (cf_log demo_loaded_config) (mc_files demo_machine) = (Inr logger, fs)"
    using log_opens [of demo_disk "ho_temp demo_host" "cf_log demo_loaded_config" "ho_lib demo_host"] demo_disk_ok demo_log_path
      valid_logging [OF demo_star(2) demo_config_facts(2)] demo_check
    by (auto simp: demo_config_facts demo_machine_def checkDB_def split: option.splits prod.splits)
  obtain a where a: "App_New (ho_lib demo_host) (ho_kinds demo_host) True True (ho_version demo_host) demo_loaded_config = Inr a"
    using valid_starts [OF demo_star(2) demo_config_facts(2) demo_star(1)] by blast
  have "start_app demo_host demo_loaded_config (mc_db demo_machine) = (Inr a, mc_db demo_machine)"
    using a demo_up_to_date demo_opens demo_config_facts by (simp add: start_app_def Let_def)
  then have "\<exists>mc'. serve demo_host demo_loaded_config ModeServer demo_machine = (CliServes ModeServer a logger, mc')"
    using l by (simp add: serve_def)
  moreover have "run demo_host [''server''] demo_machine = serve demo_host demo_loaded_config ModeServer demo_machine"
    using run_serve [of "[''server'']" Map.empty "[''server'']" ModeServer "[]" demo_host demo_machine] demo_check_args(2)
    by (simp add: ModeServer_def demo_config_facts demo_credential)
  ultimately show ?thesis by auto
qed

theorem start_is_guarded_witness:
  "(\<exists>a mc'. serves_guarded demo_host [''server''] demo_machine ModeServer a mc' \<and> mc_files mc' ''etc'' = Some (DirNode False)) \<and>
   snd (run demo_host [''check-bd''] demo_machine) = demo_machine"
proof -
  obtain a logger mc' where r: "run demo_host [''server''] demo_machine = (CliServes ModeServer a logger, mc')" using demo_serves by blast
  have "run demo_host [''check-bd''] demo_machine = (CliFailed (UnknownMode ''check-bd''), demo_machine)"
    by (simp add: run_def flag_parse_stop Modes_def ModeServer_def ModeWorker_def ModeAll_def ModeCheckDB_def ModeUser_def)
  moreover have "mc_files demo_machine ''etc'' = Some (DirNode False)" by (simp add: demo_machine_def demo_disk_def)
  then have "mc_files mc' ''etc'' = Some (DirNode False)" using start_is_guarded [OF r] by simp
  ultimately show ?thesis using start_is_guarded [OF r] by auto
qed

subsection \<open>A command\<close>

definition demo_user_row :: User where
  "demo_user_row = \<lparr>us_id = ''u1'', us_login = ''bob'', us_password_hash = ''h'', us_created_at = 0, us_disabled_at = None, us_last_login_at = None\<rparr>"

definition demo_accounts :: accounts where
  "demo_accounts = \<lparr>ac_users = [demo_user_row], ac_sessions = [\<lparr>ss_id = ''s'', ss_user_id = ''u1'', ss_created_at = 0, ss_last_seen_at = 0,
     ss_expires_at = 9, ss_ip = [], ss_user_agent = []\<rparr>]\<rparr>"

theorem user_command_effect_witness:
  "\<exists>text a'. run_alone (userAction demo_user_env \<lparr>uc_action = ''disable'', uc_login = '' bob'', uc_from_stdin = False\<rparr>) demo_accounts = (Inr text, a') \<and>
     ac_sessions a' = [] \<and> (\<exists>u \<in> set (ac_users a'). us_login u = ''bob'' \<and> us_disabled_at u \<noteq> None)"
proof -
  let ?cmd = "\<lparr>uc_action = ''disable'', uc_login = '' bob'', uc_from_stdin = False\<rparr>"
  have p: "parseUserArgs [''disable'', '' bob''] = Inr ?cmd" by (simp add: parseUserArgs_def flag_parse_stop)
  have n: "NormalizeLogin (ue_lower demo_user_env) '' bob'' = Inr ''bob''" by code_simp
  obtain r a' where run: "run_alone (userAction demo_user_env ?cmd) demo_accounts = (r, a')" by fastforce
  have "\<exists>text. r = Inr text"
    using run n by (auto simp: userAction_def run_alone_bind run_alone_map UserByLogin_def one_user_def demo_accounts_def demo_user_row_def change_user_def
        commit_def DisableUser_def update_user_def split: sum.splits)
  moreover have ok: "accounts_ok demo_accounts" "good_argon (ue_argon demo_user_env)" "\<forall>s \<in> set (ac_sessions demo_accounts). ss_id s \<noteq> []"
    using demo_argon_good by (simp_all add: accounts_ok_def demo_accounts_def demo_user_row_def demo_user_env_def)
  ultimately obtain msg u where u: "r = Inr msg" "command_done demo_user_env ?cmd u demo_accounts a'" "us_login u = ''bob''"
    "us_id u = ''u1''" using user_command_effect [OF ok p run] n by (auto simp: demo_accounts_def demo_user_row_def)
  then have "ac_sessions a' = []" by (simp add: command_done_def ends_sessions_def demo_accounts_def)
  moreover have "u \<in> set (ac_users a')" "us_disabled_at u \<noteq> None" using u(2) by (simp_all add: command_done_def one_row_changed_def user_row_after_def)
  ultimately show ?thesis using run u(1,3) by blast
qed

end

