(* ===== verification/Spec2Isabelle.thy ===== *)
theory Spec2Isabelle
  imports Prelude Go_Text Go_JSON Domain Routing_Config Routing Store_Tables Db Store_Events Store_Deliveries
    Store_Invariant Store_Preserve Service Service_Contract Registry Worker Worker_Contract Worker_Slots
    Evolution System Examples
    Go_Encode Go_Time Store_Users Keyed_Table Auth Auth_Properties Http Rate_Limit Console Console_Contract Console_Properties
    Console_Examples Store_Lists Api Api_Properties Api_Examples
    Go_Strings Go_Marshal Config Config_Env Config_Keys Edit_Distance Channel_Text Channel_Http Channel_Send Channel_Mail
    Channel_Properties Channel_Limits Channel_Examples App App_Properties
    Go_Query Storage_Dsn Migrate Migrate_Properties Go_Host Cli Cli_Properties Cli_Examples
begin

text \<open>
  AlertLoop is one Go binary that takes reports of incidents over a JSON API, stores them in SQLite or PostgreSQL, and delivers alerts and
  recovery notices to configured channels until they are sent or out of tries. This development models its own code under
  \<^verbatim>\<open>internal/\<close> and \<^verbatim>\<open>cmd/\<close> as HOL functions, and proves what makes the parts and their composition correct.

  \<^bold>\<open>How the parts interact.\<close> A configuration file is loaded and checked (\<^verbatim>\<open>config\<close>) and becomes a registry of channels, a router and the
  services (\<^verbatim>\<open>app\<close>, started by \<^verbatim>\<open>cmd/alertloop\<close>). A request passes the middleware and the mux of \<^verbatim>\<open>api\<close> to a handler, which calls a service
  (\<^verbatim>\<open>service\<close>); ingestion asks the router (\<^verbatim>\<open>routing\<close>) for the channels of an event and writes the event with its delivery attempts in one
  transaction (\<^verbatim>\<open>storage\<close>). Workers (\<^verbatim>\<open>delivery\<close>) claim due attempts, send them through the channels (\<^verbatim>\<open>channels\<close>) and write the outcome back.
  Console users sign in with passwords and hold sessions (\<^verbatim>\<open>auth\<close>, \<^verbatim>\<open>api/auth.go\<close>, \<^verbatim>\<open>storage/users.go\<close>).

  \<^bold>\<open>Groups of theories.\<close>
  \<^item> Go and its library: \<open>Prelude\<close>, \<open>Go_Text\<close> (bytes, UTF-8, trimming, lower case), \<open>Go_Strings\<close>, \<open>Go_Encode\<close> (base64, decimal numbers,
    scanning), \<open>Go_Time\<close> (calendar, RFC 3339 text), \<open>Go_JSON\<close> (the scanner of \<^verbatim>\<open>json.Valid\<close>), \<open>Go_Marshal\<close> (writing JSON), \<open>Go_Query\<close>
    (URL queries), \<open>Keyed_Table\<close> (maps whose size matters). A string is the list of its bytes, an instant and a duration a number of nanoseconds.
  \<^item> The domain and the store: \<open>Domain\<close>; \<open>Store_Tables\<close>, \<open>Store_Events\<close>, \<open>Store_Deliveries\<close>, \<open>Store_Lists\<close>, \<open>Store_Users\<close> give each statement and
    transaction of \<^verbatim>\<open>sql_store.go\<close>, \<^verbatim>\<open>claim.go\<close> and \<^verbatim>\<open>users.go\<close> over tables that are lists of rows; \<open>Store_Invariant\<close>, \<open>Store_Preserve\<close>
    and \<open>Evolution\<close> hold the invariant of the tables and what one transaction may change. \<open>Db\<close> is the monad of programs over a
    database that other processes write to between two of their statements.
  \<^item> The opening of the database: \<open>Storage_Dsn\<close> (\<^verbatim>\<open>dsn.go\<close>, \<^verbatim>\<open>dialect.go\<close>, \<^verbatim>\<open>check.go\<close>), \<open>Migrate\<close> and
    \<open>Migrate_Properties\<close> (\<^verbatim>\<open>migrate.go\<close>).
  \<^item> Services, routing and delivery: \<open>Routing_Config\<close>, \<open>Routing\<close>, \<open>Registry\<close>, \<open>Service\<close>, \<open>Worker\<close>; the contracts \<open>Service_Contract\<close>,
    \<open>Worker_Contract\<close>, \<open>Worker_Slots\<close>; \<open>System\<close> composes all of them, with any number of processes, as one step relation.
  \<^item> HTTP: \<open>Http\<close> (middleware, scopes, client address), \<open>Rate_Limit\<close>, \<open>Api\<close> with \<open>Api_Properties\<close> (the JSON API), \<open>Auth\<close> and
    \<open>Auth_Properties\<close>, \<open>Console\<close>, \<open>Console_Contract\<close> and \<open>Console_Properties\<close> (the account endpoints).
  \<^item> Channels: \<open>Channel_Text\<close>, \<open>Channel_Http\<close>, \<open>Channel_Send\<close>, \<open>Channel_Mail\<close>, with \<open>Channel_Properties\<close> and \<open>Channel_Limits\<close>.
  \<^item> Configuration and start: \<open>Config\<close>, \<open>Config_Env\<close>, \<open>Config_Keys\<close>, \<open>Edit_Distance\<close>, \<open>App\<close>, \<open>App_Properties\<close>; \<open>Cli\<close> and
    \<open>Cli_Properties\<close> (\<^verbatim>\<open>cmd/alertloop\<close>) over \<open>Go_Host\<close> (command lines, paths, files).
  \<^item> \<open>Examples\<close>, \<open>Api_Examples\<close>, \<open>Console_Examples\<close>, \<open>Channel_Examples\<close>, \<open>Cli_Examples\<close>: concrete states at which the properties are applied.

  \<^bold>\<open>State and operations.\<close> A Go struct is a record with a short prefix to its fields, an enumeration of strings a datatype with a constructor
  for any other text, an error a constructor of a sum or option. A method that writes takes the state and gives the new one; a handler or service of several
  statements is a program of \<open>Db\<close>, so that its lemmas hold whatever other processes commit in between. Locales state the interfaces:
  \<open>event_writes\<close> and \<open>queue_writes\<close> (what a service or worker needs a write to keep), \<open>account_writes\<close> and \<open>console_writes\<close> (the same for the console),
  \<open>system_invariant\<close>, \<open>keyset\<close> (a row type with its sort key), \<open>keyed_table\<close>; each is interpreted on the model's own operations.

  \<^bold>\<open>What the lemmas show.\<close> The properties are the theorems whose text begins with a number. Those of \<open>System\<close>'s reachable states are in this theory: no
  recovery overtakes its alert, one open incident per key, no notice twice, final states are final, muted incidents are quiet, tries within
  their budget. The others stand with their component: routing refines its declarative reading, the worker's slots, times and loops,
  the API's rights, the console's sessions and revocation, paging, rate limits, the texts of the channels, validation, keys of the file, migrations
  and the database address, and the order of a start. \<open>Channel_Properties\<close> shows what a hostile event or service cannot do. Where a statement has
  an exception, its text names it: a sign-in in flight while a password is set, a secret with a star, the host of a redirect, a log file whose name
  does not name a file, a start that is refused after its log file was opened, addresses of SQLite that are passed on as written.

  \<^bold>\<open>Bounds and fuel.\<close> \<open>fill\<close> of the worker runs on fuel and \<open>fill_within_slots\<close> shows that the slots plus the channels are enough; a transition
  is tried three times, as in the code; batched deletion and the page walk take a list of polls or a number of pages, and paging is shown to end
  within one page more than there are matching rows. All other recursion ends by measure. Integers are mathematical where the code stays far from
  64 bits; shifts and masks of addresses are written out. A \<^verbatim>\<open>float64\<close> of the rate limiter is a rational number.

  \<^bold>\<open>Parameters.\<close> Code that is not in the repository is an argument: SHA-256, argon2, HMAC, parsing of URLs and addresses, Unicode case, decoding of JSON and
  YAML, Q-encoding, the HTTP client, the SMTP server, the SQL text of the migrations, the embedded files, the random source. Laws assumed of
  them are premises of the theorem that needs them, and its witness gives an instance.

  \<^bold>\<open>Not modelled.\<close> The goroutines, channels, signals and listeners that keep the process running (\<^verbatim>\<open>Run\<close>, \<^verbatim>\<open>RunServer\<close>, \<^verbatim>\<open>RunWorker\<close>, \<^verbatim>\<open>RunAll\<close>): their turns are
  the steps of \<open>System\<close>. Log lines, security headers, metrics of time, and the texts of messages to people, except where a property
  is about them. The embedded files of the console and the OpenAPI document, which are data. The SQL of a statement is translated by hand into an
  operation on tables; the engines are trusted to execute it, with one statement or transaction as the unit of atomicity. A YAML document is a finite
  tree, in which the node behind an alias is written out; an anchor that contains itself is not a value of that type. The files of the host are found
  by clean paths, without links.
\<close>

section \<open>Properties of the whole system\<close>

text \<open>
  C1: no recovery overtakes its alert. In every reachable state, a recovery that a worker has ever taken (it is not in its initial
  pending state) belongs to a resolved incident and follows an alert of that incident to the same channel that is \<open>sent\<close>.
\<close>

theorem recovery_follows_sent_alert:
  assumes "reachable s" and "r \<in> set (st_attempts (sy_store s))" and "dr_kind r = KindRecovery" and "touched r"
  shows "\<exists>a \<in> set (st_attempts (sy_store s)).
           dr_recovery_for r = Some (dr_id a) \<and> dr_kind a = KindAlert \<and> dr_event_id a = dr_event_id r \<and>
           dr_channel_name a = dr_channel_name r \<and> dr_state a = DeliverySent \<and> event_resolved (sy_store s) (dr_event_id r)"
proof -
  have inv: "inv (sy_store s)" using core.everywhere [OF assms(1)] by (simp add: sys_inv_def)
  have "dr_recovery_for r \<noteq> None" using invD(5) [OF inv assms(2)] assms(3) by (simp add: row_ok_def)
  with invD(6) [OF inv assms(2)] assms(4) show ?thesis by (auto simp: recovery_ok_def follows_def)
qed

theorem recovery_follows_sent_alert_witness:
  "\<exists>a \<in> set (st_attempts (sy_store ex_s5)).
     dr_recovery_for ex_recovery = Some (dr_id a) \<and> dr_kind a = KindAlert \<and> dr_event_id a = dr_event_id ex_recovery \<and>
     dr_channel_name a = dr_channel_name ex_recovery \<and> dr_state a = DeliverySent \<and>
     event_resolved (sy_store ex_s5) (dr_event_id ex_recovery)"
  by (rule recovery_follows_sent_alert [OF ex_run5]) (use ex_recovery_row in \<open>simp_all add: ex_s5_def touched_def\<close>)

text \<open>
  C2: at most one open incident per dedupe key. In every reachable state two unresolved events with the same non-empty key are
  the same event, and an event carries a resolution time exactly when it is resolved.
\<close>

theorem one_open_incident_per_key:
  assumes "reachable s" and "e1 \<in> set (st_events (sy_store s))" and "e2 \<in> set (st_events (sy_store s))"
  shows "(k \<noteq> [] \<longrightarrow> open_key k e1 \<longrightarrow> open_key k e2 \<longrightarrow> e1 = e2) \<and> (ev_resolved_at e1 = None \<longleftrightarrow> open_event e1)"
proof -
  have inv: "inv (sy_store s)" using core.everywhere [OF assms(1)] by (simp add: sys_inv_def)
  show ?thesis
    using dedupe_ok_unique [OF invD(3) [OF inv] _ assms(2,3)] invD(9) [OF inv assms(2)] by blast
qed

theorem one_open_incident_per_key_witness:
  "hd (st_events ex_st1) = hd (st_events (sy_store ex_s1)) \<and> ev_resolved_at (hd (st_events ex_st1)) = None"
proof -
  have e: "hd (st_events ex_st1) \<in> set (st_events (sy_store ex_s1))" "open_key ''k'' (hd (st_events ex_st1))"
    "open_event (hd (st_events ex_st1))" by code_simp+
  show ?thesis using one_open_incident_per_key [OF ex_run1 e(1) e(1), of "''k''"] e(2,3) by (simp add: ex_s1_def)
qed

text \<open>
  C3: nobody is told twice. In every reachable state an alert has at most one recovery and at most one fallback copy, a copy
  is an alert of the same incident whose source is no copy itself, and a recovery is never cancelled.
\<close>

theorem no_double_notice:
  assumes "reachable s" and "r \<in> set (st_attempts (sy_store s))" and "r' \<in> set (st_attempts (sy_store s))"
  shows "(dr_recovery_for r \<noteq> None \<longrightarrow> dr_recovery_for r = dr_recovery_for r' \<longrightarrow> r = r') \<and>
         (dr_fallback_of r \<noteq> None \<longrightarrow> dr_fallback_of r = dr_fallback_of r' \<longrightarrow> r = r') \<and>
         (dr_fallback_of r = Some (dr_id r') \<longrightarrow> dr_fallback_of r' = None \<and> dr_kind r = KindAlert \<and> dr_event_id r' = dr_event_id r) \<and>
         (dr_kind r = KindRecovery \<longrightarrow> dr_state r \<noteq> DeliveryCancelled)"
proof -
  have inv: "inv (sy_store s)" using core.everywhere [OF assms(1)] by (simp add: sys_inv_def)
  have rec: "dr_recovery_for r \<noteq> None \<longrightarrow> dr_recovery_for r = dr_recovery_for r' \<longrightarrow> r = r'"
    using invD(4) [OF inv] assms(2,3) by (auto simp: one_recovery_def)
  have fb: "dr_fallback_of r \<noteq> None \<longrightarrow> dr_fallback_of r = dr_fallback_of r' \<longrightarrow> r = r'"
    using inv assms(2,3) by (auto simp: inv_def wf_store_def keys_ok_def)
  have row: "row_ok r" by (rule invD(5) [OF inv assms(2)])
  have "dr_fallback_of r' = None \<and> dr_event_id r' = dr_event_id r" if f: "dr_fallback_of r = Some (dr_id r')"
  proof -
    from invD(7) [OF inv assms(2)] f obtain a where a: "a \<in> set (st_attempts (sy_store s))" "copies r a"
      by (auto simp: fallback_ok_def)
    from f a(2) have "dr_id a = dr_id r'" by (simp add: copies_def)
    then have "a = r'" by (rule attempt_unique [OF inv a(1) assms(3)])
    with a(2) show ?thesis by (simp add: copies_def)
  qed
  with rec fb row show ?thesis by (auto simp: row_ok_def)
qed

theorem no_double_notice_witness:
  "dr_recovery_for ex_recovery \<noteq> None \<and> dr_state ex_recovery \<noteq> DeliveryCancelled"
proof -
  have r: "ex_recovery \<in> set (st_attempts (sy_store ex_s5))" using ex_recovery_row(1) by (simp add: ex_s5_def)
  have "dr_recovery_for ex_recovery \<noteq> None" by code_simp
  then show ?thesis using no_double_notice [OF ex_run5 r r] ex_recovery_row(2) by simp
qed

text \<open>
  C6: the attempt budget holds. In every reachable state every delivery attempt has used between zero and its maximum number of
  tries, it has one left while it is pending, failed or being sent, it used at least one when it is \<open>sent\<close>, and its stored
  error is at most a thousand characters long.
\<close>

theorem attempts_within_budget:
  assumes "reachable s" and "r \<in> set (st_attempts (sy_store s))"
  shows "0 \<le> dr_attempts r \<and> dr_attempts r \<le> dr_max_attempts r \<and> (active (dr_state r) \<longrightarrow> dr_attempts r < dr_max_attempts r) \<and>
         (dr_state r = DeliverySent \<longrightarrow> 0 < dr_attempts r) \<and> int (RuneCountInString (dr_last_error r)) \<le> MaxLastErrorRunes"
proof -
  have "inv (sy_store s)" using core.everywhere [OF assms(1)] by (simp add: sys_inv_def)
  from invD(5) [OF this assms(2)] show ?thesis by (simp add: row_ok_def counts_ok_def)
qed

theorem attempts_within_budget_witness: "dr_attempts ex_recovery < dr_max_attempts ex_recovery"
proof -
  have r: "ex_recovery \<in> set (st_attempts (sy_store ex_s5))" using ex_recovery_row(1) by (simp add: ex_s5_def)
  have "active (dr_state ex_recovery)" using ex_recovery_row(3) by (simp add: active_def)
  then show ?thesis using attempts_within_budget [OF ex_run5 r] by simp
qed

text \<open>
  C4: terminal states are terminal. Along every run, whatever the processes do, a delivery attempt that is \<open>sent\<close> or
  \<open>cancelled\<close> and an event that is \<open>resolved\<close> stay exactly as they are for as long as they are stored.
\<close>

theorem terminal_states_final:
  assumes "reachable s" and "step\<^sup>*\<^sup>* s s'"
  shows "(\<forall>r \<in> set (st_attempts (sy_store s)). \<forall>r' \<in> set (st_attempts (sy_store s')). final_row r \<longrightarrow> dr_id r' = dr_id r \<longrightarrow> r' = r) \<and>
         (\<forall>e \<in> set (st_events (sy_store s)). \<forall>e' \<in> set (st_events (sy_store s')). \<not> open_event e \<longrightarrow> ev_id e' = ev_id e \<longrightarrow> e' = e)"
proof -
  have si: "sys_inv s" by (rule core.everywhere [OF assms(1)])
  then have inv: "inv (sy_store s)" by (simp add: sys_inv_def)
  obtain X where X: "X \<inter> sy_used s = {}" "evolves (sy_store s) (sy_store s') X" using run_evolves [OF assms(2) si] by blast
  have "r' = r" if r: "r \<in> set (st_attempts (sy_store s))" "r' \<in> set (st_attempts (sy_store s'))" "final_row r" "dr_id r' = dr_id r" for r r'
  proof -
    have "dr_id r' \<notin> X" using X(1) si r(1,4) by (auto simp: sys_inv_def)
    then obtain r0 where r0: "r0 \<in> set (st_attempts (sy_store s))" "row_evolves r0 r'" by (rule evolves_rowE [OF X(2) r(2)])
    then have "r0 = r" using attempt_unique [OF inv r0(1) r(1)] row_evolves_id [OF r0(2)] r(4) by simp
    with r0(2) r(3) show ?thesis by (simp add: row_evolves_def)
  qed
  moreover have "e' = e" if e: "e \<in> set (st_events (sy_store s))" "e' \<in> set (st_events (sy_store s'))" "\<not> open_event e" "ev_id e' = ev_id e" for e e'
  proof -
    have "ev_id e' \<notin> X" using X(1) si e(1,4) by (auto simp: sys_inv_def)
    then obtain e0 where e0: "e0 \<in> set (st_events (sy_store s))" "event_evolves e0 e'" by (rule evolves_eventE [OF X(2) e(2)])
    then have "e0 = e" using event_unique [OF inv e0(1) e(1)] event_evolves_id [OF e0(2)] e(4) by simp
    with e0(2) e(3) show ?thesis by (simp add: event_evolves_def)
  qed
  ultimately show ?thesis by blast
qed

theorem terminal_states_final_witness:
  "hd (st_attempts ex_st4) = hd (st_attempts ex_st3) \<and> dr_state (hd (st_attempts ex_st4)) = DeliverySent"
proof -
  have r: "hd (st_attempts ex_st3) \<in> set (st_attempts (sy_store ex_s3))" "hd (st_attempts ex_st4) \<in> set (st_attempts (sy_store ex_s4))"
    by (simp_all add: ex_s3_def ex_s4_def) (code_simp+)
  have f: "final_row (hd (st_attempts ex_st3))" "dr_id (hd (st_attempts ex_st4)) = dr_id (hd (st_attempts ex_st3))"
    "dr_state (hd (st_attempts ex_st3)) = DeliverySent" by code_simp+
  have "hd (st_attempts ex_st4) = hd (st_attempts ex_st3)"
    using terminal_states_final [OF ex_run3 ex_run34] r f(1,2) by blast
  with f(3) show ?thesis by simp
qed

text \<open>
  C5: a muted incident is quiet. In every reachable state no alert of a muted incident is queued for delivery, neither pending nor
  waiting for a retry, unless an operator replayed that very attempt.
\<close>

theorem muted_incident_is_quiet:
  assumes "reachable s" and "r \<in> set (st_attempts (sy_store s))" and "queued_alert r" and "event_muted (sy_store s) (dr_event_id r)"
  shows "dr_id r \<in> sy_replayed s"
  using quiet.everywhere [OF assms(1)] assms(2-4) by (auto simp: muted_quiet_def)

theorem muted_incident_is_quiet_witness:
  "queued_alert (hd (st_attempts mx_st5)) \<and> dr_id (hd (st_attempts mx_st5)) \<in> sy_replayed mx_s5"
proof -
  let ?r = "hd (st_attempts mx_st5)"
  have mem: "?r \<in> set (st_attempts (sy_store mx_s5))" using mx_row(1) by (simp add: mx_s5_def)
  have muted: "event_muted (sy_store mx_s5) (dr_event_id ?r)" using mx_muted by (simp add: mx_s5_def)
  show ?thesis using muted_incident_is_quiet [OF mx_run5 mem mx_row(2) muted] mx_row(2) by (rule conjI [rotated])
qed

end
